(* ===== verification/Prelude.thy ===== *)
theory Prelude
  imports
    Main
    "HOL-Library.Word"
    "HOL-Library.Sublist"
    "HOL-Library.Char_ord"
    "HOL-Library.List_Lexorder"
begin

text \<open>
  Shared vocabulary of the development: machine integers, error codes, the byte-string
  operations of Rust's \<^verbatim>\<open>str\<close>, and the ordered map \<^verbatim>\<open>BTreeMap\<close>.

  A \<^verbatim>\<open>str\<close> is its list of UTF-8 bytes (\<^typ>\<open>string\<close>, one \<^typ>\<open>char\<close> per byte); every pattern the
  program searches for is ASCII, so byte-wise and character-wise operations agree.
  \<^verbatim>\<open>usize\<close> and \<^verbatim>\<open>u64\<close> are 64 bits wide (the target is x86\_64).
\<close>

section \<open>Machine integers and error codes\<close>

type_synonym usize = "64 word"
type_synonym u64 = "64 word"
type_synonym u32 = "32 word"
type_synonym u16 = "16 word"
type_synonym bytes = "8 word list"

text \<open>The \<^verbatim>\<open>syscall::error\<close> codes the program names; any other code is kept as its number.\<close>

datatype errno =
    EACCES | EBADF | EEXIST | EINVAL | EIO | EISDIR | ENOENT | ENOMEM | ENOTDIR | EOPNOTSUPP
  | Errno int

type_synonym 'a res = "errno + 'a"

text \<open>The two \<^verbatim>\<open>EventFlags\<close> the schemes report.\<close>

record event_flags =
  EVENT_READ :: bool
  EVENT_WRITE :: bool

text \<open>The \<^verbatim>\<open>std::io::ErrorKind\<close> of an \<^verbatim>\<open>io::Error\<close>; kinds the program never names are numbered.\<close>

datatype io_kind = NotFound | PermissionDenied | InvalidInput | InvalidData | BrokenPipe | OtherIo nat

lemma word_less_succ:
  assumes "(x :: 64 word) \<noteq> - 1"
  shows "x < x + 1"
proof -
  have "1 + x \<noteq> 0"
    using assms by (metis add.commute add_eq_0_iff2)
  then have "unat (1 + x) = Suc (unat x)"
    by (rule unatSuc)
  then show ?thesis
    by (simp add: word_less_nat_alt add.commute)
qed

named_theorems rust_str \<open>unfolding rules for the string operations\<close>
named_theorems bt_simps \<open>laws of the ordered map\<close>

section \<open>Strings\<close>

abbreviation slash :: char where "slash \<equiv> CHR ''/''"

definition trim_start_matches :: "char \<Rightarrow> string \<Rightarrow> string" where
  "trim_start_matches c s = dropWhile (\<lambda>x. x = c) s"

definition trim_end_matches :: "char \<Rightarrow> string \<Rightarrow> string" where
  "trim_end_matches c s = rev (dropWhile (\<lambda>x. x = c) (rev s))"

definition trim_matches :: "char \<Rightarrow> string \<Rightarrow> string" where
  "trim_matches c s = trim_end_matches c (trim_start_matches c s)"

text \<open>\<^verbatim>\<open>str::find\<close> for a one-byte pattern.\<close>

fun find_char :: "char \<Rightarrow> string \<Rightarrow> nat option" where
  "find_char c [] = None"
| "find_char c (x # xs) = (if x = c then Some 0 else map_option Suc (find_char c xs))"

definition starts_with :: "string \<Rightarrow> string \<Rightarrow> bool" where
  "starts_with s p \<longleftrightarrow> prefix p s"

definition strip_prefix :: "string \<Rightarrow> string \<Rightarrow> string option" where
  "strip_prefix s p = (if prefix p s then Some (drop (length p) s) else None)"

definition strip_suffix :: "string \<Rightarrow> string \<Rightarrow> string option" where
  "strip_suffix s p = (if suffix p s then Some (take (length s - length p) s) else None)"

fun contains_str :: "string \<Rightarrow> string \<Rightarrow> bool" where
  "contains_str [] p = (p = [])"
| "contains_str (x # xs) p = (prefix p (x # xs) \<or> contains_str xs p)"

text \<open>\<^verbatim>\<open>str::split\<close> on one byte: adjacent separators give empty pieces, an empty string one piece.\<close>

fun split_char :: "char \<Rightarrow> string \<Rightarrow> string list" where
  "split_char c [] = [[]]"
| "split_char c (x # xs) =
     (if x = c then [] # split_char c xs
      else (case split_char c xs of [] \<Rightarrow> [[x]] | w # ws \<Rightarrow> (x # w) # ws))"

fun join_char :: "char \<Rightarrow> string list \<Rightarrow> string" where
  "join_char c [] = []"
| "join_char c [w] = w"
| "join_char c (w # v # ws) = w @ c # join_char c (v # ws)"

text \<open>
  Slicing a \<^verbatim>\<open>str\<close> at a byte index panics unless the index is a character boundary;
  \<open>None\<close> is the panic.
\<close>

definition byte_of :: "char \<Rightarrow> nat" where
  "byte_of c = of_char c"

definition is_cont :: "char \<Rightarrow> bool" where
  "is_cont c \<longleftrightarrow> 128 \<le> byte_of c \<and> byte_of c < 192"

definition is_char_boundary :: "string \<Rightarrow> nat \<Rightarrow> bool" where
  "is_char_boundary s i \<longleftrightarrow>
     i = 0 \<or> (if length s \<le> i then i = length s else \<not> is_cont (s ! i))"

definition slice_to :: "string \<Rightarrow> nat \<Rightarrow> string option" where
  "slice_to s i = (if is_char_boundary s i then Some (take i s) else None)"

text \<open>\<^verbatim>\<open>std::str::from_utf8\<close> succeeds exactly on the byte strings accepted here.\<close>

fun utf8_valid :: "string \<Rightarrow> bool" where
  "utf8_valid [] = True"
| "utf8_valid (a # r) =
     (let b = byte_of a in
      if b < 128 then utf8_valid r
      else (case r of [] \<Rightarrow> False | c1 # r1 \<Rightarrow>
        if 194 \<le> b \<and> b < 224 then is_cont c1 \<and> utf8_valid r1
        else (case r1 of [] \<Rightarrow> False | c2 # r2 \<Rightarrow>
          if 224 \<le> b \<and> b < 240
          then is_cont c1 \<and> (b = 224 \<longrightarrow> 160 \<le> byte_of c1) \<and> (b = 237 \<longrightarrow> byte_of c1 < 160)
               \<and> is_cont c2 \<and> utf8_valid r2
          else (case r2 of [] \<Rightarrow> False | c3 # r3 \<Rightarrow>
            240 \<le> b \<and> b < 245 \<and> is_cont c1 \<and> (b = 240 \<longrightarrow> 144 \<le> byte_of c1)
            \<and> (b = 244 \<longrightarrow> byte_of c1 < 144) \<and> is_cont c2 \<and> is_cont c3 \<and> utf8_valid r3))))"

subsection \<open>Laws of the string operations\<close>

lemma trim_start_Nil [simp]: "trim_start_matches c [] = []"
  by (simp add: trim_start_matches_def)

lemma trim_start_hd: "trim_start_matches c s \<noteq> [] \<Longrightarrow> hd (trim_start_matches c s) \<noteq> c"
  unfolding trim_start_matches_def by (drule hd_dropWhile) simp

lemma trim_end_last: "trim_end_matches c s \<noteq> [] \<Longrightarrow> last (trim_end_matches c s) \<noteq> c"
proof -
  assume ne: "trim_end_matches c s \<noteq> []"
  then have "dropWhile (\<lambda>x. x = c) (rev s) \<noteq> []"
    by (simp add: trim_end_matches_def)
  then have "hd (dropWhile (\<lambda>x. x = c) (rev s)) \<noteq> c"
    by (drule_tac hd_dropWhile) simp
  with ne show ?thesis
    by (simp add: trim_end_matches_def last_rev)
qed

lemma trim_start_id: "s = [] \<or> hd s \<noteq> c \<Longrightarrow> trim_start_matches c s = s"
  by (cases s) (auto simp: trim_start_matches_def)

lemma trim_end_id: "s = [] \<or> last s \<noteq> c \<Longrightarrow> trim_end_matches c s = s"
  by (cases s rule: rev_cases) (auto simp: trim_end_matches_def)

lemma trim_matches_id:
  "s = [] \<or> (hd s \<noteq> c \<and> last s \<noteq> c) \<Longrightarrow> trim_matches c s = s"
  by (auto simp: trim_matches_def trim_start_id trim_end_id)

lemma trim_end_prefix: "prefix (trim_end_matches c s) s"
proof -
  have "s = rev (dropWhile (\<lambda>x. x = c) (rev s)) @ rev (takeWhile (\<lambda>x. x = c) (rev s))"
    by (metis rev_append rev_rev_ident takeWhile_dropWhile_id)
  then show ?thesis
    unfolding trim_end_matches_def by (metis prefixI)
qed

lemma trim_end_hd:
  assumes "trim_end_matches c s \<noteq> []"
  shows "hd (trim_end_matches c s) = hd s"
proof -
  obtain zs where "s = trim_end_matches c s @ zs"
    using trim_end_prefix[of c s] by (auto simp: prefix_def)
  with assms show ?thesis by (metis hd_append)
qed

lemma trim_matches_ends:
  assumes "trim_matches c s \<noteq> []"
  shows "hd (trim_matches c s) \<noteq> c" and "last (trim_matches c s) \<noteq> c"
proof -
  have "trim_start_matches c s \<noteq> []"
    using assms by (auto simp: trim_matches_def trim_end_matches_def)
  then show "hd (trim_matches c s) \<noteq> c"
    using assms by (simp add: trim_matches_def trim_end_hd trim_start_hd)
  show "last (trim_matches c s) \<noteq> c"
    using assms by (simp add: trim_matches_def trim_end_last)
qed

lemma trim_matches_idem [simp]: "trim_matches c (trim_matches c s) = trim_matches c s"
  by (rule trim_matches_id) (use trim_matches_ends[of c s] in blast)

lemma find_char_None_iff: "find_char c s = None \<longleftrightarrow> c \<notin> set s"
  by (induction s) auto

lemma find_char_SomeD:
  "find_char c s = Some i \<Longrightarrow> i < length s \<and> s ! i = c \<and> c \<notin> set (take i s)"
proof (induction s arbitrary: i)
  case Nil
  then show ?case by simp
next
  case (Cons x xs)
  then show ?case by (cases i) (auto split: if_splits)
qed

lemma find_char_split:
  "find_char c s = Some i \<Longrightarrow> s = take i s @ c # drop (Suc i) s"
  using find_char_SomeD[of c s i] by (metis id_take_nth_drop)

lemma find_char_append: "c \<notin> set w \<Longrightarrow> find_char c (w @ c # r) = Some (length w)"
  by (induction w) auto

lemma strip_prefix_Some_iff: "strip_prefix s p = Some r \<longleftrightarrow> s = p @ r"
  by (auto simp: strip_prefix_def prefix_def split: if_splits)

lemma strip_prefix_None_iff: "strip_prefix s p = None \<longleftrightarrow> \<not> prefix p s"
  by (simp add: strip_prefix_def)

lemma contains_str_iff: "contains_str s p \<longleftrightarrow> (\<exists>a b. s = a @ p @ b)"
proof (induction s)
  case Nil
  then show ?case by auto
next
  case (Cons x xs)
  have "contains_str (x # xs) p \<longleftrightarrow> prefix p (x # xs) \<or> (\<exists>a b. xs = a @ p @ b)"
    using Cons by simp
  also have "\<dots> \<longleftrightarrow> (\<exists>a b. x # xs = a @ p @ b)" (is "?l \<longleftrightarrow> ?r")
  proof
    assume ?l
    then show ?r
      by (auto simp: prefix_def) (metis append_Nil, metis append_Cons)
  next
    assume ?r
    then obtain a b where ab: "x # xs = a @ p @ b" by blast
    then show ?l
      by (cases a) (auto simp: prefix_def)
  qed
  finally show ?case .
qed

lemma split_char_ne [simp]: "split_char c s \<noteq> []"
  by (induction s) (auto split: list.splits)

lemma split_char_no_sep: "w \<in> set (split_char c s) \<Longrightarrow> c \<notin> set w"
proof (induction s arbitrary: w)
  case Nil
  then show ?case by simp
next
  case (Cons x xs)
  then show ?case by (cases "split_char c xs") (auto split: if_splits)
qed

lemma join_split_char [simp]: "join_char c (split_char c s) = s"
proof (induction s)
  case Nil
  then show ?case by simp
next
  case (Cons x xs)
  then show ?case
    by (cases "split_char c xs"; cases "tl (split_char c xs)") (auto split: if_splits)
qed

lemma split_char_single: "c \<notin> set w \<Longrightarrow> split_char c w = [w]"
  by (induction w) auto

lemma split_char_append: "c \<notin> set w \<Longrightarrow> split_char c (w @ c # s) = w # split_char c s"
  by (induction w) auto

lemma split_join_char:
  "ws \<noteq> [] \<Longrightarrow> \<forall>w\<in>set ws. c \<notin> set w \<Longrightarrow> split_char c (join_char c ws) = ws"
  by (induction c ws rule: join_char.induct) (auto simp: split_char_single split_char_append)

lemma split_char_app:
  "split_char c (s @ c # t) = split_char c s @ split_char c t"
proof (induction s)
  case Nil
  then show ?case by simp
next
  case (Cons x xs)
  then show ?case by (cases "split_char c xs") auto
qed

lemma find_SomeD: "find P xs = Some x \<Longrightarrow> P x \<and> x \<in> set xs"
  by (induction xs) (auto split: if_splits)

section \<open>The ordered map\<close>

text \<open>
  A \<^verbatim>\<open>BTreeMap\<close> is the list of its entries in ascending key order. \<^verbatim>\<open>String\<close> keys compare
  byte by byte, which is the order on \<^typ>\<open>string\<close> of the imported lexicographic instance.
\<close>

type_synonym ('k, 'v) btree = "('k \<times> 'v) list"

definition bt_get :: "('k, 'v) btree \<Rightarrow> 'k \<Rightarrow> 'v option" where
  "bt_get m = map_of m"

fun bt_insert :: "'k::linorder \<Rightarrow> 'v \<Rightarrow> ('k, 'v) btree \<Rightarrow> ('k, 'v) btree" where
  "bt_insert k v [] = [(k, v)]"
| "bt_insert k v ((a, b) # m) =
     (if k < a then (k, v) # (a, b) # m
      else if k = a then (k, v) # m
      else (a, b) # bt_insert k v m)"

fun bt_remove :: "'k \<Rightarrow> ('k, 'v) btree \<Rightarrow> ('k, 'v) btree" where
  "bt_remove k [] = []"
| "bt_remove k ((a, b) # m) = (if k = a then m else (a, b) # bt_remove k m)"

text \<open>\<^verbatim>\<open>m.entry(k).or_insert(v)\<close>.\<close>

definition bt_or_insert :: "'k::linorder \<Rightarrow> 'v \<Rightarrow> ('k, 'v) btree \<Rightarrow> ('k, 'v) btree" where
  "bt_or_insert k v m = (case bt_get m k of None \<Rightarrow> bt_insert k v m | Some _ \<Rightarrow> m)"

definition bt_keys :: "('k, 'v) btree \<Rightarrow> 'k list" where
  "bt_keys m = map fst m"

definition bt_values :: "('k, 'v) btree \<Rightarrow> 'v list" where
  "bt_values m = map snd m"

definition bt_inv :: "('k::linorder, 'v) btree \<Rightarrow> bool" where
  "bt_inv m \<longleftrightarrow> sorted_wrt (<) (map fst m)"

lemma bt_inv_Nil [simp]: "bt_inv []"
  by (simp add: bt_inv_def)

lemma bt_inv_Cons:
  "bt_inv ((a, b) # m) \<longleftrightarrow> (\<forall>k\<in>set (map fst m). a < k) \<and> bt_inv m"
  by (auto simp: bt_inv_def)

lemma bt_keys_insert [simp]: "set (map fst (bt_insert k v m)) = insert k (set (map fst m))"
  by (induction k v m rule: bt_insert.induct) auto

lemma bt_inv_insert [simp]: "bt_inv m \<Longrightarrow> bt_inv (bt_insert k v m)"
proof (induction k v m rule: bt_insert.induct)
  case (1 k v)
  then show ?case by (simp add: bt_inv_def)
next
  case (2 k v a b m)
  then show ?case
    using bt_keys_insert[of k v m] by (auto simp: bt_inv_Cons simp del: bt_keys_insert)
qed

lemma bt_get_insert [bt_simps]: "bt_get (bt_insert k v m) = (bt_get m)(k \<mapsto> v)"
  by (induction k v m rule: bt_insert.induct) (auto simp: bt_get_def fun_eq_iff)

lemma bt_get_notin: "k \<notin> set (map fst m) \<Longrightarrow> bt_get m k = None"
  by (auto simp: bt_get_def map_of_eq_None_iff)

lemma bt_remove_subset: "set (map fst (bt_remove k m)) \<subseteq> set (map fst m)"
  by (induction k m rule: bt_remove.induct) auto

lemma bt_inv_remove [simp]: "bt_inv m \<Longrightarrow> bt_inv (bt_remove k m)"
proof (induction k m rule: bt_remove.induct)
  case (1 k)
  then show ?case by simp
next
  case (2 k a b m)
  then show ?case using bt_remove_subset[of k m] by (fastforce simp: bt_inv_Cons)
qed

lemma bt_get_remove [bt_simps]: "bt_inv m \<Longrightarrow> bt_get (bt_remove k m) = (bt_get m)(k := None)"
proof (induction k m rule: bt_remove.induct)
  case (1 k)
  then show ?case by (simp add: bt_get_def)
next
  case (2 k a b m)
  have "bt_get m a = None"
    using 2 by (intro bt_get_notin) (auto simp: bt_inv_Cons)
  with 2 show ?case by (auto simp: bt_get_def bt_inv_Cons fun_eq_iff)
qed

lemma bt_get_empty [simp]: "bt_get [] = Map.empty"
  by (simp add: bt_get_def)

lemma bt_inv_or_insert [simp]: "bt_inv m \<Longrightarrow> bt_inv (bt_or_insert k v m)"
  by (auto simp: bt_or_insert_def split: option.split)

lemma bt_get_or_insert [bt_simps]:
  "bt_get (bt_or_insert k v m) =
     (case bt_get m k of None \<Rightarrow> (bt_get m)(k \<mapsto> v) | Some _ \<Rightarrow> bt_get m)"
  by (auto simp: bt_or_insert_def bt_simps split: option.split)

lemma bt_keys_dom: "set (bt_keys m) = dom (bt_get m)"
  by (simp add: bt_keys_def bt_get_def dom_map_of_conv_image_fst)

lemma bt_inv_distinct: "bt_inv m \<Longrightarrow> distinct (bt_keys m)"
  by (simp add: bt_inv_def bt_keys_def strict_sorted_iff)

lemma bt_get_Some_iff: "bt_inv m \<Longrightarrow> bt_get m k = Some v \<longleftrightarrow> (k, v) \<in> set m"
  using bt_inv_distinct[of m] by (simp add: bt_get_def bt_keys_def)

lemma bt_values_set: "bt_inv m \<Longrightarrow> set (bt_values m) = ran (bt_get m)"
  by (force simp: bt_values_def ran_def bt_get_Some_iff image_iff)

text \<open>The interface the daemons rely on: an ordered dictionary with insert, lookup and removal.\<close>

locale ordered_dict =
  fixes empty :: 'm
    and insert_at :: "'k::linorder \<Rightarrow> 'v \<Rightarrow> 'm \<Rightarrow> 'm"
    and remove_at :: "'k \<Rightarrow> 'm \<Rightarrow> 'm"
    and get :: "'m \<Rightarrow> 'k \<Rightarrow> 'v option"
    and keys :: "'m \<Rightarrow> 'k list"
    and inv :: "'m \<Rightarrow> bool"
  assumes get_empty: "get empty = Map.empty"
    and get_insert: "inv m \<Longrightarrow> get (insert_at k v m) = (get m)(k \<mapsto> v)"
    and get_remove: "inv m \<Longrightarrow> get (remove_at k m) = (get m)(k := None)"
    and keys_dom: "set (keys m) = dom (get m)"
    and keys_sorted: "inv m \<Longrightarrow> sorted_wrt (<) (keys m)"
    and inv_empty: "inv empty"
    and inv_insert: "inv m \<Longrightarrow> inv (insert_at k v m)"
    and inv_remove: "inv m \<Longrightarrow> inv (remove_at k m)"
begin

lemma inv_fold: "inv m \<Longrightarrow> inv (fold (\<lambda>x. insert_at (kf x) (vf x)) xs m)"
  by (induction xs arbitrary: m) (auto intro: inv_insert)

lemma dom_fold:
  "inv m \<Longrightarrow> dom (get (fold (\<lambda>x. insert_at (kf x) (vf x)) xs m)) = dom (get m) \<union> kf ` set xs"
  by (induction xs arbitrary: m) (auto simp: get_insert inv_insert)

lemma keys_fold:
  assumes "inv m"
  shows "keys (fold (\<lambda>x. insert_at (kf x) (vf x)) xs m)
         = sorted_list_of_set (dom (get m) \<union> kf ` set xs)"
proof -
  let ?m = "fold (\<lambda>x. insert_at (kf x) (vf x)) xs m"
  have "sorted_wrt (<) (keys ?m)"
    by (rule keys_sorted[OF inv_fold[OF assms]])
  moreover have "set (keys ?m) = dom (get m) \<union> kf ` set xs"
    by (simp add: keys_dom dom_fold[OF assms])
  ultimately show ?thesis
    by (metis List.finite_set sorted_list_of_set.idem_if_sorted_distinct strict_sorted_iff
        sorted_list_of_set.sorted_key_list_of_set_unique)
qed

end

interpretation btd: ordered_dict "[]" bt_insert bt_remove bt_get bt_keys bt_inv
  by unfold_locales (simp_all add: bt_simps bt_keys_dom, simp add: bt_keys_def bt_inv_def)

section \<open>Fallible operations on a state\<close>

text \<open>
  An operation that may fail and changes a state: \<^verbatim>\<open>Result\<close> together with the state after it.
  \<open>bindS\<close> is Rust's \<^verbatim>\<open>?\<close>: an error skips the rest and keeps the effects so far. \<open>attempt\<close> turns
  the result into a value (\<^verbatim>\<open>match\<close>, \<^verbatim>\<open>.ok()\<close>, \<^verbatim>\<open>let _ =\<close>).
\<close>

type_synonym ('w, 'e, 'a) eio = "'w \<Rightarrow> ('e + 'a) \<times> 'w"
type_synonym ('w, 'a) io = "('w, errno, 'a) eio"

text \<open>The same for an operation that may not return, which is \<open>None\<close>.\<close>

type_synonym ('w, 'a) pio = "'w \<Rightarrow> ('a res \<times> 'w) option"

definition ret :: "'a \<Rightarrow> ('w, 'e, 'a) eio" where
  "ret x = (\<lambda>w. (Inr x, w))"

definition fail :: "'e \<Rightarrow> ('w, 'e, 'a) eio" where
  "fail e = (\<lambda>w. (Inl e, w))"

definition bindS :: "('w, 'e, 'a) eio \<Rightarrow> ('a \<Rightarrow> ('w, 'e, 'b) eio) \<Rightarrow> ('w, 'e, 'b) eio" where
  "bindS m f = (\<lambda>w. case m w of (Inl e, w') \<Rightarrow> (Inl e, w') | (Inr x, w') \<Rightarrow> f x w')"

definition attempt :: "('w, 'e, 'a) eio \<Rightarrow> ('w, 'f, 'e + 'a) eio" where
  "attempt m = (\<lambda>w. case m w of (r, w') \<Rightarrow> (Inr r, w'))"

definition map_err :: "('e \<Rightarrow> 'f) \<Rightarrow> ('w, 'e, 'a) eio \<Rightarrow> ('w, 'f, 'a) eio" where
  "map_err f m = (\<lambda>w. case m w of (Inl e, w') \<Rightarrow> (Inl (f e), w') | (Inr x, w') \<Rightarrow> (Inr x, w'))"

definition ok_or :: "'a option \<Rightarrow> 'e \<Rightarrow> ('w, 'e, 'a) eio" where
  "ok_or x e = (case x of Some y \<Rightarrow> ret y | None \<Rightarrow> fail e)"

named_theorems io_defs \<open>unfolding of the state-and-error combinators\<close>

declare ret_def [io_defs] fail_def [io_defs] bindS_def [io_defs] attempt_def [io_defs]
  map_err_def [io_defs] ok_or_def [io_defs]

lemma bindS_Inr: "m s = (Inr x, t) \<Longrightarrow> bindS m f s = f x t"
  by (simp add: bindS_def)

lemma bindS_Inl: "m s = (Inl e, t) \<Longrightarrow> bindS m f s = (Inl e, t)"
  by (simp add: bindS_def)

lemma bindS_attempt: "bindS (attempt m) f s = (case m s of (r, t) \<Rightarrow> f r t)"
  by (simp add: bindS_def attempt_def split: prod.split)

lemma bindS_InrE:
  assumes "bindS m f s = (Inr r, s')"
  obtains x t where "m s = (Inr x, t)" "f x t = (Inr r, s')"
  using assms by (auto simp: bindS_def split: prod.splits sum.splits)

lemma attempt_InrE:
  assumes "attempt m s = (Inr r, s')"
  obtains "m s = (r, s')"
  using assms by (auto simp: attempt_def split: prod.splits)

lemma map_err_InrE:
  assumes "map_err f m s = (Inr r, s')"
  obtains "m s = (Inr r, s')"
  using assms by (auto simp: map_err_def split: prod.splits sum.splits)

text \<open>
  Reasoning about effects: \<open>keeps P m\<close> says that the operation preserves the state predicate
  \<open>P\<close>, whatever it returns.
\<close>

definition keeps :: "('w \<Rightarrow> bool) \<Rightarrow> ('w, 'e, 'a) eio \<Rightarrow> bool" where
  "keeps P m \<longleftrightarrow> (\<forall>w. P w \<longrightarrow> P (snd (m w)))"

named_theorems keeps_rules \<open>closure of predicate preservation under the combinators\<close>

lemma keeps_ret [keeps_rules]: "keeps P (ret x)"
  by (simp add: keeps_def ret_def)

lemma keeps_fail [keeps_rules]: "keeps P (fail e)"
  by (simp add: keeps_def fail_def)

lemma keeps_bindS [keeps_rules]: "keeps P m \<Longrightarrow> (\<And>x. keeps P (f x)) \<Longrightarrow> keeps P (bindS m f)"
  by (fastforce simp: keeps_def bindS_def split: prod.split sum.split)

lemma keeps_attempt [keeps_rules]: "keeps P m \<Longrightarrow> keeps P (attempt m)"
  by (fastforce simp: keeps_def attempt_def split: prod.split)

lemma keeps_map_err [keeps_rules]: "keeps P m \<Longrightarrow> keeps P (map_err f m)"
  by (fastforce simp: keeps_def map_err_def split: prod.split sum.split)

lemma keeps_ok_or [keeps_rules]: "keeps P (ok_or x e)"
  by (simp add: ok_or_def keeps_ret keeps_fail split: option.split)

lemma keepsD: "keeps P m \<Longrightarrow> P w \<Longrightarrow> m w = (r, w') \<Longrightarrow> P w'"
  by (metis keeps_def snd_conv)


lemma keepsI: "(\<And>w. P w \<Longrightarrow> P (snd (m w))) \<Longrightarrow> keeps P m"
  by (simp add: keeps_def)

lemma keeps_snd: "keeps P m \<Longrightarrow> P w \<Longrightarrow> P (snd (m w))"
  by (simp add: keeps_def)

text \<open>\<open>yields P m Q\<close>: from a state satisfying \<open>P\<close>, every value returned satisfies \<open>Q\<close>.\<close>

definition yields :: "('w \<Rightarrow> bool) \<Rightarrow> ('w, 'e, 'a) eio \<Rightarrow> ('a \<Rightarrow> bool) \<Rightarrow> bool" where
  "yields P m Q \<longleftrightarrow> (\<forall>w x w'. P w \<longrightarrow> m w = (Inr x, w') \<longrightarrow> Q x)"

lemma keeps_bind_yields:
  assumes "keeps P m" "yields P m Q" "\<And>x. Q x \<Longrightarrow> keeps P (f x)"
  shows "keeps P (bindS m f)"
proof (rule keepsI)
  fix w assume w: "P w"
  show "P (snd (bindS m f w))"
  proof (cases "m w")
    case (Pair r w')
    then have "P w'" using assms(1) w keepsD by metis
    with Pair assms(2,3) w show ?thesis
      by (cases r) (auto simp: bindS_def yields_def intro: keeps_snd)
  qed
qed

lemma yields_map_err: "yields P m Q \<Longrightarrow> yields P (map_err f m) Q"
  unfolding yields_def by (blast elim: map_err_InrE)

end
