(* ===== verification/Paths.thy ===== *)
theory Paths
  imports Prelude
begin

text \<open>
  The part of \<^verbatim>\<open>std::path\<close> (Unix flavour) the program uses. A \<^verbatim>\<open>Path\<close> or \<^verbatim>\<open>PathBuf\<close> is the
  byte string it was built from; comparison, \<open>starts_with\<close> and \<open>strip_prefix\<close> work on
  its component sequence, while \<open>push\<close>, \<open>parent\<close> and the string views keep the bytes.
\<close>

type_synonym path_buf = string

datatype component = RootDir | CurDir | ParentDir | Normal string

text \<open>
  A path is a lead (a root slash, a leading \<^verbatim>\<open>.\<close>, or nothing) and the pieces between the
  separators that follow. Empty pieces and inner \<^verbatim>\<open>.\<close> pieces yield no component.
\<close>

datatype lead = Abs | Dot | Rel

definition parse_path :: "path_buf \<Rightarrow> lead \<times> string list" where
  "parse_path p =
     (case p of
        x # r \<Rightarrow> if x = slash then (Abs, split_char slash r)
                else (case split_char slash p of
                        w # ws \<Rightarrow> if w = ''.'' then (Dot, ws) else (Rel, w # ws)
                      | [] \<Rightarrow> (Rel, []))
      | [] \<Rightarrow> (Rel, [[]]))"

fun render_path :: "lead \<Rightarrow> string list \<Rightarrow> path_buf" where
  "render_path Abs ws = slash # join_char slash ws"
| "render_path Dot [] = ''.''"
| "render_path Dot ws = ''./'' @ join_char slash ws"
| "render_path Rel ws = join_char slash ws"

definition junk :: "string \<Rightarrow> bool" where
  "junk w \<longleftrightarrow> w = [] \<or> w = ''.''"

definition seg_components :: "string \<Rightarrow> component list" where
  "seg_components w =
     (if junk w then [] else if w = ''..'' then [ParentDir] else [Normal w])"

fun lead_components :: "lead \<Rightarrow> component list" where
  "lead_components Abs = [RootDir]"
| "lead_components Dot = [CurDir]"
| "lead_components Rel = []"

definition components :: "path_buf \<Rightarrow> component list" where
  "components p = (case parse_path p of (l, ws) \<Rightarrow> lead_components l @ concat (map seg_components ws))"

definition path_eq :: "path_buf \<Rightarrow> path_buf \<Rightarrow> bool" where
  "path_eq p q \<longleftrightarrow> components p = components q"

definition path_starts_with :: "path_buf \<Rightarrow> path_buf \<Rightarrow> bool" where
  "path_starts_with p q \<longleftrightarrow> prefix (components q) (components p)"

text \<open>\<^verbatim>\<open>PathBuf::push\<close> and \<^verbatim>\<open>Path::join\<close>: an absolute argument replaces the path.\<close>

definition path_join :: "path_buf \<Rightarrow> path_buf \<Rightarrow> path_buf" where
  "path_join p q =
     (if q \<noteq> [] \<and> hd q = slash then q
      else if p = [] \<or> last p = slash then p @ q
      else p @ slash # q)"

definition rtrim :: "string list \<Rightarrow> string list" where
  "rtrim ws = rev (dropWhile junk (rev ws))"

definition path_parent :: "path_buf \<Rightarrow> path_buf option" where
  "path_parent p =
     (case parse_path p of (l, ws) \<Rightarrow>
        let t = rtrim ws in
        if t \<noteq> [] then Some (render_path l (rtrim (butlast t)))
        else if l = Dot then Some [] else None)"

text \<open>\<^verbatim>\<open>PathBuf::pop\<close>: truncate to the parent, or leave the path alone.\<close>

definition path_pop :: "path_buf \<Rightarrow> path_buf" where
  "path_pop p = (case path_parent p of Some q \<Rightarrow> q | None \<Rightarrow> p)"

definition path_file_name :: "path_buf \<Rightarrow> string option" where
  "path_file_name p =
     (case parse_path p of (l, ws) \<Rightarrow>
        let t = rtrim ws in
        if t \<noteq> [] \<and> last t \<noteq> ''..'' then Some (last t) else None)"

text \<open>
  \<^verbatim>\<open>Path::strip_prefix\<close>: when the components of the base start those of the path, the rest of the
  path's own bytes after them, without the separators at either end.
\<close>

fun drop_pieces :: "nat \<Rightarrow> string list \<Rightarrow> string list" where
  "drop_pieces 0 ws = ws"
| "drop_pieces (Suc n) ws = drop_pieces n (tl (dropWhile junk ws))"

definition path_strip_prefix :: "path_buf \<Rightarrow> path_buf \<Rightarrow> path_buf option" where
  "path_strip_prefix p base =
     (if path_starts_with p base then
        (case parse_path p of (l, ws) \<Rightarrow>
           let n = length (components base) in
           if n = 0 then Some (render_path l (rtrim ws))
           else Some (join_char slash
                  (rtrim (dropWhile junk (drop_pieces (n - length (lead_components l)) ws)))))
      else None)"

section \<open>Well-formed names and canonical paths\<close>

definition valid_name :: "string \<Rightarrow> bool" where
  "valid_name w \<longleftrightarrow> w \<noteq> [] \<and> w \<noteq> ''.'' \<and> w \<noteq> ''..'' \<and> slash \<notin> set w"

definition canon_path :: "bool \<Rightarrow> string list \<Rightarrow> path_buf" where
  "canon_path ab ns = render_path (if ab then Abs else Rel) ns"

definition canon_comps :: "bool \<Rightarrow> string list \<Rightarrow> component list" where
  "canon_comps ab ns = (if ab then [RootDir] else []) @ map Normal ns"

lemma parse_path_Nil [simp]: "parse_path [] = (Rel, [[]])"
  by (simp add: parse_path_def)

lemma parse_path_Abs [simp]: "parse_path (slash # r) = (Abs, split_char slash r)"
  by (simp add: parse_path_def)

lemma parse_path_cases:
  obtains (abs) r where "p = slash # r" "parse_path p = (Abs, split_char slash r)"
  | (dot) ws where "split_char slash p = ''.'' # ws" "parse_path p = (Dot, ws)"
  | (rel) "parse_path p = (Rel, split_char slash p)" "hd (split_char slash p) \<noteq> ''.''"
      "p = [] \<or> hd p \<noteq> slash"
proof (cases p)
  case Nil
  then show thesis by (intro rel) simp_all
next
  case (Cons x r)
  show thesis
  proof (cases "x = slash")
    case True
    with Cons show thesis by (intro abs) simp_all
  next
    case False
    obtain w ws where sp: "split_char slash p = w # ws"
      by (cases "split_char slash p") (simp_all add: split_char_ne del: split_char.simps)
    show thesis
    proof (cases "w = ''.''")
      case True
      with sp False Cons show thesis
        by (intro dot[of ws]) (simp_all add: parse_path_def del: split_char.simps)
    next
      case w: False
      with sp False Cons show thesis
        by (intro rel) (simp_all add: parse_path_def del: split_char.simps)
    qed
  qed
qed

lemma parse_path_rel:
  "hd (split_char slash p) \<noteq> ''.'' \<Longrightarrow> p = [] \<or> hd p \<noteq> slash
   \<Longrightarrow> parse_path p = (Rel, split_char slash p)"
  by (cases p rule: parse_path_cases) auto

lemma parse_path_dot:
  "split_char slash p = ''.'' # ws \<Longrightarrow> parse_path p = (Dot, ws)"
  by (cases p rule: parse_path_cases) auto

lemma seg_components_valid [simp]: "valid_name w \<Longrightarrow> seg_components w = [Normal w]"
  by (simp add: seg_components_def valid_name_def junk_def)

lemma junk_valid [simp]: "valid_name w \<Longrightarrow> \<not> junk w"
  by (simp add: valid_name_def junk_def)

lemma concat_seg_valid:
  "\<forall>w\<in>set ws. valid_name w \<Longrightarrow> concat (map seg_components ws) = map Normal ws"
  by (induction ws) auto

lemma seg_components_Normal:
  "slash \<notin> set w \<Longrightarrow> Normal n \<in> set (seg_components w) \<Longrightarrow> valid_name n"
  by (auto simp: seg_components_def valid_name_def junk_def split: if_splits)

lemma split_hd_slash: "w # ws = split_char slash p \<Longrightarrow> slash \<notin> set w \<and> (\<forall>v\<in>set ws. slash \<notin> set v)"
  by (metis list.set_intros split_char_no_sep)

lemma parse_path_no_slash: "parse_path p = (l, ws) \<Longrightarrow> w \<in> set ws \<Longrightarrow> slash \<notin> set w"
proof -
  assume a: "parse_path p = (l, ws)" "w \<in> set ws"
  have "\<exists>s. w \<in> set (split_char slash s)"
    using a by (cases p rule: parse_path_cases) (metis list.set_intros(2) prod.inject)+
  then show ?thesis using split_char_no_sep by blast
qed

text \<open>Every named component of a path is a proper file name.\<close>

lemma components_Normal_valid: "Normal n \<in> set (components p) \<Longrightarrow> valid_name n"
proof -
  assume a: "Normal n \<in> set (components p)"
  obtain l ws where pp: "parse_path p = (l, ws)" by fastforce
  with a obtain w where w: "w \<in> set ws" "Normal n \<in> set (seg_components w)"
    by (cases l) (auto simp: components_def)
  then show ?thesis
    using parse_path_no_slash[OF pp] seg_components_Normal by blast
qed

lemma RootDir_only_first:
  "components p = a # cs \<Longrightarrow> RootDir \<notin> set cs \<and> CurDir \<notin> set cs"
proof -
  assume a: "components p = a # cs"
  obtain l ws where pp: "parse_path p = (l, ws)" by fastforce
  have body: "RootDir \<notin> set (concat (map seg_components ws)) \<and> CurDir \<notin> set (concat (map seg_components ws))"
    by (auto simp: seg_components_def split: if_splits)
  show ?thesis
  proof (cases l)
    case Rel
    then have "set cs \<subseteq> set (concat (map seg_components ws))"
      using a pp by (auto simp: components_def)
    then show ?thesis using body by blast
  qed (use a pp body in \<open>auto simp: components_def\<close>)
qed

lemma components_abs: "components (slash # r) = RootDir # concat (map seg_components (split_char slash r))"
  by (simp add: components_def)

lemma components_hd_Root: "p \<noteq> [] \<Longrightarrow> hd p = slash \<Longrightarrow> \<exists>cs. components p = RootDir # cs"
  by (cases p) (auto simp: components_abs)

lemma join_char_hd:
  "ws \<noteq> [] \<Longrightarrow> hd ws \<noteq> [] \<Longrightarrow> hd (join_char c ws) = hd (hd ws)"
  by (cases ws rule: list.exhaust; cases "tl ws") (auto simp: hd_append)

lemma join_char_ne: "ws \<noteq> [] \<Longrightarrow> hd ws \<noteq> [] \<Longrightarrow> join_char c ws \<noteq> []"
  by (cases ws rule: list.exhaust; cases "tl ws") auto

lemma parse_canon:
  assumes "\<forall>w\<in>set ns. valid_name w"
  shows "parse_path (canon_path ab ns)
         = (if ab then (Abs, if ns = [] then [[]] else ns) else (Rel, if ns = [] then [[]] else ns))"
proof (cases ns)
  case Nil
  then show ?thesis by (cases ab) (simp_all add: canon_path_def)
next
  case (Cons n ms)
  have sp: "split_char slash (join_char slash ns) = ns"
    using assms Cons by (intro split_join_char) (auto simp: valid_name_def)
  show ?thesis
  proof (cases ab)
    case True
    then show ?thesis using sp Cons by (simp add: canon_path_def)
  next
    case False
    have n: "n \<noteq> []" "n \<noteq> ''.''" "slash \<notin> set n"
      using assms Cons by (auto simp: valid_name_def)
    have "join_char slash ns \<noteq> []" "hd (join_char slash ns) = hd n"
      using Cons n(1) join_char_ne[of ns] join_char_hd[of ns] by auto
    moreover have "hd n \<noteq> slash" using n by (cases n) auto
    ultimately show ?thesis
      using False sp Cons n
      by (cases "join_char slash ns" rule: parse_path_cases) (auto simp: canon_path_def)
  qed
qed

lemma components_canon:
  "\<forall>w\<in>set ns. valid_name w \<Longrightarrow> components (canon_path ab ns) = canon_comps ab ns"
proof (cases "ns = []")
  case True
  then show ?thesis
    by (simp add: components_def parse_canon canon_comps_def seg_components_def junk_def)
next
  case False
  assume "\<forall>w\<in>set ns. valid_name w"
  with False show ?thesis
    by (simp only: components_def parse_canon canon_comps_def concat_seg_valid)
      (simp add: concat_seg_valid)
qed

lemma join_char_snoc: "ws \<noteq> [] \<Longrightarrow> join_char c (ws @ [w]) = join_char c ws @ c # w"
  by (induction c ws rule: join_char.induct) auto

lemma join_char_last:
  assumes "ns \<noteq> []" "\<forall>w\<in>set ns. valid_name w"
  shows "join_char slash ns \<noteq> []" and "last (join_char slash ns) \<noteq> slash"
proof -
  obtain ms n where ns: "ns = ms @ [n]"
    using assms(1) by (cases ns rule: rev_cases) auto
  then have n: "n \<noteq> []" "slash \<notin> set n"
    using assms(2) by (simp_all add: valid_name_def)
  then have "last n \<noteq> slash" using last_in_set by metis
  with n(1) have "join_char slash ns \<noteq> [] \<and> last (join_char slash ns) \<noteq> slash"
    by (cases "ms = []") (simp_all add: ns join_char_snoc)
  then show "join_char slash ns \<noteq> []" and "last (join_char slash ns) \<noteq> slash"
    by simp_all
qed

lemma push_canon:
  assumes "\<forall>w\<in>set ns. valid_name w" "valid_name n"
  shows "path_join (canon_path ab ns) n = canon_path ab (ns @ [n])"
proof -
  have n: "n \<noteq> []" "hd n \<noteq> slash"
    using assms(2) by (auto simp: valid_name_def) (metis list.set_sel(1))
  show ?thesis
    using n join_char_last[OF _ assms(1)]
    by (cases "ns = []") (auto simp: path_join_def canon_path_def join_char_snoc)
qed

lemma rtrim_valid: "\<forall>w\<in>set ns. valid_name w \<Longrightarrow> rtrim ns = ns"
  by (cases ns rule: rev_cases) (auto simp: rtrim_def)

lemma parent_canon:
  assumes "\<forall>w\<in>set ns. valid_name w"
  shows "path_parent (canon_path ab ns)
         = (if ns = [] then None else Some (canon_path ab (butlast ns)))"
proof (cases "ns = []")
  case True
  then show ?thesis by (simp add: path_parent_def parse_canon rtrim_def junk_def)
next
  case False
  have "\<forall>w\<in>set (butlast ns). valid_name w"
    using assms by (auto dest: in_set_butlastD)
  moreover have "rtrim ns = ns" by (rule rtrim_valid[OF assms])
  ultimately show ?thesis
    using False
    by (cases ab) (simp_all add: path_parent_def parse_canon[OF assms] rtrim_valid,
        simp_all add: canon_path_def)
qed

lemma pop_canon:
  "\<forall>w\<in>set ns. valid_name w \<Longrightarrow> path_pop (canon_path ab ns) = canon_path ab (butlast ns)"
  by (cases "ns = []") (auto simp: path_pop_def parent_canon)

lemma canon_root: "canon_path True [] = [slash]" and canon_empty: "canon_path False [] = []"
  by (simp_all add: canon_path_def)

lemma join_root: "path_join p [slash] = [slash]"
  by (simp add: path_join_def)

lemma components_empty_iff:
  "components p = [] \<longleftrightarrow> (case parse_path p of (l, ws) \<Rightarrow> l = Rel \<and> (\<forall>w\<in>set ws. junk w))"
proof -
  obtain l ws where pp: "parse_path p = (l, ws)" by fastforce
  have "concat (map seg_components ws) = [] \<longleftrightarrow> (\<forall>w\<in>set ws. junk w)"
    by (induction ws) (auto simp: seg_components_def)
  then show ?thesis by (cases l) (simp_all add: components_def pp)
qed

text \<open>Joining a relative path appends its components.\<close>

lemma concat_seg_append:
  "concat (map seg_components (split_char slash (s @ slash # t)))
   = concat (map seg_components (split_char slash s)) @ concat (map seg_components (split_char slash t))"
  by (simp add: split_char_app)


lemma components_append_slash:
  assumes "t \<noteq> []"
  shows "components (t @ slash # q) = components t @ concat (map seg_components (split_char slash q))"
proof (cases t rule: parse_path_cases)
  case (abs r)
  then show ?thesis by (simp add: components_def split_char_app)
next
  case (dot ws)
  have "split_char slash (t @ slash # q) = ''.'' # (ws @ split_char slash q)"
    using dot by (simp add: split_char_app)
  then have "parse_path (t @ slash # q) = (Dot, ws @ split_char slash q)"
    by (rule parse_path_dot)
  with dot show ?thesis by (simp add: components_def)
next
  case rel
  have sp: "split_char slash (t @ slash # q) = split_char slash t @ split_char slash q"
    by (simp add: split_char_app)
  then have "hd (split_char slash (t @ slash # q)) \<noteq> ''.''"
    using rel by (simp add: hd_append)
  moreover have "hd t \<noteq> slash" using rel assms by auto
  ultimately have "parse_path (t @ slash # q) = (Rel, split_char slash t @ split_char slash q)"
    using assms sp by (subst parse_path_rel) simp_all
  with rel show ?thesis by (simp add: components_def)
qed

definition is_relative :: "path_buf \<Rightarrow> bool" where
  "is_relative q \<longleftrightarrow> fst (parse_path q) = Rel"

lemma components_relative:
  "is_relative q \<Longrightarrow> components q = concat (map seg_components (split_char slash q))"
  by (cases q rule: parse_path_cases) (auto simp: is_relative_def components_def seg_components_def junk_def)

lemma is_relative_hd: "is_relative q \<Longrightarrow> q \<noteq> [] \<Longrightarrow> hd q \<noteq> slash"
  by (cases q) (auto simp: is_relative_def)

lemma components_join_pieces:
  assumes "p \<noteq> []" "q \<noteq> [] \<Longrightarrow> hd q \<noteq> slash"
  shows "components (path_join p q) = components p @ concat (map seg_components (split_char slash q))"
proof (cases "last p = slash")
  case True
  then obtain t where t: "p = t @ [slash]"
    using assms(1) by (metis append_butlast_last_id)
  have j: "path_join p q = t @ slash # q"
    using assms True t by (auto simp: path_join_def)
  show ?thesis
  proof (cases "t = []")
    case True
    then show ?thesis
      using j t by (simp add: components_abs seg_components_def junk_def)
  next
    case False
    then show ?thesis
      using j t components_append_slash[OF False, of q] components_append_slash[OF False, of "[]"]
      by (simp add: seg_components_def junk_def)
  qed
next
  case False
  then have "path_join p q = p @ slash # q"
    using assms by (auto simp: path_join_def)
  then show ?thesis
    using components_append_slash[OF assms(1), of q] by simp
qed

lemma components_join:
  "p \<noteq> [] \<Longrightarrow> is_relative q \<Longrightarrow> components (path_join p q) = components p @ components q"
  by (simp add: components_join_pieces is_relative_hd components_relative)

text \<open>Absolute paths without \<^verbatim>\<open>..\<close>.\<close>

definition clean_abs :: "path_buf \<Rightarrow> bool" where
  "clean_abs p \<longleftrightarrow> (\<exists>ns. components p = RootDir # map Normal ns)"

definition no_up :: "string \<Rightarrow> bool" where
  "no_up s \<longleftrightarrow> ''..'' \<notin> set (split_char slash s)"

lemma seg_no_up: "''..'' \<notin> set ws \<Longrightarrow> \<exists>ns. concat (map seg_components ws) = map Normal ns"
proof (induction ws)
  case (Cons w ws)
  then obtain ns where "concat (map seg_components ws) = map Normal ns" by auto
  moreover have "seg_components w = map Normal (if junk w then [] else [w])"
    using Cons.prems by (auto simp: seg_components_def)
  ultimately have "concat (map seg_components (w # ws)) = map Normal ((if junk w then [] else [w]) @ ns)"
    by simp
  then show ?case by blast
qed simp

lemma clean_abs_ne: "clean_abs p \<Longrightarrow> p \<noteq> [] \<and> components p \<noteq> []"
  by (auto simp: clean_abs_def components_def seg_components_def junk_def)

lemma clean_abs_root: "no_up s \<Longrightarrow> clean_abs (slash # s)"
  using seg_no_up by (auto simp: clean_abs_def no_up_def components_abs)

lemma clean_abs_join:
  assumes "clean_abs p" "no_up q" "q \<noteq> [] \<Longrightarrow> hd q \<noteq> slash"
  shows "clean_abs (path_join p q)"
proof -
  obtain ns where "components p = RootDir # map Normal ns"
    using assms(1) by (auto simp: clean_abs_def)
  moreover obtain ms where "concat (map seg_components (split_char slash q)) = map Normal ms"
    using assms(2) seg_no_up unfolding no_up_def by blast
  ultimately have "components (path_join p q) = RootDir # map Normal (ns @ ms)"
    using components_join_pieces[of p q] clean_abs_ne[OF assms(1)] assms(3) by simp
  then show ?thesis unfolding clean_abs_def by blast
qed

lemma no_up_slash: "no_up (slash # s) \<longleftrightarrow> no_up s"
  by (simp add: no_up_def)

lemma no_up_trim_start: "no_up s \<Longrightarrow> no_up (trim_start_matches slash s)"
  by (induction s) (auto simp: trim_start_matches_def no_up_slash)

lemma trim_end_decomp: "\<exists>k. s = trim_end_matches c s @ replicate k c"
proof -
  let ?w = "takeWhile (\<lambda>x. x = c) (rev s)"
  have "?w = replicate (length ?w) c"
    by (metis (mono_tags, lifting) replicate_eqI set_takeWhileD)
  then have "rev ?w = replicate (length ?w) c"
    by (metis rev_replicate)
  moreover have "s = trim_end_matches c s @ rev ?w"
    unfolding trim_end_matches_def by (metis rev_append rev_rev_ident takeWhile_dropWhile_id)
  ultimately show ?thesis by metis
qed

lemma no_up_trim_end: "no_up s \<Longrightarrow> no_up (trim_end_matches slash s)"
proof -
  assume s: "no_up s"
  obtain k where k: "s = trim_end_matches slash s @ replicate k slash"
    using trim_end_decomp by blast
  show ?thesis
  proof (cases k)
    case 0
    with s k show ?thesis by simp
  next
    case (Suc j)
    with k have "s = trim_end_matches slash s @ slash # replicate j slash" by simp
    with s show ?thesis by (metis UnCI no_up_def set_append split_char_app)
  qed
qed

lemma valid_name_relative: "valid_name n \<Longrightarrow> is_relative n \<and> components n = [Normal n]"
  using parse_path_rel[of n] split_char_single[of slash n]
  by (cases n) (auto simp: valid_name_def is_relative_def components_def seg_components_def junk_def)

lemma components_join_name:
  "p \<noteq> [] \<Longrightarrow> valid_name n \<Longrightarrow> components (path_join p n) = components p @ [Normal n]"
  using components_join valid_name_relative by metis

text \<open>Stripping a base removes exactly its components.\<close>

lemma seg_dropWhile: "concat (map seg_components (dropWhile junk ws)) = concat (map seg_components ws)"
  by (induction ws) (auto simp: seg_components_def)

lemma seg_rtrim: "concat (map seg_components (rtrim ws)) = concat (map seg_components ws)"
  by (induction ws rule: rev_induct) (auto simp: rtrim_def seg_components_def)

lemma seg_drop_pieces:
  "concat (map seg_components (drop_pieces n ws)) = drop n (concat (map seg_components ws))"
proof (induction n ws rule: drop_pieces.induct)
  case (1 ws)
  then show ?case by simp
next
  case (2 n ws)
  have "concat (map seg_components (tl (dropWhile junk ws))) = drop 1 (concat (map seg_components ws))"
  proof (cases "dropWhile junk ws")
    case Nil
    have "concat (map seg_components ws) = []" using seg_dropWhile[of ws] Nil by (simp only: list.map concat.simps)
    with Nil show ?thesis by (simp only: list.map list.sel concat.simps drop_Nil)
  next
    case (Cons w us)
    then have "\<not> junk w" by (simp add: dropWhile_eq_Cons_conv)
    then have "length (seg_components w) = 1" by (simp add: seg_components_def)
    then show ?thesis using seg_dropWhile[of ws, symmetric] Cons by simp
  qed
  with 2 show ?case by simp
qed

lemma drop_pieces_sub: "set (drop_pieces n ws) \<subseteq> set ws"
proof (induction n ws rule: drop_pieces.induct)
  case (2 n ws)
  have "set (tl (dropWhile junk ws)) \<subseteq> set ws"
    using set_dropWhileD[of _ junk ws] set_mono_suffix[OF suffix_tl, of "dropWhile junk ws"] by blast
  with 2 show ?case by auto
qed simp

lemma rtrim_sub: "set (rtrim ws) \<subseteq> set ws"
  by (auto simp: rtrim_def dest: set_dropWhileD)

lemma hd_rtrim: "ws \<noteq> [] \<Longrightarrow> \<not> junk (hd ws) \<Longrightarrow> rtrim ws \<noteq> [] \<and> hd (rtrim ws) = hd ws"
proof (induction ws rule: rev_induct)
  case (snoc w ws)
  then show ?case by (cases "ws = []") (auto simp: rtrim_def hd_append)
qed simp

lemma relative_join_char:
  assumes "\<forall>w\<in>set ws. slash \<notin> set w" "ws \<noteq> [] \<Longrightarrow> \<not> junk (hd ws)"
  shows "is_relative (join_char slash ws)"
    and "components (join_char slash ws) = concat (map seg_components ws)"
proof -
  show rel: "is_relative (join_char slash ws)"
  proof (cases "ws = []")
    case True
    then show ?thesis by (simp add: is_relative_def)
  next
    case False
    have sp: "split_char slash (join_char slash ws) = ws"
      by (rule split_join_char[OF False assms(1)])
    have nj: "hd ws \<noteq> []" "hd ws \<noteq> ''.''" using assms(2)[OF False] by (simp_all add: junk_def)
    have ne: "join_char slash ws \<noteq> []" by (rule join_char_ne[OF False nj(1)])
    have "hd (join_char slash ws) \<noteq> slash"
      using False nj(1) assms(1) by (metis hd_in_set join_char_hd list.set_sel(1))
    then show ?thesis
      using parse_path_rel[of "join_char slash ws"] ne sp nj(2) by (simp add: is_relative_def)
  qed
  show "components (join_char slash ws) = concat (map seg_components ws)"
    using components_relative[OF rel] split_join_char[OF _ assms(1)]
    by (cases "ws = []") (simp_all add: seg_components_def junk_def)
qed

lemma strip_prefix_components:
  assumes "path_strip_prefix p b = Some r" "components b \<noteq> []"
  shows "is_relative r" and "components p = components b @ components r"
proof -
  obtain l ws where pp: "parse_path p = (l, ws)" by fastforce
  let ?n = "length (components b)" and ?k = "length (lead_components l)"
  let ?us = "rtrim (dropWhile junk (drop_pieces (?n - ?k) ws))"
  have pre: "prefix (components b) (components p)" and r: "r = join_char slash ?us"
    using assms pp by (auto simp: path_strip_prefix_def path_starts_with_def split: if_splits)
  have "\<forall>w\<in>set ws. slash \<notin> set w" using parse_path_no_slash[OF pp] by blast
  then have "\<forall>w\<in>set ?us. slash \<notin> set w"
    using rtrim_sub drop_pieces_sub set_dropWhileD by (metis subsetD)
  moreover have "?us \<noteq> [] \<Longrightarrow> \<not> junk (hd ?us)"
    using hd_rtrim[of "dropWhile junk (drop_pieces (?n - ?k) ws)"]
    by (metis dropWhile_eq_Nil_conv hd_dropWhile rtrim_def rev.simps(1) dropWhile.simps(1))
  ultimately have j: "is_relative r" "components r = concat (map seg_components ?us)"
    using relative_join_char[of ?us] r by blast+
  then show "is_relative r" by blast
  have "?k \<le> ?n" using assms(2) by (cases l) (auto simp: Suc_le_eq)
  then have "components r = drop ?n (components p)"
    using j pp by (simp add: seg_rtrim seg_dropWhile seg_drop_pieces components_def)
  with pre show "components p = components b @ components r"
    by (metis append_eq_conv_conj prefix_def)
qed

end
