(* ===== verification/Allow_List.thy ===== *)
theory Allow_List
  imports Paths
begin

text \<open>
  Path-based access control of the build filesystem proxy
  (\<^verbatim>\<open>snix-redox/src/build_proxy/allow_list.rs\<close>): the allow-list, its prefix check with logical
  resolution of \<^verbatim>\<open>..\<close>, and its construction from a derivation. A \<^verbatim>\<open>HashSet<PathBuf>\<close> is the list of
  its elements in some iteration order. The derivation and the table of known derivations
  come from external crates: their fields are plain data here, and the rendering of a store
  path (\<open>to_abs\<close>) and the lookup by derivation path (\<open>known\<close>) are arguments.
\<close>

section \<open>The allow-list and its check\<close>

datatype permission = Denied | ReadOnly | ReadWrite

record allow_list =
  read_only :: "path_buf list"
  read_write :: "path_buf list"

definition new_allow_list :: allow_list where
  "new_allow_list = \<lparr>read_only = [], read_write = []\<rparr>"

definition hs_insert :: "path_buf \<Rightarrow> path_buf list \<Rightarrow> path_buf list" where
  "hs_insert p ps = (if list_ex (path_eq p) ps then ps else ps @ [p])"

definition clean_step :: "path_buf \<Rightarrow> component \<Rightarrow> path_buf" where
  "clean_step result c =
     (case c of
        ParentDir \<Rightarrow> path_pop result
      | CurDir \<Rightarrow> result
      | RootDir \<Rightarrow> path_join result [slash]
      | Normal n \<Rightarrow> path_join result n)"

definition clean_path :: "path_buf \<Rightarrow> path_buf" where
  "clean_path path = foldl clean_step [] (components path)"

definition path_matches_prefix :: "path_buf \<Rightarrow> path_buf \<Rightarrow> bool" where
  "path_matches_prefix path pre =
     (let clean = clean_path path
      in if path_eq clean pre then True else path_starts_with clean pre)"

definition check :: "allow_list \<Rightarrow> path_buf \<Rightarrow> permission" where
  "check al path =
     (if list_ex (path_matches_prefix path) (read_write al) then ReadWrite
      else if list_ex (path_matches_prefix path) (read_only al) then ReadOnly
      else Denied)"

definition can_read :: "allow_list \<Rightarrow> path_buf \<Rightarrow> bool" where
  "can_read al path \<longleftrightarrow> check al path \<noteq> Denied"

definition can_write :: "allow_list \<Rightarrow> path_buf \<Rightarrow> bool" where
  "can_write al path \<longleftrightarrow> check al path = ReadWrite"

definition all_prefixes :: "allow_list \<Rightarrow> path_buf list" where
  "all_prefixes al = read_only al @ read_write al"

definition normalize_path :: "string \<Rightarrow> path_buf" where
  "normalize_path path =
     (let trimmed = trim_end_matches slash path
      in if trimmed = [] then [slash] else trimmed)"

section \<open>Construction from a derivation\<close>

record 'sp drv_output =
  output_path :: "'sp option"

record 'sp derivation =
  builder :: string
  arguments :: "string list"
  environment :: "(string \<times> string) list"
  input_sources :: "'sp list"
  input_derivations :: "('sp \<times> string list) list"
  outputs :: "(string \<times> 'sp drv_output) list"

definition SYSTEM_READ_ONLY_PATHS :: "string list" where
  "SYSTEM_READ_ONLY_PATHS =
     [''/nix/system/profile'', ''/nix/store'', ''/usr/lib'', ''/usr/src'', ''/lib'', ''/etc'',
      ''/bin'', ''/usr/bin'']"

definition insert_ro :: "string \<Rightarrow> allow_list \<Rightarrow> allow_list" where
  "insert_ro p al = al\<lparr>read_only := hs_insert (normalize_path p) (read_only al)\<rparr>"

definition insert_rw :: "string \<Rightarrow> allow_list \<Rightarrow> allow_list" where
  "insert_rw p al = al\<lparr>read_write := hs_insert (normalize_path p) (read_write al)\<rparr>"

text \<open>\<^verbatim>\<open>str::split_whitespace\<close> on the ASCII white space bytes.\<close>

definition is_space :: "char \<Rightarrow> bool" where
  "is_space c \<longleftrightarrow> byte_of c \<in> {9, 10, 11, 12, 13, 32}"

fun split_whitespace_aux :: "string \<Rightarrow> string \<Rightarrow> string list" where
  "split_whitespace_aux w [] = (if w = [] then [] else [w])"
| "split_whitespace_aux w (x # xs) =
     (if is_space x then (if w = [] then [] else [w]) @ split_whitespace_aux [] xs
      else split_whitespace_aux (w @ [x]) xs)"

definition arg_quote :: "char \<Rightarrow> bool" where
  "arg_quote c \<longleftrightarrow>
     c = CHR 0x27 \<or> c = CHR 0x22 \<or> c \<in> set '';()[]{},''"

definition trim_pred :: "(char \<Rightarrow> bool) \<Rightarrow> string \<Rightarrow> string" where
  "trim_pred f s = rev (dropWhile f (rev (dropWhile f s)))"

definition add_arg_token :: "string \<Rightarrow> allow_list \<Rightarrow> allow_list" where
  "add_arg_token token al =
     (let trimmed = trim_pred arg_quote token in
      if \<not> starts_with trimmed ''/'' then al
      else
        let al1 = insert_ro trimmed al in
        if starts_with trimmed ''/usr/src/'' then
          (let looks_like_file =
             (case path_file_name trimmed of Some name \<Rightarrow> CHR ''.'' \<in> set name | None \<Rightarrow> False)
           in if looks_like_file then
                (case path_parent trimmed of Some parent \<Rightarrow> insert_ro parent al1 | None \<Rightarrow> al1)
              else al1)
        else al1)"

definition add_arg_paths :: "allow_list \<Rightarrow> string \<Rightarrow> allow_list" where
  "add_arg_paths al arg = fold add_arg_token (split_whitespace_aux [] arg) al"

definition add_env_path :: "string \<times> string \<Rightarrow> allow_list \<Rightarrow> allow_list" where
  "add_env_path kv al =
     (case kv of (key, val) \<Rightarrow>
        if key = ''out'' then al
        else if utf8_valid val then
          (if starts_with val ''/'' \<and> CHR '' '' \<notin> set val then insert_ro val al else al)
        else al)"

definition add_drv_output ::
  "('sp \<Rightarrow> string) \<Rightarrow> 'sp derivation \<Rightarrow> string \<Rightarrow> allow_list \<Rightarrow> allow_list" where
  "add_drv_output to_abs input_drv output_name al =
     (case map_of (outputs input_drv) output_name of
        Some out \<Rightarrow> (case output_path out of Some sp \<Rightarrow> insert_ro (to_abs sp) al | None \<Rightarrow> al)
      | None \<Rightarrow> al)"

definition add_input_drv ::
  "('sp \<Rightarrow> string) \<Rightarrow> ('sp \<Rightarrow> 'sp derivation option) \<Rightarrow> 'sp \<times> string list
   \<Rightarrow> allow_list \<Rightarrow> allow_list" where
  "add_input_drv to_abs known e al =
     (case e of (input_drv_path, output_names) \<Rightarrow>
        (case known input_drv_path of
           Some input_drv \<Rightarrow> fold (add_drv_output to_abs input_drv) output_names al
         | None \<Rightarrow> al))"

definition RW_FIXED_PATHS :: "string list" where
  "RW_FIXED_PATHS =
     [''/tmp/.cc-wrapper-raw-args'', ''/tmp/.cc-wrapper-stderr'', ''/tmp/.cc-wrapper-shared-cmd'',
      ''/tmp/.cc-wrapper-last-err'', ''/dev/null'', ''/dev/zero'', ''/dev/tty'']"

definition build_allow_list ::
  "('sp \<Rightarrow> string) \<Rightarrow> 'sp derivation \<Rightarrow> ('sp \<Rightarrow> 'sp derivation option)
   \<Rightarrow> string \<Rightarrow> string \<Rightarrow> allow_list" where
  "build_allow_list to_abs drv known output_dir tmp_dir =
     (let l0 = insert_rw tmp_dir (insert_rw output_dir new_allow_list);
          l1 = fold insert_rw RW_FIXED_PATHS l0;
          l2 = fold insert_ro [''/dev/urandom'', ''/dev/random''] l1;
          l3 = fold insert_ro SYSTEM_READ_ONLY_PATHS l2;
          l4 = (if builder drv = [] then l3 else insert_ro (builder drv) l3);
          l5 = foldl add_arg_paths l4 (arguments drv);
          l6 = fold add_env_path (environment drv) l5;
          l7 = fold (\<lambda>src. insert_ro (to_abs src)) (input_sources drv) l6
      in fold (add_input_drv to_abs known) (input_derivations drv) l7)"

section \<open>Logical resolution of a path\<close>

text \<open>The reference: a stack of names, with a flag for the root.\<close>

definition resolve_step :: "bool \<times> string list \<Rightarrow> component \<Rightarrow> bool \<times> string list" where
  "resolve_step st c =
     (case c of
        RootDir \<Rightarrow> (True, [])
      | CurDir \<Rightarrow> st
      | ParentDir \<Rightarrow> (fst st, butlast (snd st))
      | Normal n \<Rightarrow> (fst st, snd st @ [n]))"

definition resolved :: "path_buf \<Rightarrow> bool \<times> string list" where
  "resolved p = foldl resolve_step (False, []) (components p)"

lemma resolve_step_valid:
  assumes "\<forall>w\<in>set (snd st). valid_name w" "\<forall>n. c = Normal n \<longrightarrow> valid_name n"
  shows "(\<forall>w\<in>set (snd (resolve_step st c)). valid_name w)
    \<and> clean_step (canon_path (fst st) (snd st)) c
        = canon_path (fst (resolve_step st c)) (snd (resolve_step st c))"
  using assms
  by (cases c) (auto simp: resolve_step_def clean_step_def pop_canon push_canon join_root canon_root
      dest: in_set_butlastD)

lemma foldl_clean_canon:
  assumes "\<forall>w\<in>set (snd st). valid_name w" "\<forall>n. Normal n \<in> set cs \<longrightarrow> valid_name n"
  shows "(\<forall>w\<in>set (snd (foldl resolve_step st cs)). valid_name w)
    \<and> foldl clean_step (canon_path (fst st) (snd st)) cs
        = canon_path (fst (foldl resolve_step st cs)) (snd (foldl resolve_step st cs))"
  using assms
proof (induction cs arbitrary: st)
  case Nil
  then show ?case by simp
next
  case (Cons c cs)
  from Cons.prems have "\<forall>n. c = Normal n \<longrightarrow> valid_name n" by auto
  from resolve_step_valid[OF Cons.prems(1) this] Cons.IH[of "resolve_step st c"] Cons.prems(2)
  show ?case by simp
qed

lemma resolved_valid: "\<forall>w\<in>set (snd (resolved p)). valid_name w"
  and clean_path_canon: "clean_path p = canon_path (fst (resolved p)) (snd (resolved p))"
proof -
  have n: "\<forall>n. Normal n \<in> set (components p) \<longrightarrow> valid_name n"
    using components_Normal_valid by blast
  have e: "canon_path (fst (False, [])) (snd (False, [])) = []"
    by (simp add: canon_path_def)
  show "\<forall>w\<in>set (snd (resolved p)). valid_name w"
    using foldl_clean_canon[OF _ n, of "(False, [])"] by (simp add: resolved_def)
  show "clean_path p = canon_path (fst (resolved p)) (snd (resolved p))"
    using foldl_clean_canon[OF _ n, of "(False, [])"] e by (simp add: resolved_def clean_path_def)
qed

lemma components_clean_path:
  "components (clean_path p) = canon_comps (fst (resolved p)) (snd (resolved p))"
  by (simp add: clean_path_canon components_canon resolved_valid)

lemma foldl_resolve_Normal:
  "foldl resolve_step (ab, ns) (map Normal ms) = (ab, ns @ ms)"
  by (induction ms arbitrary: ns) (auto simp: resolve_step_def)

lemma resolved_canon:
  assumes "\<forall>w\<in>set ns. valid_name w"
  shows "resolved (canon_path ab ns) = (ab, ns)"
proof -
  have "resolved (canon_path ab ns) = foldl resolve_step (False, []) (canon_comps ab ns)"
    by (simp add: resolved_def components_canon[OF assms])
  also have "\<dots> = (ab, ns)"
    by (cases ab) (simp_all add: canon_comps_def foldl_resolve_Normal resolve_step_def)
  finally show ?thesis .
qed

lemma clean_path_idem: "clean_path (clean_path p) = clean_path p"
proof -
  have "resolved (clean_path p) = resolved p"
    unfolding clean_path_canon[of p] by (simp add: resolved_canon resolved_valid)
  then show ?thesis by (simp add: clean_path_canon)
qed

section \<open>The check against the reference\<close>

lemma path_matches_prefix_iff:
  "path_matches_prefix p e \<longleftrightarrow> prefix (components e) (components (clean_path p))"
  by (auto simp: path_matches_prefix_def path_eq_def path_starts_with_def Let_def)

text \<open>A path \<open>p\<close> lies at or below the entry \<open>e\<close> once \<^verbatim>\<open>.\<close> and \<^verbatim>\<open>..\<close> are resolved.\<close>

definition below :: "path_buf \<Rightarrow> path_buf \<Rightarrow> bool" where
  "below p e \<longleftrightarrow> prefix (components e) (components (clean_path p))"

lemma check_below:
  "check al p =
     (if \<exists>e\<in>set (read_write al). below p e then ReadWrite
      else if \<exists>e\<in>set (read_only al). below p e then ReadOnly else Denied)"
  by (auto simp: check_def list_ex_iff path_matches_prefix_iff below_def)

lemma can_read_iff: "can_read al p \<longleftrightarrow> (\<exists>e\<in>set (all_prefixes al). below p e)"
  by (auto simp: can_read_def check_below all_prefixes_def split: if_splits)

lemma can_write_iff: "can_write al p \<longleftrightarrow> (\<exists>e\<in>set (read_write al). below p e)"
  by (auto simp: can_write_def check_below split: if_splits)

lemma below_names:
  assumes "below p e" "components e \<noteq> []"
  shows "\<exists>ns. components (clean_path p) = components e @ map Normal ns \<and> (\<forall>n\<in>set ns. valid_name n)"
proof -
  obtain rest where r: "components (clean_path p) = components e @ rest"
    using assms(1) by (auto simp: below_def prefix_def)
  obtain c cs where e: "components e = c # cs"
    using assms(2) by (cases "components e") auto
  have cc: "components (clean_path p) = canon_comps (fst (resolved p)) (snd (resolved p))"
    by (rule components_clean_path)
  define tlc where "tlc = tl (components (clean_path p))"
  have "set rest \<subseteq> set tlc"
    using r e by (auto simp: tlc_def)
  moreover have "set tlc \<subseteq> Normal ` set (snd (resolved p))"
    unfolding tlc_def cc by (cases "snd (resolved p)") (auto simp: canon_comps_def)
  ultimately have sub: "\<forall>x\<in>set rest. \<exists>n. x = Normal n \<and> valid_name n"
    using resolved_valid by fastforce
  define ns where "ns = map (\<lambda>x. case x of Normal n \<Rightarrow> n | _ \<Rightarrow> []) rest"
  have "rest = map Normal ns" and "\<forall>n\<in>set ns. valid_name n"
    using sub unfolding ns_def by (auto simp: map_idI[symmetric] comp_def intro!: map_idI[symmetric])
  with r show ?thesis by blast
qed

lemma below_clean: "below (clean_path p) e \<longleftrightarrow> below p e"
  by (simp add: below_def clean_path_idem)

lemma check_clean: "check al (clean_path p) = check al p"
  by (simp add: check_below below_clean)

section \<open>Stored entries\<close>

lemma components_snoc_slash: "t \<noteq> [] \<Longrightarrow> components (t @ [slash]) = components t"
  using components_append_slash[of t "[]"] by (simp add: seg_components_def junk_def)

lemma components_slashes: "t \<noteq> [] \<Longrightarrow> components (t @ replicate k slash) = components t"
proof (induction k arbitrary: t)
  case 0
  then show ?case by simp
next
  case (Suc k)
  have "t @ replicate (Suc k) slash = (t @ [slash]) @ replicate k slash" by simp
  then show ?case
    using Suc.IH[of "t @ [slash]"] components_snoc_slash[OF Suc.prems] by (metis snoc_eq_iff_butlast)
qed

lemma components_normalize:
  assumes "p \<noteq> []"
  shows "components (normalize_path p) = components p"
proof -
  obtain k where k: "p = trim_end_matches slash p @ replicate k slash"
    using trim_end_decomp by metis
  show ?thesis
  proof (cases "trim_end_matches slash p = []")
    case True
    with k assms obtain j where "p = [slash] @ replicate j slash"
      by (cases k) auto
    then have "components p = components [slash]"
      using components_slashes[of "[slash]" j] by simp
    with True show ?thesis by (simp add: normalize_path_def)
  next
    case False
    then show ?thesis
      using k components_slashes[OF False, of k] by (simp add: normalize_path_def)
  qed
qed

lemma normalize_nonempty: "components (normalize_path p) \<noteq> []"
proof (cases "trim_end_matches slash p")
  case Nil
  then show ?thesis by (simp add: normalize_path_def components_abs)
next
  case (Cons x r)
  have l: "last (x # r) \<noteq> slash"
    using trim_end_last[of slash p] Cons by simp
  have "components (x # r) \<noteq> []"
  proof (cases "x # r" rule: parse_path_cases)
    case (rel)
    have "\<exists>w\<in>set (split_char slash (x # r)). \<not> junk w"
    proof (rule ccontr)
      assume "\<not> ?thesis"
      then have j: "\<forall>w\<in>set (split_char slash (x # r)). junk w" by blast
      obtain w ws where sp: "split_char slash (x # r) = w # ws"
        by (cases "split_char slash (x # r)") (auto simp del: split_char.simps)
      with j rel have "w = []" by (auto simp: junk_def simp del: split_char.simps)
      with sp have "x = slash" by (auto split: if_splits list.splits)
      with rel show False by simp
    qed
    then show ?thesis using rel by (auto simp: components_empty_iff simp del: split_char.simps)
  qed (auto simp: components_empty_iff simp del: split_char.simps)
  with Cons show ?thesis by (simp add: normalize_path_def)
qed

section \<open>The constructed list\<close>

lemma ex_hs_insert:
  "(\<exists>e\<in>set (hs_insert x ps). below p e) \<longleftrightarrow> below p x \<or> (\<exists>e\<in>set ps. below p e)"
  by (auto simp: hs_insert_def list_ex_iff path_eq_def below_def)

definition ro_covers :: "allow_list \<Rightarrow> path_buf \<Rightarrow> bool" where
  "ro_covers al p \<longleftrightarrow> (\<exists>e\<in>set (read_only al). below p e)"

definition rw_covers :: "allow_list \<Rightarrow> path_buf \<Rightarrow> bool" where
  "rw_covers al p \<longleftrightarrow> (\<exists>e\<in>set (read_write al). below p e)"

lemma covers_insert [simp]:
  "ro_covers (insert_ro x al) p \<longleftrightarrow> below p (normalize_path x) \<or> ro_covers al p"
  "rw_covers (insert_ro x al) p \<longleftrightarrow> rw_covers al p"
  "rw_covers (insert_rw x al) p \<longleftrightarrow> below p (normalize_path x) \<or> rw_covers al p"
  "ro_covers (insert_rw x al) p \<longleftrightarrow> ro_covers al p"
  by (simp_all add: ro_covers_def rw_covers_def insert_ro_def insert_rw_def ex_hs_insert)

lemma covers_fold [simp]:
  "ro_covers (fold insert_ro xs al) p \<longleftrightarrow> (\<exists>x\<in>set xs. below p (normalize_path x)) \<or> ro_covers al p"
  "rw_covers (fold insert_ro xs al) p \<longleftrightarrow> rw_covers al p"
  "rw_covers (fold insert_rw xs al) p \<longleftrightarrow> (\<exists>x\<in>set xs. below p (normalize_path x)) \<or> rw_covers al p"
  "ro_covers (fold insert_rw xs al) p \<longleftrightarrow> ro_covers al p"
  by (induction xs arbitrary: al) auto

lemma covers_new [simp]: "\<not> ro_covers new_allow_list p" "\<not> rw_covers new_allow_list p"
  by (simp_all add: new_allow_list_def ro_covers_def rw_covers_def)

text \<open>The paths each derivation field contributes, as lists.\<close>

definition token_paths :: "string \<Rightarrow> string list" where
  "token_paths token =
     (let t = trim_pred arg_quote token in
      if \<not> starts_with t ''/'' then []
      else t # (if starts_with t ''/usr/src/''
                   \<and> (case path_file_name t of Some n \<Rightarrow> CHR ''.'' \<in> set n | None \<Rightarrow> False)
                then (case path_parent t of Some q \<Rightarrow> [q] | None \<Rightarrow> []) else []))"

definition env_paths :: "string \<times> string \<Rightarrow> string list" where
  "env_paths kv =
     (if fst kv \<noteq> ''out'' \<and> utf8_valid (snd kv) \<and> starts_with (snd kv) ''/'' \<and> CHR '' '' \<notin> set (snd kv)
      then [snd kv] else [])"

definition drv_out_paths ::
  "('sp \<Rightarrow> string) \<Rightarrow> ('sp \<Rightarrow> 'sp derivation option) \<Rightarrow> 'sp \<times> string list \<Rightarrow> string list" where
  "drv_out_paths to_abs known e =
     (case known (fst e) of
        Some d \<Rightarrow> concat (map (\<lambda>o_name.
          case map_of (outputs d) o_name of
            Some out \<Rightarrow> (case output_path out of Some sp \<Rightarrow> [to_abs sp] | None \<Rightarrow> [])
          | None \<Rightarrow> []) (snd e))
      | None \<Rightarrow> [])"

definition declared_paths ::
  "('sp \<Rightarrow> string) \<Rightarrow> 'sp derivation \<Rightarrow> ('sp \<Rightarrow> 'sp derivation option) \<Rightarrow> string list" where
  "declared_paths to_abs drv known =
     [''/dev/urandom'', ''/dev/random''] @ SYSTEM_READ_ONLY_PATHS
     @ (if builder drv = [] then [] else [builder drv])
     @ concat (map (\<lambda>a. concat (map token_paths (split_whitespace_aux [] a))) (arguments drv))
     @ concat (map env_paths (environment drv))
     @ map to_abs (input_sources drv)
     @ concat (map (drv_out_paths to_abs known) (input_derivations drv))"

lemma fold_fold_concat:
  "(\<And>x al. f x al = fold g (h x) al) \<Longrightarrow> fold f xs al = fold g (concat (map h xs)) al"
  by (induction xs arbitrary: al) auto

lemma add_arg_token_fold: "add_arg_token t al = fold insert_ro (token_paths t) al"
  by (auto simp: add_arg_token_def token_paths_def Let_def split: option.split)

lemma add_env_path_fold: "add_env_path kv al = fold insert_ro (env_paths kv) al"
  by (cases kv) (simp add: add_env_path_def env_paths_def)

lemma add_drv_output_fold:
  "add_drv_output to_abs d o_name al = fold insert_ro
     (case map_of (outputs d) o_name of
        Some out \<Rightarrow> (case output_path out of Some sp \<Rightarrow> [to_abs sp] | None \<Rightarrow> [])
      | None \<Rightarrow> []) al"
  by (simp add: add_drv_output_def split: option.split)

lemma add_input_drv_fold:
  "add_input_drv to_abs known e al = fold insert_ro (drv_out_paths to_abs known e) al"
  by (cases e) (simp add: add_input_drv_def drv_out_paths_def
      fold_fold_concat[OF add_drv_output_fold] split: option.split)

lemma add_arg_paths_fold:
  "foldl add_arg_paths al as
   = fold insert_ro (concat (map (\<lambda>a. concat (map token_paths (split_whitespace_aux [] a))) as)) al"
  by (induction as arbitrary: al)
    (simp_all add: add_arg_paths_def fold_fold_concat[OF add_arg_token_fold])

lemma fold_insert_map: "fold (\<lambda>x. insert_ro (f x)) xs al = fold insert_ro (map f xs) al"
  by (induction xs arbitrary: al) auto

lemma build_allow_list_fold:
  "build_allow_list to_abs drv known output_dir tmp_dir
   = fold insert_ro (declared_paths to_abs drv known)
       (fold insert_rw RW_FIXED_PATHS (insert_rw tmp_dir (insert_rw output_dir new_allow_list)))"
proof -
  have b: "(if builder drv = [] then al else insert_ro (builder drv) al)
    = fold insert_ro (if builder drv = [] then [] else [builder drv]) al" for al
    by simp
  show ?thesis
    unfolding build_allow_list_def declared_paths_def Let_def add_arg_paths_fold b
      fold_insert_map[of to_abs]
      fold_fold_concat[OF add_env_path_fold] fold_fold_concat[OF add_input_drv_fold]
    by (simp only: fold_append comp_def)
qed

section \<open>Properties\<close>

text \<open>
  C3: the access check refines the name-stack specification. For an allow-list whose entries
  are the canonical absolute paths of two lists of name sequences, \<^verbatim>\<open>AllowList::check\<close> grants
  read-write (else read-only) access exactly when the logically resolved request is absolute
  and extends one of the read-write (read-only) name sequences; so a traversal such as
  \<^verbatim>\<open>/nix/store/abc/../../etc\<close> is judged by where it leads and \<^verbatim>\<open>/nix/store/abcdef\<close> never matches
  \<^verbatim>\<open>/nix/store/abc\<close>.
\<close>

theorem check_refines_name_stack:
  assumes "\<forall>e\<in>set ros \<union> set rws. \<forall>n\<in>set e. valid_name n"
  shows "check \<lparr>read_only = map (canon_path True) ros, read_write = map (canon_path True) rws\<rparr> p =
    (if fst (resolved p) \<and> (\<exists>e\<in>set rws. prefix e (snd (resolved p))) then ReadWrite
     else if fst (resolved p) \<and> (\<exists>e\<in>set ros. prefix e (snd (resolved p))) then ReadOnly
     else Denied)"
proof -
  have b: "below p (canon_path True e) \<longleftrightarrow> fst (resolved p) \<and> prefix e (snd (resolved p))"
    if "e \<in> set ros \<union> set rws" for e
  proof -
    have "components (canon_path True e) = RootDir # map Normal e"
      using assms that components_canon[of e True] by (simp add: canon_comps_def)
    moreover have "prefix (map Normal e) (map Normal ns) \<longleftrightarrow> prefix e ns" for ns
      by (auto simp: prefix_def map_eq_append_conv inj_map_eq_map inj_def)
    moreover have "\<not> prefix (RootDir # xs) (map Normal ns)" for xs ns
      by (cases ns) auto
    ultimately show ?thesis
      by (cases "fst (resolved p)") (simp_all add: below_def components_clean_path canon_comps_def)
  qed
  show ?thesis by (auto simp: check_below b)
qed

theorem check_refines_name_stack_witness:
  "check \<lparr>read_only = map (canon_path True) [[''nix'', ''store'']],
         read_write = map (canon_path True) [[''nix'', ''store'', ''abc'']]\<rparr>
     ''/nix/store/abc/../abcdef/lib'' = ReadOnly"
proof -
  have "resolved ''/nix/store/abc/../abcdef/lib'' = (True, [''nix'', ''store'', ''abcdef'', ''lib''])"
    by (simp add: resolved_def components_def parse_path_def seg_components_def junk_def resolve_step_def)
  then show ?thesis
    by (subst check_refines_name_stack) (simp_all add: valid_name_def)
qed

text \<open>
  Cleaning is sound and idempotent: the components of a cleaned path are an optional
  root followed by proper names only (no \<^verbatim>\<open>.\<close> or \<^verbatim>\<open>..\<close>), and cleaning again changes nothing.
\<close>

theorem clean_path_canonical:
  "(\<exists>ab ns. components (clean_path p) = canon_comps ab ns \<and> list_all valid_name ns)
   \<and> ParentDir \<notin> set (components (clean_path p))
   \<and> clean_path (clean_path p) = clean_path p"
proof -
  have "ParentDir \<notin> set (components (clean_path p))"
    by (auto simp: components_clean_path canon_comps_def)
  then show ?thesis
    using components_clean_path[of p] resolved_valid[of p] clean_path_idem[of p]
    by (auto simp: list_all_iff)
qed

text \<open>
  C25: write access is fixed by the caller, never by the derivation: a path is writable under
  the list built from a derivation exactly when it lies below the output directory, the
  temporary directory or one of the seven fixed diagnostic and device paths. No argument,
  environment value or declared input can widen it.
\<close>

theorem build_allow_list_write_confined:
  "can_write (build_allow_list to_abs drv known output_dir tmp_dir) p \<longleftrightarrow>
     (\<exists>x\<in>set (output_dir # tmp_dir # RW_FIXED_PATHS). below p (normalize_path x))"
proof -
  have "can_write al p \<longleftrightarrow> rw_covers al p" for al
    by (simp add: can_write_iff rw_covers_def)
  then show ?thesis by (auto simp: build_allow_list_fold)
qed


end
