(* ===== verification/Handle_Ids.thy ===== *)
theory Handle_Ids
  imports Prelude
begin

text \<open>
  Allocation of handle numbers, shared by the three scheme daemons
  (\<^verbatim>\<open>stored/handles.rs\<close>, \<^verbatim>\<open>profiled/handles.rs\<close>, \<^verbatim>\<open>build_proxy/handler.rs\<close>): a wrapping counter with a
  collision loop. The kernel reserves the top 4096 values of \<^verbatim>\<open>usize\<close>, so valid numbers are
  \<open>1 \<dots> MAX_HANDLE_ID\<close>. The loop does not end when every valid number is taken; that is the
  value \<open>None\<close>.
\<close>

definition MAX_HANDLE_ID :: usize where
  "MAX_HANDLE_ID = 18446744073709547519"

lemma MAX_HANDLE_ID_eq: "MAX_HANDLE_ID = - 1 - 4096"
  by (simp add: MAX_HANDLE_ID_def)

definition advance_id :: "usize \<Rightarrow> usize" where
  "advance_id next_id = (if MAX_HANDLE_ID \<le> next_id then 1 else next_id + 1)"

partial_function (option) alloc_loop :: "(usize \<Rightarrow> bool) \<Rightarrow> usize \<Rightarrow> (usize \<times> usize) option" where
  "alloc_loop used next_id =
     (if 1 \<le> next_id \<and> next_id \<le> MAX_HANDLE_ID \<and> \<not> used next_id
      then Some (next_id, advance_id next_id)
      else alloc_loop used (advance_id next_id))"

section \<open>What the loop returns\<close>

lemma advance_id_range: "1 \<le> advance_id n \<and> advance_id n \<le> MAX_HANDLE_ID"
proof (cases "MAX_HANDLE_ID \<le> n")
  case True
  then show ?thesis by (simp add: advance_id_def MAX_HANDLE_ID_def)
next
  case False
  then have "unat n < 18446744073709547519"
    by (simp add: MAX_HANDLE_ID_def word_less_nat_alt not_le)
  then have "unat (n + 1) = unat n + 1"
    by (simp add: unat_word_ariths)
  with \<open>unat n < _\<close> show ?thesis
    using False by (simp add: advance_id_def word_le_nat_alt MAX_HANDLE_ID_def)
qed

lemma alloc_loop_sound:
  assumes "alloc_loop used n = Some (hid, n')"
  shows "1 \<le> hid \<and> hid \<le> MAX_HANDLE_ID \<and> \<not> used hid \<and> n' = advance_id hid"
proof -
  have "1 \<le> fst r \<and> fst r \<le> MAX_HANDLE_ID \<and> \<not> used (fst r) \<and> snd r = advance_id (fst r)"
    if "alloc_loop used n = Some r" for r
  proof (rule alloc_loop.raw_induct[where P = "\<lambda>used n r. 1 \<le> fst r \<and> fst r \<le> MAX_HANDLE_ID
      \<and> \<not> used (fst r) \<and> snd r = advance_id (fst r)", OF _ that])
    fix f u m q
    assume IH: "\<And>u m q. f u m = Some q \<Longrightarrow> 1 \<le> fst q \<and> fst q \<le> MAX_HANDLE_ID
        \<and> \<not> u (fst q) \<and> snd q = advance_id (fst q)"
      and eq: "(if 1 \<le> m \<and> m \<le> MAX_HANDLE_ID \<and> \<not> u m then Some (m, advance_id m)
        else f u (advance_id m)) = Some q"
    show "1 \<le> fst q \<and> fst q \<le> MAX_HANDLE_ID \<and> \<not> u (fst q) \<and> snd q = advance_id (fst q)"
    proof (cases "1 \<le> m \<and> m \<le> MAX_HANDLE_ID \<and> \<not> u m")
      case True
      with eq show ?thesis by auto
    next
      case False
      with eq have "f u (advance_id m) = Some q" by auto
      then show ?thesis by (rule IH)
    qed
  qed
  from this[OF assms] show ?thesis by simp
qed

lemma alloc_loop_up:
  assumes "unat n \<le> unat f" "1 \<le> n" "f \<le> MAX_HANDLE_ID" "\<not> used f"
  shows "\<exists>r. alloc_loop used n = Some r"
  using assms
proof (induction "unat f - unat n" arbitrary: n rule: less_induct)
  case less
  show ?case
  proof (cases "n \<le> MAX_HANDLE_ID \<and> \<not> used n")
    case True
    then show ?thesis using less.prems by (subst alloc_loop.simps) simp
  next
    case False
    have "n \<le> MAX_HANDLE_ID"
      using less.prems by (simp add: word_le_nat_alt)
    with False less.prems have ne: "unat n < unat f"
      by (metis le_neq_implies_less word_unat_eq_iff)
    then have lt: "\<not> MAX_HANDLE_ID \<le> n"
      using less.prems(3) by (simp add: word_le_nat_alt)
    have suc: "unat (n + 1) = Suc (unat n)"
      using ne unsigned_less[of f, where ?'a = nat] by (simp add: unat_word_ariths)
    have "\<exists>r. alloc_loop used (n + 1) = Some r"
      using less.hyps[of "n + 1"] suc ne less.prems(3,4) by (simp add: word_le_nat_alt)
    then show ?thesis
      using False lt by (subst alloc_loop.simps) (auto simp: advance_id_def)
  qed
qed

lemma alloc_loop_returns:
  assumes "1 \<le> f" "f \<le> MAX_HANDLE_ID" "\<not> used f"
  shows "\<exists>r. alloc_loop used n = Some r"
proof (induction "unat MAX_HANDLE_ID - unat n" arbitrary: n rule: less_induct)
  case less
  show ?case
  proof (cases "1 \<le> n \<and> n \<le> MAX_HANDLE_ID \<and> \<not> used n")
    case True
    then show ?thesis by (subst alloc_loop.simps) simp
  next
    case False
    show ?thesis
    proof (cases "MAX_HANDLE_ID \<le> n")
      case True
      have "\<exists>r. alloc_loop used 1 = Some r"
        using alloc_loop_up[of 1 f used] assms by (simp add: word_le_nat_alt)
      with False True show ?thesis
        by (subst alloc_loop.simps) (auto simp: advance_id_def)
    next
      case lt: False
      then have u: "unat n < unat MAX_HANDLE_ID" by (simp add: word_le_nat_alt)
      then have "unat (n + 1) = Suc (unat n)"
        using unsigned_less[of MAX_HANDLE_ID, where ?'a = nat] by (simp add: unat_word_ariths)
      then have "\<exists>r. alloc_loop used (n + 1) = Some r"
        using less.hyps[of "n + 1"] u by simp
      with False lt show ?thesis
        by (subst alloc_loop.simps) (auto simp: advance_id_def)
    qed
  qed
qed

lemma alloc_loop_hit:
  "1 \<le> n \<Longrightarrow> n \<le> MAX_HANDLE_ID \<Longrightarrow> \<not> used n \<Longrightarrow> alloc_loop used n = Some (n, advance_id n)"
  by (subst alloc_loop.simps) simp

lemma alloc_first: "alloc_loop used 1 = (if used 1 then alloc_loop used 2 else Some (1, 2))"
  by (subst alloc_loop.simps) (simp add: advance_id_def MAX_HANDLE_ID_def word_le_nat_alt)

lemma finite_valid_ids: "card {i. 1 \<le> i \<and> i \<le> MAX_HANDLE_ID} = unat MAX_HANDLE_ID"
proof -
  have "bij_betw unat {i. 1 \<le> i \<and> i \<le> MAX_HANDLE_ID} {1..unat MAX_HANDLE_ID}"
  proof (rule bij_betw_imageI)
    show "inj_on unat {i. 1 \<le> i \<and> i \<le> MAX_HANDLE_ID}"
      by (auto intro: inj_onI simp: word_unat_eq_iff)
    show "unat ` {i. 1 \<le> i \<and> i \<le> MAX_HANDLE_ID} = {1..unat MAX_HANDLE_ID}"
    proof (intro equalityI subsetI)
      fix k assume k: "k \<in> {1..unat MAX_HANDLE_ID}"
      then have "k < 2 ^ LENGTH(64)"
        using unsigned_less[of MAX_HANDLE_ID, where ?'a = nat] by simp
      then have "unat (of_nat k :: usize) = k" by (simp add: unat_of_nat)
      with k show "k \<in> unat ` {i. 1 \<le> i \<and> i \<le> MAX_HANDLE_ID}"
        by (intro image_eqI[of _ _ "of_nat k"]) (auto simp: word_le_nat_alt)
    qed (auto simp: word_le_nat_alt)
  qed
  then have "card {i. 1 \<le> i \<and> i \<le> MAX_HANDLE_ID} = card {1..unat MAX_HANDLE_ID}"
    by (rule bij_betw_same_card)
  then show ?thesis by (simp only: card_atLeastAtMost diff_Suc_1)
qed

lemma free_id_exists:
  assumes "card (dom (m :: usize \<rightharpoonup> 'h)) < unat MAX_HANDLE_ID"
  shows "\<exists>f. 1 \<le> f \<and> f \<le> MAX_HANDLE_ID \<and> m f = None"
proof (rule ccontr)
  assume all: "\<not> (\<exists>f. 1 \<le> f \<and> f \<le> MAX_HANDLE_ID \<and> m f = None)"
  have "{i. 1 \<le> i \<and> i \<le> MAX_HANDLE_ID} \<subseteq> dom m"
  proof
    fix i assume "i \<in> {i. 1 \<le> i \<and> i \<le> MAX_HANDLE_ID}"
    with all have "m i \<noteq> None" by (metis (mono_tags, lifting) mem_Collect_eq)
    then show "i \<in> dom m" by (simp only: domIff not_False_eq_True)
  qed
  then have "unat MAX_HANDLE_ID \<le> card (dom m)"
    unfolding finite_valid_ids[symmetric] by (rule card_mono[rotated]) (rule finite)
  with assms show False by simp
qed

section \<open>The interface of a handle table\<close>

text \<open>
  The three daemons keep a counter and a map from handle numbers to handles. What the scheme
  operations rely on is collected here once and instantiated per daemon.
\<close>

locale handle_table =
  fixes lookup :: "'s \<Rightarrow> usize \<Rightarrow> 'h option"
    and next_of :: "'s \<Rightarrow> usize"
    and set_next :: "usize \<Rightarrow> 's \<Rightarrow> 's"
    and put :: "usize \<Rightarrow> 'h \<Rightarrow> 's \<Rightarrow> 's"
    and alloc :: "'s \<Rightarrow> (usize \<times> 's) option"
  assumes alloc_eq: "alloc s = map_option (\<lambda>(hid, n). (hid, set_next n s))
      (alloc_loop (\<lambda>i. lookup s i \<noteq> None) (next_of s))"
    and lookup_set_next: "lookup (set_next n s) = lookup s"
    and lookup_put: "lookup (put i h s) = (lookup s)(i \<mapsto> h)"
begin

lemma alloc_sound:
  assumes "alloc s = Some (hid, s')"
  shows "1 \<le> hid \<and> hid \<le> MAX_HANDLE_ID \<and> lookup s hid = None \<and> lookup s' = lookup s"
  using assms alloc_loop_sound[of "\<lambda>i. lookup s i \<noteq> None" "next_of s"]
  by (auto simp: alloc_eq lookup_set_next)

lemma alloc_total:
  assumes "card (dom (lookup s)) < unat MAX_HANDLE_ID"
  shows "\<exists>hid s'. alloc s = Some (hid, s')"
proof -
  obtain f where "1 \<le> f" "f \<le> MAX_HANDLE_ID" "lookup s f = None"
    using free_id_exists[OF assms] by blast
  then show ?thesis
    using alloc_loop_returns[of f "\<lambda>i. lookup s i \<noteq> None" "next_of s"]
    by (auto simp: alloc_eq)
qed

text \<open>Opening a handle: the new number was unused and every other handle stays as it was.\<close>

lemma open_frame:
  assumes "alloc s = Some (hid, s')"
  shows "lookup (put hid h s') = (lookup s)(hid \<mapsto> h)" and "lookup s hid = None"
    and "j \<in> dom (lookup s) \<Longrightarrow> lookup (put hid h s') j = lookup s j"
  using alloc_sound[OF assms] by (auto simp: lookup_put)

lemma open_card:
  assumes "alloc s = Some (hid, s')" "finite (dom (lookup s))"
  shows "card (dom (lookup (put hid h s'))) = Suc (card (dom (lookup s)))"
  using open_frame[OF assms(1)] assms(2) by (simp add: domIff)

end

end
