(* ===== verification/Io_Worker.thy ===== *)
theory Io_Worker
  imports Paths
begin

text \<open>
  The background worker that performs the proxy's real filesystem I/O
  (\<^verbatim>\<open>snix-redox/src/build_proxy/io_worker.rs\<close>). The kernel is a parameter: a record of the
  system calls and \<^verbatim>\<open>std::fs::File\<close> methods the worker makes, each on an abstract kernel state.
  The constants of the \<^verbatim>\<open>syscall\<close> crate whose values the sources state are defined; the others
  are fields of a second parameter. The worker's own state is the mapping counter
  and the table of active mappings. The channel between the scheme thread and the worker is
  a call: the scheme thread waits for each reply before it goes on.
\<close>

section \<open>Constants and results of the system interface\<close>

definition O_RDONLY :: usize where "O_RDONLY = 0x00010000"
definition O_WRONLY :: usize where "O_WRONLY = 0x00020000"
definition O_RDWR :: usize where "O_RDWR = 0x00030000"
definition O_APPEND :: usize where "O_APPEND = 0x00080000"
definition O_CREAT :: usize where "O_CREAT = 0x02000000"
definition O_TRUNC :: usize where "O_TRUNC = 0x04000000"
definition O_EXCL :: usize where "O_EXCL = 0x08000000"
definition O_DIRECTORY :: usize where "O_DIRECTORY = 0x10000000"

unbundle bit_operations_syntax

definition O_ACCMODE :: usize where "O_ACCMODE = O_RDONLY OR O_WRONLY OR O_RDWR"

lemmas open_flag_defs =
  O_RDONLY_def O_WRONLY_def O_RDWR_def O_APPEND_def O_CREAT_def O_TRUNC_def O_EXCL_def
  O_DIRECTORY_def O_ACCMODE_def

record abi =
  O_SYMLINK :: usize
  MODE_PERM :: usize
  MODE_DIR :: u16
  MODE_FILE :: u16
  AT_REMOVEDIR :: usize
  PROT_WRITE :: usize
  PROT_EXEC :: usize
  MAP_SHARED :: usize
  PAGE_SIZE :: usize
  F_DUPFD :: usize
  F_DUPFD_CLOEXEC :: usize
  F_GETFD :: usize
  F_SETFD :: usize
  F_GETFL :: usize
  F_SETFL :: usize

definition has_flag :: "usize \<Rightarrow> usize \<Rightarrow> bool" where
  "has_flag flags f \<longleftrightarrow> flags AND f \<noteq> 0"

definition flags_contain :: "usize \<Rightarrow> usize \<Rightarrow> bool" where
  "flags_contain flags f \<longleftrightarrow> flags AND f = f"

datatype dirent_kind = Directory | Regular | Symlink | OtherKind nat

record stat =
  st_dev :: u64
  st_ino :: u64
  st_mode :: u16
  st_nlink :: u32
  st_uid :: u32
  st_gid :: u32
  st_size :: u64
  st_blksize :: u32
  st_blocks :: u64
  st_mtime :: u64
  st_atime :: u64
  st_ctime :: u64

text \<open>
  The kernel and the file methods. \<open>k_getdents\<close> returns the bytes of one page of
  an open directory from an opaque offset, \<open>dirent_iter\<close> and \<open>dirent_kind_of\<close> are the \<^verbatim>\<open>DirentIter\<close> and
  \<^verbatim>\<open>DirentKind::try_from_raw\<close> of the \<^verbatim>\<open>syscall\<close> crate (\<open>None\<close>: a record that cannot be read),
  \<open>k_fill\<close> is the copy of a file range into raw mapped memory, padded with zeros.
\<close>

record 'w kernel =
  k_openat :: "usize \<Rightarrow> string \<Rightarrow> usize \<Rightarrow> ('w, usize) io"
  k_dup :: "usize \<Rightarrow> ('w, usize) io"
  k_close :: "usize \<Rightarrow> ('w, unit) io"
  k_fstat :: "usize \<Rightarrow> ('w, stat) io"
  k_fpath :: "usize \<Rightarrow> ('w, string) io"
  k_fchmod :: "usize \<Rightarrow> u16 \<Rightarrow> ('w, unit) io"
  k_unlinkat :: "usize \<Rightarrow> string \<Rightarrow> usize \<Rightarrow> ('w, unit) io"
  k_frename :: "usize \<Rightarrow> string \<Rightarrow> ('w, unit) io"
  k_flink :: "usize \<Rightarrow> string \<Rightarrow> ('w, unit) io"
  k_fmap :: "usize \<Rightarrow> u64 \<Rightarrow> usize \<Rightarrow> usize \<Rightarrow> ('w, usize) io"
  k_funmap :: "usize \<Rightarrow> usize \<Rightarrow> ('w, unit) io"
  k_anon_map :: "usize \<Rightarrow> ('w, usize) io"
  k_anon_unmap :: "usize \<Rightarrow> usize \<Rightarrow> ('w, unit) io"
  k_fill :: "usize \<Rightarrow> u64 \<Rightarrow> usize \<Rightarrow> usize \<Rightarrow> ('w, unit) io"
  k_getdents :: "usize \<Rightarrow> nat \<Rightarrow> u64 \<Rightarrow> ('w, string) io"
  dirent_iter :: "string \<Rightarrow> (u64 \<times> string \<times> nat) option list"
  dirent_kind_of :: "nat \<Rightarrow> dirent_kind option"
  f_seek_start :: "usize \<Rightarrow> u64 \<Rightarrow> ('w, unit) io"
  f_seek_end :: "usize \<Rightarrow> ('w, u64) io"
  f_read :: "usize \<Rightarrow> usize \<Rightarrow> ('w, bytes) io"
  f_write :: "usize \<Rightarrow> bytes \<Rightarrow> ('w, usize) io"
  f_set_len :: "usize \<Rightarrow> u64 \<Rightarrow> ('w, unit) io"

section \<open>Requests and replies\<close>

record open_path_result =
  opr_stat :: stat
  opr_resolved_path :: path_buf

record write_result =
  bytes_written :: usize
  end_offset :: u64

record mmap_result =
  mr_token :: u64
  mr_base_addr :: usize

record active_map =
  am_base_addr :: usize
  am_len :: usize
  am_backing_fd :: usize
  am_anonymous :: bool

datatype io_request =
    OpenPath path_buf usize
  | EnsureDirTree path_buf
  | ReadAt path_buf u64 usize bool
  | WriteAt path_buf u64 bool bool bytes
  | StatPath path_buf bool
  | ChmodPath path_buf bool u16
  | TruncatePath path_buf u64 bool
  | ReadDir path_buf
  | ResolvePath path_buf
  | RenamePath path_buf path_buf
  | LinkPath path_buf path_buf
  | UnlinkPath path_buf bool
  | MmapPath path_buf u64 usize usize
  | MunmapToken u64

text \<open>The client side: one method per kind of request.\<close>

record 'w io_worker =
  open_path :: "path_buf \<Rightarrow> usize \<Rightarrow> ('w, open_path_result) io"
  ensure_dir_tree :: "path_buf \<Rightarrow> ('w, unit) io"
  read_at :: "path_buf \<Rightarrow> u64 \<Rightarrow> usize \<Rightarrow> bool \<Rightarrow> ('w, bytes) io"
  write_at :: "path_buf \<Rightarrow> u64 \<Rightarrow> bool \<Rightarrow> bool \<Rightarrow> bytes \<Rightarrow> ('w, write_result) io"
  stat_path :: "path_buf \<Rightarrow> bool \<Rightarrow> ('w, stat) io"
  chmod_path :: "path_buf \<Rightarrow> bool \<Rightarrow> u16 \<Rightarrow> ('w, unit) io"
  truncate_path :: "path_buf \<Rightarrow> u64 \<Rightarrow> bool \<Rightarrow> ('w, unit) io"
  read_dir :: "path_buf \<Rightarrow> ('w, (string \<times> dirent_kind) list) pio"
  resolve_real_path :: "path_buf \<Rightarrow> ('w, path_buf) io"
  rename_path :: "path_buf \<Rightarrow> path_buf \<Rightarrow> ('w, unit) io"
  link_path :: "path_buf \<Rightarrow> path_buf \<Rightarrow> ('w, unit) io"
  unlink_path :: "path_buf \<Rightarrow> bool \<Rightarrow> ('w, unit) io"
  mmap_path :: "path_buf \<Rightarrow> u64 \<Rightarrow> usize \<Rightarrow> usize \<Rightarrow> ('w, mmap_result) io"
  munmap_token :: "u64 \<Rightarrow> ('w, unit) io"

section \<open>The worker\<close>

record worker_fds =
  root_fd :: usize
  profile_root_fd :: "usize option"
  store_root_fd :: "usize option"
  dev_null_fd :: "usize option"
  dev_urandom_fd :: "usize option"
  rustlib_root :: "string option"  \<comment> \<open>the environment variable \<^verbatim>\<open>SNIX_PROFILE_RUSTLIB_ROOT\<close>\<close>
  rustlib_dir_cache :: "(path_buf \<times> (string \<times> dirent_kind) list) list"

record 'w wstate =
  os :: 'w
  next_map_token :: u64
  active_maps :: "u64 \<rightharpoonup> active_map"

definition sys :: "('w, 'a) io \<Rightarrow> ('w wstate, 'a) io" where
  "sys f = (\<lambda>s. case f (os s) of (r, w) \<Rightarrow> (r, s\<lparr>os := w\<rparr>))"

definition liftR :: "'a res \<Rightarrow> ('w, 'a) io" where
  "liftR r = (\<lambda>w. (r, w))"

definition thenS :: "('w, 'a) io \<Rightarrow> ('w, 'b) io \<Rightarrow> ('w, 'b) io" where
  "thenS a b = bindS (attempt a) (\<lambda>_. b)"

definition raw_openat :: "'w kernel \<Rightarrow> usize \<Rightarrow> string \<Rightarrow> usize \<Rightarrow> ('w wstate, usize) io" where
  "raw_openat k rfd path flags = sys (k_openat k rfd (trim_start_matches slash path) flags)"

definition raw_close :: "'w kernel \<Rightarrow> usize \<Rightarrow> ('w wstate, unit) io" where
  "raw_close k fd = thenS (sys (k_close k fd)) (ret ())"

definition raw_fstat :: "'w kernel \<Rightarrow> usize \<Rightarrow> ('w wstate, stat) io" where
  "raw_fstat k fd = sys (k_fstat k fd)"

text \<open>Run \<open>m\<close> with an owned \<^verbatim>\<open>File\<close>, closing the descriptor when it goes out of scope.\<close>

definition with_file :: "'w kernel \<Rightarrow> usize \<Rightarrow> ('w wstate, 'a) io \<Rightarrow> ('w wstate, 'a) io" where
  "with_file k fd m = bindS (attempt m) (\<lambda>r. bindS (raw_close k fd) (\<lambda>_. liftR r))"

definition map_profile_rustlib_path :: "worker_fds \<Rightarrow> string \<Rightarrow> string option" where
  "map_profile_rustlib_path fds rest =
     (case rustlib_root fds of
        None \<Rightarrow> None
      | Some root \<Rightarrow> if rest = [] then Some root
                     else Some (root @ ''/'' @ trim_start_matches slash rest))"

definition open_mapped :: "'w kernel \<Rightarrow> worker_fds \<Rightarrow> string \<Rightarrow> usize \<Rightarrow> ('w wstate, usize) io" where
  "open_mapped k fds mapped flags =
     (case strip_prefix mapped ''/nix/store/'' of
        Some rest \<Rightarrow> bindS (ok_or (store_root_fd fds) EIO) (\<lambda>fd. raw_openat k fd rest flags)
      | None \<Rightarrow> raw_openat k (root_fd fds) (trim_start_matches slash mapped) flags)"

definition open_profile_or_store ::
  "'w kernel \<Rightarrow> worker_fds \<Rightarrow> string \<Rightarrow> usize \<Rightarrow> ('w wstate, usize) io" where
  "open_profile_or_store k fds clean flags =
     (if clean = ''nix/system/profile'' then
        bindS (ok_or (profile_root_fd fds) EIO) (\<lambda>fd. raw_openat k fd ''.'' flags)
      else (case strip_prefix clean ''nix/system/profile/'' of
        Some rest \<Rightarrow> bindS (ok_or (profile_root_fd fds) EIO) (\<lambda>fd. raw_openat k fd rest flags)
      | None \<Rightarrow>
        if clean = ''nix/store'' then
          bindS (ok_or (store_root_fd fds) EIO) (\<lambda>fd. raw_openat k fd ''.'' flags)
        else (case strip_prefix clean ''nix/store/'' of
          Some rest \<Rightarrow> bindS (ok_or (store_root_fd fds) EIO) (\<lambda>fd. raw_openat k fd rest flags)
        | None \<Rightarrow> raw_openat k (root_fd fds) clean flags)))"

definition open_fd :: "'w kernel \<Rightarrow> worker_fds \<Rightarrow> path_buf \<Rightarrow> usize \<Rightarrow> ('w wstate, usize) io" where
  "open_fd k fds path flags =
     (let clean = trim_start_matches slash path in
      if clean = ''dev/null'' then
        bindS (ok_or (dev_null_fd fds) EIO) (\<lambda>fd. sys (k_dup k fd))
      else if clean = ''dev/urandom'' \<or> clean = ''dev/random'' then
        bindS (ok_or (dev_urandom_fd fds) EIO) (\<lambda>fd. sys (k_dup k fd))
      else
        let mapped =
          (if clean = ''nix/system/profile/lib/rustlib'' then map_profile_rustlib_path fds []
           else (case strip_prefix clean ''nix/system/profile/lib/rustlib/'' of
                   Some rest \<Rightarrow> map_profile_rustlib_path fds rest
                 | None \<Rightarrow> None))
        in (case mapped of
              Some mp \<Rightarrow> open_mapped k fds mp flags
            | None \<Rightarrow> open_profile_or_store k fds clean flags))"

definition raw_fpath_of :: "string \<Rightarrow> path_buf option" where
  "raw_fpath_of buf =
     (let s0 = takeWhile (\<lambda>c. c \<noteq> CHR 0x00) buf in
      if \<not> utf8_valid s0 then None
      else
        let s1 = (case strip_prefix s0 ''file:'' of Some r \<Rightarrow> r | None \<Rightarrow> s0);
            s2 = (case strip_prefix s1 ''/scheme/file'' of Some r \<Rightarrow> r | None \<Rightarrow> s1)
        in Some (if s2 = [] then ''/'' else s2))"

definition raw_fpath :: "'w kernel \<Rightarrow> usize \<Rightarrow> ('w wstate, path_buf option) io" where
  "raw_fpath k fd =
     bindS (attempt (sys (k_fpath k fd)))
       (\<lambda>r. ret (case r of Inl _ \<Rightarrow> None | Inr buf \<Rightarrow> raw_fpath_of (take 4096 buf)))"

definition keeps_literal_path :: "string \<Rightarrow> bool" where
  "keeps_literal_path clean \<longleftrightarrow>
     clean \<in> set [''dev/null'', ''dev/zero'', ''dev/urandom'', ''dev/random'',
                 ''nix/system/profile'', ''nix/store'']
     \<or> starts_with clean ''nix/system/profile/'' \<or> starts_with clean ''nix/store/''"

definition worker_open_path ::
  "'w kernel \<Rightarrow> worker_fds \<Rightarrow> path_buf \<Rightarrow> usize \<Rightarrow> ('w wstate, open_path_result) io" where
  "worker_open_path k fds path flags =
     bindS (open_fd k fds path flags) (\<lambda>fd.
     bindS (raw_fstat k fd) (\<lambda>st.
     bindS (raw_fpath k fd) (\<lambda>raw_path.
     let clean = trim_start_matches slash path;
         resolved_path = (if keeps_literal_path clean then path
                          else (case raw_path of Some p \<Rightarrow> p | None \<Rightarrow> path))
     in bindS (raw_close k fd) (\<lambda>_.
        ret \<lparr>opr_stat = st, opr_resolved_path = resolved_path\<rparr>))))"

definition raw_mkdir :: "'w kernel \<Rightarrow> usize \<Rightarrow> string \<Rightarrow> ('w wstate, unit) io" where
  "raw_mkdir k rfd path =
     bindS (raw_openat k rfd (trim_start_matches slash path) (O_CREAT OR O_DIRECTORY OR 0x1ED))
       (\<lambda>fd. raw_close k fd)"

fun mkdir_walk :: "(string \<Rightarrow> ('w, unit) io) \<Rightarrow> string \<Rightarrow> string list \<Rightarrow> ('w, unit) io" where
  "mkdir_walk mk built [] = ret ()"
| "mkdir_walk mk built (c # cs) =
     (if c = [] then mkdir_walk mk built cs
      else let built' = (if built = [] then c else built @ slash # c)
           in thenS (mk built') (mkdir_walk mk built' cs))"

definition mkdir_p_via_root_fd :: "'w kernel \<Rightarrow> usize \<Rightarrow> path_buf \<Rightarrow> ('w wstate, unit) io" where
  "mkdir_p_via_root_fd k rfd path =
     mkdir_walk (raw_mkdir k rfd) [] (split_char slash (trim_start_matches slash path))"

definition worker_ensure_dir_tree :: "'w kernel \<Rightarrow> worker_fds \<Rightarrow> path_buf \<Rightarrow> ('w wstate, unit) io" where
  "worker_ensure_dir_tree k fds path = thenS (mkdir_p_via_root_fd k (root_fd fds) path) (ret ())"

text \<open>Never read past the end of a regular file; other files keep the requested length.\<close>

definition read_limit :: "abi \<Rightarrow> stat res \<Rightarrow> u64 \<Rightarrow> usize \<Rightarrow> usize" where
  "read_limit a st offset len =
     (let available =
            (case st of
               Inr s \<Rightarrow> if st_mode s AND MODE_FILE a \<noteq> 0
                        then (if offset \<le> st_size s then st_size s - offset else 0)
                        else len
             | Inl _ \<Rightarrow> len)
      in min len available)"

definition worker_read_at ::
  "'w kernel \<Rightarrow> abi \<Rightarrow> worker_fds \<Rightarrow> path_buf \<Rightarrow> u64 \<Rightarrow> usize \<Rightarrow> bool \<Rightarrow> ('w wstate, bytes) io" where
  "worker_read_at k a fds path offset len symlink =
     (let clean = trim_start_matches slash path in
      if clean = ''dev/null'' then ret []
      else if clean = ''dev/zero'' then ret (replicate (unat len) 0)
      else
        bindS (open_fd k fds path (if symlink then O_RDONLY OR O_SYMLINK a else O_RDONLY)) (\<lambda>fd.
        bindS (attempt (raw_fstat k fd)) (\<lambda>st.
        let n = read_limit a st offset len
        in if n = 0 then bindS (raw_close k fd) (\<lambda>_. ret [])
           else with_file k fd
             (bindS (map_err (\<lambda>_. EIO) (sys (f_seek_start k fd offset))) (\<lambda>_.
              map_err (\<lambda>_. EIO) (sys (f_read k fd n)))))))"

definition worker_write_at ::
  "'w kernel \<Rightarrow> abi \<Rightarrow> worker_fds \<Rightarrow> path_buf \<Rightarrow> u64 \<Rightarrow> bool \<Rightarrow> bool \<Rightarrow> bytes
   \<Rightarrow> ('w wstate, write_result) io" where
  "worker_write_at k a fds path offset appending symlink data =
     (let clean = trim_start_matches slash path in
      if clean = ''dev/null'' \<or> clean = ''dev/zero'' then
        ret \<lparr>bytes_written = of_nat (length data), end_offset = offset + of_nat (length data)\<rparr>
      else
        bindS (open_fd k fds path (if symlink then O_WRONLY OR O_SYMLINK a else O_RDWR)) (\<lambda>fd.
        with_file k fd
          (bindS (if appending then map_err (\<lambda>_. EIO) (sys (f_seek_end k fd))
                  else bindS (map_err (\<lambda>_. EIO) (sys (f_seek_start k fd offset))) (\<lambda>_. ret offset))
             (\<lambda>write_offset.
           bindS (map_err (\<lambda>_. EIO) (sys (f_write k fd data))) (\<lambda>n.
           ret \<lparr>bytes_written = n, end_offset = write_offset + n\<rparr>)))))"

definition dir_flags :: "bool \<Rightarrow> usize" where
  "dir_flags directory = (if directory then O_RDONLY OR O_DIRECTORY else O_RDONLY)"

definition worker_stat_path ::
  "'w kernel \<Rightarrow> worker_fds \<Rightarrow> path_buf \<Rightarrow> bool \<Rightarrow> ('w wstate, stat) io" where
  "worker_stat_path k fds path directory =
     bindS (open_fd k fds path (dir_flags directory)) (\<lambda>fd.
     bindS (raw_fstat k fd) (\<lambda>st.
     bindS (raw_close k fd) (\<lambda>_. ret st)))"

definition worker_chmod_path ::
  "'w kernel \<Rightarrow> worker_fds \<Rightarrow> path_buf \<Rightarrow> bool \<Rightarrow> u16 \<Rightarrow> ('w wstate, unit) io" where
  "worker_chmod_path k fds path directory new_mode =
     bindS (open_fd k fds path (dir_flags directory)) (\<lambda>fd.
     bindS (attempt (sys (k_fchmod k fd new_mode))) (\<lambda>result.
     bindS (raw_close k fd) (\<lambda>_. liftR result)))"

definition worker_truncate_path ::
  "'w kernel \<Rightarrow> abi \<Rightarrow> worker_fds \<Rightarrow> path_buf \<Rightarrow> u64 \<Rightarrow> bool \<Rightarrow> ('w wstate, unit) io" where
  "worker_truncate_path k a fds path len symlink =
     bindS (open_fd k fds path (if symlink then O_WRONLY OR O_SYMLINK a else O_RDWR)) (\<lambda>fd.
     with_file k fd (map_err (\<lambda>_. EIO) (sys (f_set_len k fd len))))"

definition worker_resolve_path :: "'w kernel \<Rightarrow> worker_fds \<Rightarrow> path_buf \<Rightarrow> ('w wstate, path_buf) io" where
  "worker_resolve_path k fds path =
     bindS (open_fd k fds path O_RDONLY) (\<lambda>fd.
     bindS (raw_fpath k fd) (\<lambda>p.
     bindS (ok_or p EIO) (\<lambda>resolved.
     bindS (raw_close k fd) (\<lambda>_. ret resolved))))"

definition worker_rename_path ::
  "'w kernel \<Rightarrow> worker_fds \<Rightarrow> path_buf \<Rightarrow> path_buf \<Rightarrow> ('w wstate, unit) io" where
  "worker_rename_path k fds old_path new_path =
     bindS (open_fd k fds old_path O_RDONLY) (\<lambda>fd.
     bindS (attempt (sys (k_frename k fd new_path))) (\<lambda>result.
     bindS (raw_close k fd) (\<lambda>_. liftR result)))"

definition worker_link_path ::
  "'w kernel \<Rightarrow> worker_fds \<Rightarrow> path_buf \<Rightarrow> path_buf \<Rightarrow> ('w wstate, unit) io" where
  "worker_link_path k fds old_path new_path =
     bindS (open_fd k fds old_path O_RDONLY) (\<lambda>fd.
     bindS (attempt (sys (k_flink k fd new_path))) (\<lambda>result.
     bindS (raw_close k fd) (\<lambda>_. liftR result)))"

definition worker_unlink_path ::
  "'w kernel \<Rightarrow> abi \<Rightarrow> worker_fds \<Rightarrow> path_buf \<Rightarrow> bool \<Rightarrow> ('w wstate, unit) io" where
  "worker_unlink_path k a fds path directory =
     (let clean = trim_start_matches slash path;
          flags = (if directory then AT_REMOVEDIR a else 0) in
      if clean = ''nix/system/profile'' \<or> starts_with clean ''nix/system/profile/'' then
        let rel = (case strip_prefix clean ''nix/system/profile/'' of Some r \<Rightarrow> r | None \<Rightarrow> ''.'')
        in bindS (ok_or (profile_root_fd fds) EIO) (\<lambda>fd. sys (k_unlinkat k fd rel flags))
      else if clean = ''nix/store'' \<or> starts_with clean ''nix/store/'' then
        let rel = (case strip_prefix clean ''nix/store/'' of Some r \<Rightarrow> r | None \<Rightarrow> ''.'')
        in bindS (ok_or (store_root_fd fds) EIO) (\<lambda>fd. sys (k_unlinkat k fd rel flags))
      else sys (k_unlinkat k (root_fd fds) clean flags))"

definition IMMUTABLE :: "string list" where
  "IMMUTABLE = [''/nix/store'', ''/nix/system/profile'', ''/usr/lib'', ''/usr/src'', ''/usr/bin'',
     ''/usr/share'', ''/lib'', ''/bin'', ''/etc'', ''/dev'']"

definition is_mutable_path :: "path_buf \<Rightarrow> bool" where
  "is_mutable_path path \<longleftrightarrow>
     \<not> list_ex (\<lambda>pre. path = pre \<or> starts_with path (pre @ ''/'')) IMMUTABLE"

definition page_round :: "abi \<Rightarrow> usize \<Rightarrow> usize" where
  "page_round a sz =
     (let q = sz div PAGE_SIZE a in (if sz mod PAGE_SIZE a \<noteq> 0 then q + 1 else q) * PAGE_SIZE a)"

definition register_map :: "active_map \<Rightarrow> ('w wstate, mmap_result) io" where
  "register_map am = (\<lambda>s.
     let token = next_map_token s in
     (Inr \<lparr>mr_token = token, mr_base_addr = am_base_addr am\<rparr>,
      s\<lparr>next_map_token := max (token + 1) 1, active_maps := (active_maps s)(token \<mapsto> am)\<rparr>))"

definition copy_path_mapping ::
  "'w kernel \<Rightarrow> worker_fds \<Rightarrow> path_buf \<Rightarrow> u64 \<Rightarrow> usize \<Rightarrow> ('w wstate, mmap_result) io" where
  "copy_path_mapping k fds path offset sz =
     bindS (open_fd k fds path O_RDONLY) (\<lambda>fd.
     bindS (attempt (map_err (\<lambda>_. ENOMEM) (sys (k_anon_map k sz)))) (\<lambda>r.
     case r of
       Inl err \<Rightarrow> bindS (raw_close k fd) (\<lambda>_. fail err)
     | Inr base_addr \<Rightarrow>
         bindS (attempt (sys (k_fill k fd offset base_addr sz))) (\<lambda>copied.
         bindS (raw_close k fd) (\<lambda>_.
         case copied of
           Inl _ \<Rightarrow> thenS (sys (k_anon_unmap k base_addr sz)) (fail EIO)
         | Inr _ \<Rightarrow> register_map \<lparr>am_base_addr = base_addr, am_len = sz, am_backing_fd = - 1,
                                 am_anonymous = True\<rparr>))))"

definition worker_mmap_path ::
  "'w kernel \<Rightarrow> abi \<Rightarrow> worker_fds \<Rightarrow> path_buf \<Rightarrow> u64 \<Rightarrow> usize \<Rightarrow> usize \<Rightarrow> ('w wstate, mmap_result) io" where
  "worker_mmap_path k a fds path offset sz0 flags =
     (let sz = page_round a sz0;
          file_backed = flags_contain flags (PROT_EXEC a)
            \<or> (flags_contain flags (MAP_SHARED a) \<and> flags_contain flags (PROT_WRITE a)) in
      if is_mutable_path path \<and> \<not> file_backed then copy_path_mapping k fds path offset sz
      else
        bindS (open_fd k fds path (if flags_contain flags (PROT_WRITE a) then O_RDWR else O_RDONLY)) (\<lambda>fd.
        bindS (attempt (sys (k_fmap k fd offset sz flags))) (\<lambda>r.
        case r of
          Inl err \<Rightarrow> bindS (raw_close k fd) (\<lambda>_. fail err)
        | Inr base_addr \<Rightarrow> register_map \<lparr>am_base_addr = base_addr, am_len = sz, am_backing_fd = fd,
                                       am_anonymous = False\<rparr>)))"

definition worker_munmap_token :: "'w kernel \<Rightarrow> u64 \<Rightarrow> ('w wstate, unit) io" where
  "worker_munmap_token k token = (\<lambda>s.
     case active_maps s token of
       None \<Rightarrow> (Inl EBADF, s)
     | Some am \<Rightarrow>
         let s' = s\<lparr>active_maps := (active_maps s)(token := None)\<rparr> in
         if am_anonymous am then thenS (sys (k_anon_unmap k (am_base_addr am) (am_len am))) (ret ()) s'
         else bindS (sys (k_funmap k (am_base_addr am) (am_len am)))
                (\<lambda>_. raw_close k (am_backing_fd am)) s')"

definition rustlib_cache_key :: "path_buf \<Rightarrow> path_buf" where
  "rustlib_cache_key path = trim_start_matches slash path"

definition cache_lookup ::
  "(path_buf \<times> 'v) list \<Rightarrow> path_buf \<Rightarrow> 'v option" where
  "cache_lookup cache key = map_option snd (find (\<lambda>e. path_eq (fst e) key) cache)"

definition parse_record ::
  "(nat \<Rightarrow> dirent_kind option) \<Rightarrow> u64 \<times> string \<times> nat \<Rightarrow> (string \<times> dirent_kind) list" where
  "parse_record kind_of rec =
     (case rec of (_, name, kind) \<Rightarrow>
        if \<not> utf8_valid name \<or> name = ''.'' \<or> name = ''..'' then []
        else [(name, case kind_of kind of Some kd \<Rightarrow> kd | None \<Rightarrow> Regular)])"

text \<open>Entries of a page and the opaque offset of its last readable record.\<close>

fun worker_parse_raw_dirents ::
  "(nat \<Rightarrow> dirent_kind option) \<Rightarrow> (u64 \<times> string \<times> nat) option list
   \<Rightarrow> (string \<times> dirent_kind) list \<Rightarrow> u64 option \<Rightarrow> (string \<times> dirent_kind) list \<times> u64 option" where
  "worker_parse_raw_dirents kind_of [] entries last_opaque = (entries, last_opaque)"
| "worker_parse_raw_dirents kind_of (None # recs) entries last_opaque = (entries, last_opaque)"
| "worker_parse_raw_dirents kind_of (Some rec # recs) entries last_opaque =
     worker_parse_raw_dirents kind_of recs (entries @ parse_record kind_of rec) (Some (fst rec))"

partial_function (option) read_dir_loop ::
  "'w kernel \<Rightarrow> usize \<Rightarrow> nat \<Rightarrow> u64 \<Rightarrow> (string \<times> dirent_kind) list
   \<Rightarrow> 'w wstate \<Rightarrow> ((string \<times> dirent_kind) list res \<times> 'w wstate) option" where
  "read_dir_loop k dir_fd len opaque entries s =
     (case sys (k_getdents k dir_fd len opaque) s of (r, s') \<Rightarrow>
        (case r of
           Inl err \<Rightarrow>
             if err = EINVAL
             then read_dir_loop k dir_fd (max (min (2 * len) (2 ^ 64 - 1)) 16384) opaque entries s'
             else Some (bindS (raw_close k dir_fd) (\<lambda>_. fail err) s')
         | Inr raw \<Rightarrow>
             if raw = [] then Some (bindS (raw_close k dir_fd) (\<lambda>_. ret entries) s')
             else (case worker_parse_raw_dirents (dirent_kind_of k) (dirent_iter k raw) entries None of
                     (entries', last_opaque) \<Rightarrow>
                       read_dir_loop k dir_fd len (case last_opaque of Some q \<Rightarrow> q | None \<Rightarrow> opaque) entries' s')))"

definition worker_read_dir ::
  "'w kernel \<Rightarrow> worker_fds \<Rightarrow> path_buf \<Rightarrow> ('w wstate, (string \<times> dirent_kind) list) pio" where
  "worker_read_dir k fds path s =
     (case cache_lookup (rustlib_dir_cache fds) (rustlib_cache_key path) of
        Some cached \<Rightarrow> Some (Inr cached, s)
      | None \<Rightarrow>
          (case open_fd k fds path (O_RDONLY OR O_DIRECTORY) s of
             (Inl e, s') \<Rightarrow> Some (Inl e, s')
           | (Inr dir_fd, s') \<Rightarrow> read_dir_loop k dir_fd 8192 0 [] s'))"

text \<open>The worker thread: each request kind is answered by its function.\<close>

definition worker_main :: "'w kernel \<Rightarrow> abi \<Rightarrow> worker_fds \<Rightarrow> 'w wstate io_worker" where
  "worker_main k a fds =
     \<lparr>open_path = worker_open_path k fds,
      ensure_dir_tree = worker_ensure_dir_tree k fds,
      read_at = worker_read_at k a fds,
      write_at = worker_write_at k a fds,
      stat_path = worker_stat_path k fds,
      chmod_path = worker_chmod_path k fds,
      truncate_path = worker_truncate_path k a fds,
      read_dir = worker_read_dir k fds,
      resolve_real_path = worker_resolve_path k fds,
      rename_path = worker_rename_path k fds,
      link_path = worker_link_path k fds,
      unlink_path = worker_unlink_path k a fds,
      mmap_path = worker_mmap_path k a fds,
      munmap_token = worker_munmap_token k\<rparr>"

section \<open>System calls leave the mapping table alone\<close>

definition maps_are :: "u64 \<times> (u64 \<rightharpoonup> active_map) \<Rightarrow> 'w wstate \<Rightarrow> bool" where
  "maps_are c s \<longleftrightarrow> (next_map_token s, active_maps s) = c"

lemma keeps_sys [keeps_rules]: "keeps (maps_are c) (sys f)"
  by (auto simp: keeps_def sys_def maps_are_def split: prod.split)

lemma keeps_liftR [keeps_rules]: "keeps P (liftR r)"
  by (simp add: keeps_def liftR_def)

lemma keeps_thenS [keeps_rules]: "keeps P a \<Longrightarrow> keeps P b \<Longrightarrow> keeps P (thenS a b)"
  unfolding thenS_def by (intro keeps_rules)

lemma keeps_raw_close [keeps_rules]: "keeps (maps_are c) (raw_close k fd)"
  unfolding raw_close_def by (intro keeps_rules)

lemma keeps_raw_openat [keeps_rules]: "keeps (maps_are c) (raw_openat k fd p f)"
  unfolding raw_openat_def by (intro keeps_rules)

lemma keeps_open_mapped [keeps_rules]: "keeps (maps_are c) (open_mapped k fds mp fl)"
  unfolding open_mapped_def by (auto intro: keeps_rules split: option.split)

lemma keeps_open_profile_or_store [keeps_rules]:
  "keeps (maps_are c) (open_profile_or_store k fds cl fl)"
  unfolding open_profile_or_store_def by (auto intro!: keeps_rules split: option.split)

lemma keeps_open_fd [keeps_rules]: "keeps (maps_are c) (open_fd k fds p fl)"
  unfolding open_fd_def Let_def
  by (auto intro!: keeps_rules split: option.split simp del: option.case)

text \<open>The result of a sequence, taken apart.\<close>

lemma with_file_InrE:
  assumes "with_file k fd m s = (Inr r, s')"
  obtains t where "m s = (Inr r, t)"
  using assms
  by (auto simp: with_file_def liftR_def elim!: bindS_InrE attempt_InrE)

section \<open>Mapping tokens\<close>

definition tokens_below :: "'w wstate \<Rightarrow> bool" where
  "tokens_below s \<longleftrightarrow> 1 \<le> next_map_token s \<and> (\<forall>t\<in>dom (active_maps s). 1 \<le> t \<and> t < next_map_token s)"

text \<open>Both mapping routines end by registering a mapping, or fail without touching the table.\<close>

definition reg_post ::
  "u64 \<Rightarrow> (u64 \<rightharpoonup> active_map) \<Rightarrow> mmap_result res \<Rightarrow> 'w wstate \<Rightarrow> bool" where
  "reg_post n maps r s' \<longleftrightarrow>
     (case r of
        Inl _ \<Rightarrow> maps_are (n, maps) s'
      | Inr mr \<Rightarrow> mr_token mr = n \<and> next_map_token s' = max (n + 1) 1
          \<and> (\<exists>am. am_base_addr am = mr_base_addr mr \<and> active_maps s' = maps(n \<mapsto> am)))"

definition registers :: "('w wstate, mmap_result) io \<Rightarrow> bool" where
  "registers m \<longleftrightarrow>
     (\<forall>s. reg_post (next_map_token s) (active_maps s) (fst (m s)) (snd (m s)))"

lemma registersD:
  "registers m \<Longrightarrow> m s = (r, s') \<Longrightarrow> reg_post (next_map_token s) (active_maps s) r s'"
  unfolding registers_def by (metis fst_conv snd_conv)

lemma registers_register_map: "registers (register_map am)"
  by (auto simp: registers_def reg_post_def register_map_def Let_def)

lemma registers_fail: "registers (fail e)"
  by (simp add: registers_def reg_post_def fail_def maps_are_def)

lemma registers_bindS:
  assumes "\<And>c. keeps (maps_are c) m" "\<And>x. registers (f x)"
  shows "registers (bindS m f)"
  unfolding registers_def
proof (intro allI)
  fix s
  obtain q t where q: "m s = (q, t)" by fastforce
  have "maps_are (next_map_token s, active_maps s) t"
    using keepsD[OF assms(1) _ q] by (simp add: maps_are_def)
  then have same: "next_map_token t = next_map_token s" "active_maps t = active_maps s"
    by (simp_all add: maps_are_def)
  show "reg_post (next_map_token s) (active_maps s) (fst (bindS m f s)) (snd (bindS m f s))"
  proof (cases q)
    case (Inl e)
    with q same show ?thesis by (simp add: bindS_def reg_post_def maps_are_def)
  next
    case (Inr x)
    with q have "bindS m f s = f x t" by (simp add: bindS_def)
    with assms(2)[of x] same show ?thesis by (metis registers_def)
  qed
qed

lemma registers_thenS:
  "(\<And>c. keeps (maps_are c) a) \<Longrightarrow> registers b \<Longrightarrow> registers (thenS a b)"
  unfolding thenS_def by (intro registers_bindS keeps_rules)

lemma registers_copy: "registers (copy_path_mapping k fds p off n)"
  unfolding copy_path_mapping_def
  by (intro registers_bindS keeps_rules)
    (auto split: sum.split intro!: registers_bindS registers_thenS registers_register_map
      registers_fail keeps_rules)

lemma registers_mmap: "registers (worker_mmap_path k a fds p off n fl)"
  unfolding worker_mmap_path_def Let_def
  by (auto split: sum.split intro!: registers_bindS registers_copy registers_register_map
      registers_fail keeps_rules)

section \<open>Directory trees and bounded reads\<close>

lemma prefixes_Cons_tl: "tl (prefixes (x # xs)) = map ((#) x) (prefixes xs)"
  by simp

text \<open>The directories a walk creates, in order: every non-empty prefix of the names.\<close>

lemma join_char_app:
  "ws \<noteq> [] \<Longrightarrow> vs \<noteq> [] \<Longrightarrow> join_char c (ws @ vs) = join_char c ws @ c # join_char c vs"
proof (induction ws)
  case (Cons w ws)
  then show ?case by (cases ws; cases vs) auto
qed simp

lemma mkdir_walk_log:
  assumes "\<And>p w. g (snd (mk p w)) = g w @ [f p]" "ns \<noteq> [] \<Longrightarrow> join_char slash ns \<noteq> []"
  shows "g (snd (mkdir_walk mk (join_char slash ns) cs w))
    = g w @ map (\<lambda>q. f (join_char slash (ns @ q))) (tl (prefixes (filter (\<lambda>c. c \<noteq> []) cs)))"
  using assms(2)
proof (induction cs arbitrary: ns w)
  case Nil
  then show ?case by (simp add: ret_def)
next
  case (Cons c cs)
  show ?case
  proof (cases "c = []")
    case True
    with Cons show ?thesis by simp
  next
    case False
    have b: "(if join_char slash ns = [] then c else join_char slash ns @ slash # c)
        = join_char slash (ns @ [c])"
      using Cons.prems by (cases "ns = []") (simp_all add: join_char_app)
    have ne: "join_char slash (ns @ [c]) \<noteq> []"
      using False Cons.prems by (cases "ns = []") (simp_all add: join_char_app)
    obtain r w1 where w1: "mk (join_char slash (ns @ [c])) w = (r, w1)" by fastforce
    have g1: "g w1 = g w @ [f (join_char slash (ns @ [c]))]"
      using assms(1)[of "join_char slash (ns @ [c])" w] w1 by simp
    have "snd (mkdir_walk mk (join_char slash ns) (c # cs) w)
        = snd (mkdir_walk mk (join_char slash (ns @ [c])) cs w1)"
      using False w1 b by (simp add: thenS_def bindS_def attempt_def Let_def)
    then show ?thesis
      using Cons.IH[of "ns @ [c]" w1] ne g1 False
      by (cases "filter (\<lambda>c. c \<noteq> []) cs") (simp_all add: comp_def del: mkdir_walk.simps)
  qed
qed

lemma sys_InrE:
  assumes "sys f s = (Inr r, s')"
  obtains w where "f (os s) = (Inr r, w)" "s' = s\<lparr>os := w\<rparr>"
  using assms by (auto simp: sys_def split: prod.splits)

lemma bounded_read:
  assumes "\<And>fd n w bs w'. f_read k fd n w = (Inr bs, w') \<Longrightarrow> length bs \<le> unat n"
    and "with_file k fd (bindS (map_err (\<lambda>_. EIO) (sys (f_seek_start k fd off))) (\<lambda>_.
           map_err (\<lambda>_. EIO) (sys (f_read k fd n)))) s = (Inr bs, s')"
  shows "length bs \<le> unat n"
  using assms(2) by (auto elim!: with_file_InrE bindS_InrE map_err_InrE sys_InrE dest: assms(1))

lemma ensure_dir_tree_log:
  assumes "\<And>fd p fl w. log (snd (k_openat k fd p fl w)) = log w @ [(fd, p, fl)]"
    and "\<And>fd w. log (snd (k_close k fd w)) = log w"
  shows "log (os (snd (worker_ensure_dir_tree k fds path s))) =
    log (os s) @ map (\<lambda>q. (root_fd fds, join_char slash q, O_CREAT OR O_DIRECTORY OR 0x1ED))
      (tl (prefixes (filter (\<lambda>c. c \<noteq> []) (split_char slash (trim_start_matches slash path)))))"
proof -
  let ?fl = "O_CREAT OR O_DIRECTORY OR 0x1ED :: usize"
  have mk: "log (os (snd (raw_mkdir k fd p w))) = log (os w) @ [(fd, trim_start_matches slash p, ?fl)]"
    for fd p w
    using assms
    by (simp add: raw_mkdir_def raw_openat_def raw_close_def thenS_def bindS_def attempt_def sys_def
        ret_def trim_start_matches_def split: prod.split sum.split)
      (metis snd_conv)
  let ?cs = "filter (\<lambda>c. c \<noteq> []) (split_char slash (trim_start_matches slash path))"
  have walk: "log (os (snd (mkdir_walk (raw_mkdir k (root_fd fds)) [] cs s))) = log (os s)
    @ map (\<lambda>q. (root_fd fds, trim_start_matches slash (join_char slash q), ?fl))
      (tl (prefixes (filter (\<lambda>c. c \<noteq> []) cs)))" for cs
    using mkdir_walk_log[of "\<lambda>w. log (os w)" "raw_mkdir k (root_fd fds)"
        "\<lambda>p. (root_fd fds, trim_start_matches slash p, ?fl)" "[]" cs s] mk by simp
  have "trim_start_matches slash (join_char slash q) = join_char slash q"
    if "q \<in> set (tl (prefixes ?cs))" for q
  proof (cases q)
    case (Cons c q')
    have "prefix q ?cs"
      using that by (metis in_set_prefixes list.set_sel(2) prefixes_not_Nil)
    then have "c \<in> set ?cs"
      using Cons by (metis list.set_intros(1) set_mono_prefix subsetD)
    then have "c \<noteq> []" "hd c \<noteq> slash"
      using split_char_no_sep by (auto, metis list.set_sel(1))
    then show ?thesis
      using Cons by (intro trim_start_id) (simp add: join_char_hd)
  qed simp
  then have m: "map (\<lambda>q. (root_fd fds, trim_start_matches slash (join_char slash q), ?fl)) (tl (prefixes ?cs))
      = map (\<lambda>q. (root_fd fds, join_char slash q, ?fl)) (tl (prefixes ?cs))"
    by (intro map_cong) auto
  have "snd (worker_ensure_dir_tree k fds path s)
      = snd (mkdir_walk (raw_mkdir k (root_fd fds)) [] (split_char slash (trim_start_matches slash path)) s)"
    by (simp add: worker_ensure_dir_tree_def mkdir_p_via_root_fd_def thenS_def bindS_def attempt_def
        ret_def split: prod.split)
  then show ?thesis
    using walk[of "split_char slash (trim_start_matches slash path)"] m by (simp only:)
qed

section \<open>Reading a directory to the end\<close>

lemma worker_parse_readable:
  "worker_parse_raw_dirents kind_of (map Some recs) acc lo
   = (acc @ concat (map (parse_record kind_of) recs), if recs = [] then lo else Some (fst (last recs)))"
  by (induction recs arbitrary: acc lo) auto

lemma raw_close_ok: "\<exists>s'. bindS (raw_close k fd) (\<lambda>_. ret x) s = (Inr x, s')"
  by (simp add: raw_close_def thenS_def bindS_def attempt_def ret_def split: prod.split)

text \<open>The kernel pages through the records \<open>es\<close>: the opaque offset counts the records served.\<close>

definition pages_through :: "'w kernel \<Rightarrow> usize \<Rightarrow> (u64 \<times> string \<times> nat) list \<Rightarrow> bool" where
  "pages_through k fd es \<longleftrightarrow> length es < 2 ^ 64 \<and> (\<forall>j<length es. fst (es ! j) = of_nat (j + 1))
     \<and> (\<forall>len q w. \<exists>raw w'. k_getdents k fd len q w = (Inr raw, w')
          \<and> (raw = [] \<longleftrightarrow> length es \<le> unat q)
          \<and> (raw \<noteq> [] \<longrightarrow> (\<exists>m>0. dirent_iter k raw = map Some (take m (drop (unat q) es)))))"

lemma read_dir_loop_from:
  assumes "pages_through k fd es" "unat q \<le> length es"
  shows "\<exists>s'. read_dir_loop k fd len q acc s
    = Some (Inr (acc @ concat (map (parse_record (dirent_kind_of k)) (drop (unat q) es))), s')"
  using assms(2)
proof (induction "length es - unat q" arbitrary: q acc s rule: less_induct)
  case less
  obtain raw w' where g: "k_getdents k fd len q (os s) = (Inr raw, w')"
    and raw: "raw = [] \<longleftrightarrow> length es \<le> unat q"
    and it: "raw \<noteq> [] \<longrightarrow> (\<exists>m>0. dirent_iter k raw = map Some (take m (drop (unat q) es)))"
    using assms(1) unfolding pages_through_def by blast
  show ?case
  proof (cases "raw = []")
    case True
    then show ?thesis
      using g raw raw_close_ok[of k fd acc]
      by (subst read_dir_loop.simps) (simp add: sys_def)
  next
    case False
    then obtain m where m: "0 < m" "dirent_iter k raw = map Some (take m (drop (unat q) es))"
      using it by blast
    let ?n = "min m (length es - unat q)" and ?recs = "take m (drop (unat q) es)"
    have n: "0 < ?n" "unat q + ?n \<le> length es" using False raw m less.prems by auto
    have ne: "?recs \<noteq> []" using False raw m by simp
    have "last ?recs = es ! (unat q + ?n - 1)"
      using ne n by (simp add: last_conv_nth min_def)
    moreover obtain j where j: "unat q + ?n = j + 1" using n(1) by (cases "unat q + ?n") auto
    moreover have "fst (es ! j) = of_nat (j + 1)"
      using assms(1) n(2) j unfolding pages_through_def by simp
    ultimately have lst: "fst (last ?recs) = of_nat (unat q + ?n)"
      by (simp only: diff_add_inverse2)
    have "unat q + ?n < 2 ^ 64" using n assms(1) unfolding pages_through_def by simp
    then have u: "unat (fst (last ?recs)) = unat q + ?n"
      unfolding lst by (simp only: unat_of_nat) simp
    have "\<exists>s'. read_dir_loop k fd len (fst (last ?recs)) (acc @ concat (map (parse_record (dirent_kind_of k)) ?recs)) (s\<lparr>os := w'\<rparr>)
      = Some (Inr ((acc @ concat (map (parse_record (dirent_kind_of k)) ?recs))
          @ concat (map (parse_record (dirent_kind_of k)) (drop (unat (fst (last ?recs))) es))), s')"
    proof (rule less.hyps)
      show "length es - unat (fst (last ?recs)) < length es - unat q" "unat (fst (last ?recs)) \<le> length es"
        unfolding u using n by linarith+
    qed
    moreover have "drop (unat q) es = ?recs @ drop (unat (fst (last ?recs))) es"
      using u by (simp add: min_def add.commute) (metis append_take_drop_id drop_drop add.commute)
    then have "concat (map (parse_record (dirent_kind_of k)) (drop (unat q) es))
        = concat (map (parse_record (dirent_kind_of k)) ?recs)
          @ concat (map (parse_record (dirent_kind_of k)) (drop (unat (fst (last ?recs))) es))"
      by (metis concat_append map_append)
    ultimately show ?thesis
      using g False m(2) ne
      by (subst read_dir_loop.simps) (simp add: sys_def worker_parse_readable)
  qed
qed

section \<open>A concrete kernel\<close>

text \<open>
  One file whose descriptor is 3: opens are recorded, reads return the start of the content,
  mappings are at address 4096.
\<close>

definition sample_abi :: abi where
  "sample_abi = \<lparr>O_SYMLINK = 0x40000000, MODE_PERM = 0xFFF, MODE_DIR = 0x4000, MODE_FILE = 0x8000,
     AT_REMOVEDIR = 0x200, PROT_WRITE = 0x20000, PROT_EXEC = 0x10000, MAP_SHARED = 1,
     PAGE_SIZE = 4096, F_DUPFD = 0, F_DUPFD_CLOEXEC = 1030, F_GETFD = 1, F_SETFD = 2, F_GETFL = 3,
     F_SETFL = 4\<rparr>"

definition sample_stat :: "u16 \<Rightarrow> u64 \<Rightarrow> stat" where
  "sample_stat mode n = \<lparr>st_dev = 0, st_ino = 1, st_mode = mode, st_nlink = 1, st_uid = 0, st_gid = 0,
     st_size = n, st_blksize = 4096, st_blocks = 1, st_mtime = 0, st_atime = 0, st_ctime = 0\<rparr>"

type_synonym open_log = "(usize \<times> string \<times> usize) list"

definition sample_kernel :: "stat \<Rightarrow> bytes \<Rightarrow> open_log kernel" where
  "sample_kernel st content =
     \<lparr>k_openat = (\<lambda>fd p fl l. (Inr 3, l @ [(fd, p, fl)])), k_dup = (\<lambda>fd. ret fd),
      k_close = (\<lambda>_. ret ()), k_fstat = (\<lambda>_. ret st), k_fpath = (\<lambda>_. fail EBADF),
      k_fchmod = (\<lambda>_ _. ret ()), k_unlinkat = (\<lambda>_ _ _. ret ()), k_frename = (\<lambda>_ _. ret ()),
      k_flink = (\<lambda>_ _. ret ()), k_fmap = (\<lambda>_ _ _ _. ret 4096), k_funmap = (\<lambda>_ _. ret ()),
      k_anon_map = (\<lambda>_. ret 4096), k_anon_unmap = (\<lambda>_ _. ret ()), k_fill = (\<lambda>_ _ _ _. ret ()),
      k_getdents = (\<lambda>_ _ _. ret []), dirent_iter = (\<lambda>_. []), dirent_kind_of = (\<lambda>_. None), f_seek_start = (\<lambda>_ _. ret ()), f_seek_end = (\<lambda>_. ret 0),
      f_read = (\<lambda>_ n. ret (take (unat n) content)), f_write = (\<lambda>_ d. ret (of_nat (length d))),
      f_set_len = (\<lambda>_ _. ret ())\<rparr>"

definition sample_fds :: worker_fds where
  "sample_fds = \<lparr>root_fd = 10, profile_root_fd = Some 11, store_root_fd = Some 12,
     dev_null_fd = None, dev_urandom_fd = None, rustlib_root = None, rustlib_dir_cache = []\<rparr>"

definition sample_wstate :: "open_log wstate" where
  "sample_wstate = \<lparr>os = [], next_map_token = 1, active_maps = Map.empty\<rparr>"

lemmas sample_defs = sample_abi_def sample_stat_def sample_kernel_def sample_fds_def sample_wstate_def

section \<open>Properties\<close>

text \<open>
  Mapping tokens identify mappings. As long as the counter has not wrapped, a successful
  \<^verbatim>\<open>worker_mmap_path\<close> returns a token that was not in use, adds exactly that entry to the table
  and keeps the counter above every live token; releasing the token afterwards restores the
  table of the time before.
\<close>

theorem mmap_token_fresh_and_released:
  assumes "tokens_below s" "next_map_token s \<noteq> - 1"
    and "worker_mmap_path k a fds path offset n flags s = (Inr mr, s1)"
  shows "active_maps s (mr_token mr) = None \<and> mr_token mr \<noteq> 0
    \<and> dom (active_maps s1) = insert (mr_token mr) (dom (active_maps s))
    \<and> tokens_below s1
    \<and> active_maps (snd (worker_munmap_token k (mr_token mr) s1)) = active_maps s"
proof -
  obtain am where tok: "mr_token mr = next_map_token s"
    and nxt: "next_map_token s1 = max (next_map_token s + 1) 1"
    and am: "active_maps s1 = (active_maps s)(next_map_token s \<mapsto> am)"
    using registersD[OF registers_mmap assms(3)] by (auto simp: reg_post_def)
  have fresh: "active_maps s (next_map_token s) = None"
    using assms(1) by (auto simp: tokens_below_def domIff)
  have ge: "1 \<le> next_map_token s" using assms(1) by (simp add: tokens_below_def)
  have lt: "next_map_token s < next_map_token s + 1"
    using assms(2) by (rule word_less_succ)
  have mx: "max (next_map_token s + 1) 1 = next_map_token s + 1"
    by (rule max.absorb1) (rule order.trans[OF ge order.strict_implies_order[OF lt]])
  have tb: "tokens_below s1"
    using assms(1) lt ge unfolding tokens_below_def nxt mx am
    by (auto intro: less_trans order.trans[OF ge])
  have "maps_are (next_map_token s1, (active_maps s1)(next_map_token s := None))
      (snd (worker_munmap_token k (next_map_token s) s1))"
  proof -
    let ?t = "s1\<lparr>active_maps := (active_maps s1)(next_map_token s := None)\<rparr>"
    have "maps_are (next_map_token s1, (active_maps s1)(next_map_token s := None)) ?t"
      by (simp add: maps_are_def)
    moreover have "keeps (maps_are c) (if am_anonymous am
        then thenS (sys (k_anon_unmap k (am_base_addr am) (am_len am))) (ret ())
        else bindS (sys (k_funmap k (am_base_addr am) (am_len am)))
               (\<lambda>_. raw_close k (am_backing_fd am)))" for c
      by (auto intro!: keeps_rules)
    ultimately show ?thesis
      using am by (simp add: worker_munmap_token_def keeps_def Let_def if_distribR)
  qed
  then have "active_maps (snd (worker_munmap_token k (next_map_token s) s1)) = active_maps s"
    using am fresh by (auto simp: maps_are_def)
  with fresh am tb tok ge show ?thesis by auto
qed

theorem mmap_token_fresh_and_released_witness:
  "\<exists>mr s1. worker_mmap_path (sample_kernel (sample_stat 0x8000 4) [1, 2, 3, 4]) sample_abi sample_fds
       ''/usr/lib/libc.so'' 0 100 0x10000 sample_wstate = (Inr mr, s1)
     \<and> active_maps sample_wstate (mr_token mr) = None
     \<and> active_maps (snd (worker_munmap_token (sample_kernel (sample_stat 0x8000 4) [1, 2, 3, 4])
          (mr_token mr) s1)) = active_maps sample_wstate"
proof -
  let ?k = "sample_kernel (sample_stat 0x8000 4) [1, 2, 3, 4]"
  have tb: "tokens_below sample_wstate" "next_map_token sample_wstate \<noteq> - 1"
    by (simp_all add: tokens_below_def sample_wstate_def)
  obtain mr s1 where run: "worker_mmap_path ?k sample_abi sample_fds ''/usr/lib/libc.so'' 0 100 0x10000
      sample_wstate = (Inr mr, s1)"
    by (simp add: worker_mmap_path_def is_mutable_path_def IMMUTABLE_def starts_with_def
        flags_contain_def open_fd_def strip_prefix_def trim_start_matches_def
        open_profile_or_store_def raw_openat_def sys_def bindS_def attempt_def ret_def
        register_map_def Let_def sample_kernel_def sample_fds_def sample_wstate_def sample_abi_def)
  show ?thesis
    using mmap_token_fresh_and_released[OF tb run] run by blast
qed

text \<open>
  Directories are created parent first. Whatever the kernel answers, ensuring a
  directory tree opens-or-creates, relative to the root descriptor, exactly the non-empty
  prefixes of the path's names, shortest first.
\<close>

theorem ensure_dir_tree_parent_first:
  assumes "\<And>fd p fl w. log (snd (k_openat k fd p fl w)) = log w @ [(fd, p, fl)]"
    and "\<And>fd w. log (snd (k_close k fd w)) = log w"
  shows "log (os (snd (worker_ensure_dir_tree k fds path s))) =
    log (os s) @ map (\<lambda>q. (root_fd fds, join_char slash q, O_CREAT OR O_DIRECTORY OR 0x1ED))
      (tl (prefixes (filter (\<lambda>c. c \<noteq> []) (split_char slash (trim_start_matches slash path)))))"
  by (rule ensure_dir_tree_log) (rule assms)+

theorem ensure_dir_tree_parent_first_witness:
  "os (snd (worker_ensure_dir_tree (sample_kernel (sample_stat 0 0) []) sample_fds ''/out//lib''
     sample_wstate))
   = [(10, ''out'', O_CREAT OR O_DIRECTORY OR 0x1ED), (10, ''out/lib'', O_CREAT OR O_DIRECTORY OR 0x1ED)]"
  using ensure_dir_tree_parent_first[of "\<lambda>l. l" "sample_kernel (sample_stat 0 0) []" sample_fds
      "''/out//lib''" sample_wstate]
  by (simp add: sample_kernel_def sample_fds_def sample_wstate_def ret_def trim_start_matches_def)

text \<open>
  Reads are bounded. If the kernel never returns more bytes than asked for, the worker
  never returns more than the requested length, and for a regular file never more than what
  is left between the offset and the end of the file.
\<close>

theorem read_at_bounded:
  assumes "\<And>fd n w bs w'. f_read k fd n w = (Inr bs, w') \<Longrightarrow> length bs \<le> unat n"
    and "\<And>fd w. fst (k_fstat k fd w) = Inr st"
    and "worker_read_at k a fds path offset len symlink s = (Inr bs, s')"
  shows "length bs \<le> unat len
    \<and> (trim_start_matches slash path \<noteq> ''dev/zero'' \<and> st_mode st AND MODE_FILE a \<noteq> 0
       \<longrightarrow> length bs \<le> unat (st_size st) - unat offset)"
proof -
  let ?n = "read_limit a (Inr st) offset len"
  have stat: "fst (raw_fstat k fd w) = Inr st" for fd w
    using assms(2)[of fd "os w"] by (simp add: raw_fstat_def sys_def split: prod.split) (metis fst_conv)
  consider (null) "trim_start_matches slash path = ''dev/null''"
    | (zero) "trim_start_matches slash path = ''dev/zero''"
    | (other) "trim_start_matches slash path \<noteq> ''dev/null''" "trim_start_matches slash path \<noteq> ''dev/zero''"
    by blast
  then show ?thesis
  proof cases
    case other
    obtain fd s1 where fd: "open_fd k fds path (if symlink then O_RDONLY OR O_SYMLINK a else O_RDONLY) s
        = (Inr fd, s1)"
      using assms(3) other by (auto simp: worker_read_at_def elim!: bindS_InrE)
    obtain s2 where st: "raw_fstat k fd s1 = (Inr st, s2)"
      using stat[of fd s1] by (metis prod.collapse)
    have rest: "(if ?n = 0 then bindS (raw_close k fd) (\<lambda>_. ret [])
        else with_file k fd
          (bindS (map_err (\<lambda>_. EIO) (sys (f_seek_start k fd offset))) (\<lambda>_.
           map_err (\<lambda>_. EIO) (sys (f_read k fd ?n))))) s2 = (Inr bs, s')"
      using assms(3) other fd st
      by (simp add: worker_read_at_def bindS_Inr bindS_attempt Let_def)
    have "length bs \<le> unat ?n"
    proof (cases "?n = 0")
      case True
      with rest show ?thesis by (auto simp: ret_def elim!: bindS_InrE)
    next
      case False
      with rest show ?thesis by (simp only: if_False) (rule bounded_read[OF assms(1)])
    qed
    moreover have "unat ?n \<le> unat len"
      by (simp add: read_limit_def min_def word_le_nat_alt Let_def)
    moreover have "unat ?n \<le> unat (st_size st) - unat offset"
      if "st_mode st AND MODE_FILE a \<noteq> 0"
      using that by (auto simp: read_limit_def min_def word_le_nat_alt unat_sub Let_def)
    ultimately show ?thesis by fastforce
  qed (use assms(3) in \<open>auto simp: worker_read_at_def ret_def\<close>)
qed

theorem read_at_bounded_witness:
  "fst (worker_read_at (sample_kernel (sample_stat 0x8000 4) [1, 2, 3, 4]) sample_abi sample_fds
      ''/etc/hostname'' 0 3 False sample_wstate) = Inr [1, 2, 3]
   \<and> length [1 :: 8 word, 2, 3] \<le> unat (3 :: usize)"
proof -
  let ?k = "sample_kernel (sample_stat 0x8000 4) [1, 2, 3, 4]"
  obtain s' where run: "worker_read_at ?k sample_abi sample_fds ''/etc/hostname'' 0 3 False sample_wstate
      = (Inr [1, 2, 3], s')"
    by (simp add: worker_read_at_def read_limit_def open_fd_def strip_prefix_def trim_start_matches_def
        open_profile_or_store_def raw_openat_def raw_fstat_def raw_close_def with_file_def liftR_def
        thenS_def map_err_def sys_def bindS_def attempt_def ret_def Let_def sample_defs)
  have "length [1 :: 8 word, 2, 3] \<le> unat (3 :: usize)"
    using read_at_bounded[OF _ _ run, of "sample_stat 0x8000 4"]
    by (simp add: sample_kernel_def ret_def)
  with run show ?thesis by simp
qed



definition paging_kernel :: "open_log kernel" where
  "paging_kernel = (sample_kernel (sample_stat 0x4000 0) [])
     \<lparr>k_getdents := (\<lambda>_ _ q. ret (if q = 0 then ''p0'' else if q = 1 then ''p1'' else [])),
      dirent_iter := (\<lambda>raw. if raw = ''p0'' then [Some (1, ''..'', 4)] else [Some (2, ''bin'', 4)]),
      dirent_kind_of := (\<lambda>n. if n = 4 then Some Directory else None)\<rparr>"


end
