(* ===== verification/Dirents.thy ===== *)
theory Dirents
  imports Io_Worker
begin

text \<open>
  Directory listings as the scheme daemons serve them: the pagination loop that all three
  \<^verbatim>\<open>getdents\<close> handlers share, and the parser of raw \<^verbatim>\<open>getdents\<close> buffers of
  \<^verbatim>\<open>build_proxy/handler.rs\<close>. The kernel's \<^verbatim>\<open>DirentBuf\<close> is a parameter: \<open>push\<close> appends one record or
  fails when it does not fit.
\<close>

section \<open>Serving a listing\<close>

record dirent =
  d_inode :: u64
  d_next_opaque_id :: u64
  d_name :: string
  d_kind :: dirent_kind

definition mk_dirent :: "nat \<Rightarrow> string \<times> dirent_kind \<Rightarrow> dirent" where
  "mk_dirent i e = \<lparr>d_inode = 0, d_next_opaque_id = of_nat (i + 1), d_name = fst e, d_kind = snd e\<rparr>"

fun emit_dirents ::
  "('b \<Rightarrow> dirent \<Rightarrow> 'b option) \<Rightarrow> 'b \<Rightarrow> nat \<Rightarrow> (string \<times> dirent_kind) list \<Rightarrow> 'b" where
  "emit_dirents push buf i [] = buf"
| "emit_dirents push buf i (e # es) =
     (case push buf (mk_dirent i e) of
        None \<Rightarrow> buf
      | Some buf' \<Rightarrow> emit_dirents push buf' (Suc i) es)"

definition list_entries ::
  "('b \<Rightarrow> dirent \<Rightarrow> 'b option) \<Rightarrow> 'b \<Rightarrow> u64 \<Rightarrow> (string \<times> dirent_kind) list \<Rightarrow> 'b" where
  "list_entries push buf opaque_offset es =
     (let start = unat opaque_offset in emit_dirents push buf start (drop start es))"

section \<open>Parsing raw directory records\<close>

definition u16_le :: "string \<Rightarrow> nat" where
  "u16_le bs = byte_of (bs ! 0) + 256 * byte_of (bs ! 1)"

definition record_name :: "string \<Rightarrow> string" where
  "record_name name_bytes = takeWhile (\<lambda>c. c \<noteq> CHR 0x00) name_bytes"

definition parsed_record ::
  "(nat \<Rightarrow> dirent_kind option) \<Rightarrow> string \<Rightarrow> nat \<Rightarrow> (string \<times> dirent_kind) list" where
  "parsed_record kind_of name_bytes kind_byte =
     (let name = record_name name_bytes in
      if utf8_valid name \<and> name \<noteq> [] \<and> name \<noteq> ''.'' \<and> name \<noteq> ''..''
      then [(name, case kind_of kind_byte of Some kd \<Rightarrow> kd | None \<Rightarrow> Regular)] else [])"

function parse_raw_dirents ::
  "(nat \<Rightarrow> dirent_kind option) \<Rightarrow> string \<Rightarrow> nat \<Rightarrow> (string \<times> dirent_kind) list" where
  "parse_raw_dirents kind_of buf pos =
     (if pos + 19 \<le> length buf then
        let record_len = u16_le (take 2 (drop (pos + 16) buf));
            kind_byte = byte_of (buf ! (pos + 18)) in
        if record_len = 0 \<or> length buf < pos + record_len then []
        else
          (if pos + 19 < pos + record_len
           then parsed_record kind_of (take (record_len - 19) (drop (pos + 19) buf)) kind_byte
           else [])
          @ parse_raw_dirents kind_of buf (pos + record_len)
      else [])"
  by pat_completeness auto
termination
  by (relation "measure (\<lambda>(kind_of, buf, pos). length buf - pos)") auto

declare parse_raw_dirents.simps [simp del]

text \<open>The layout the parser reads: header of 19 bytes, the name, a terminating zero.\<close>

definition le_bytes :: "nat \<Rightarrow> nat \<Rightarrow> string" where
  "le_bytes n v = map (\<lambda>i. char_of (v div 256 ^ i mod 256)) [0..<n]"

definition encode_dirent :: "nat \<times> nat \<times> string \<times> nat \<Rightarrow> string" where
  "encode_dirent d = (case d of (inode, next_id, name, kind) \<Rightarrow>
     le_bytes 8 inode @ le_bytes 8 next_id @ le_bytes 2 (length name + 20) @ [char_of kind]
     @ name @ [CHR 0x00])"

definition plain_name :: "string \<Rightarrow> bool" where
  "plain_name name \<longleftrightarrow> utf8_valid name \<and> name \<noteq> [] \<and> name \<noteq> ''.'' \<and> name \<noteq> ''..''
     \<and> CHR 0x00 \<notin> set name \<and> length name < 65516"

lemma length_le_bytes [simp]: "length (le_bytes n v) = n"
  by (simp add: le_bytes_def)

lemma byte_of_char_of [simp]: "byte_of (char_of n) = n mod 256"
  by (simp add: byte_of_def)

lemma u16_le_bytes: "v < 65536 \<Longrightarrow> u16_le (le_bytes 2 v) = v"
  by (simp add: u16_le_def le_bytes_def numeral_2_eq_2 upt_rec)

lemma takeWhile_sentinel: "c \<notin> set xs \<Longrightarrow> takeWhile (\<lambda>x. x \<noteq> c) (xs @ [c]) = xs"
  by (induction xs) auto

lemma length_encode: "length (encode_dirent (a, b, name, k)) = length name + 20"
  by (simp add: encode_dirent_def)

lemma encode_fields:
  assumes "pos = length pre"
  shows "take 2 (drop (pos + 16) (pre @ encode_dirent (a, b, name, k) @ rest))
           = le_bytes 2 (length name + 20)"
    and "(pre @ encode_dirent (a, b, name, k) @ rest) ! (pos + 18) = char_of k"
    and "take (length name + 1) (drop (pos + 19) (pre @ encode_dirent (a, b, name, k) @ rest))
           = name @ [CHR 0x00]"
  using assms by (simp_all add: encode_dirent_def nth_append)

lemma parse_encode_step:
  assumes "plain_name name" "k < 256" "pos = length pre"
  shows "parse_raw_dirents kind_of (pre @ encode_dirent (a, b, name, k) @ rest) pos
    = (name, case kind_of k of Some kd \<Rightarrow> kd | None \<Rightarrow> Regular)
      # parse_raw_dirents kind_of (pre @ encode_dirent (a, b, name, k) @ rest) (pos + (length name + 20))"
proof -
  let ?buf = "pre @ encode_dirent (a, b, name, k) @ rest"
  have len: "length ?buf = pos + (length name + 20) + length rest"
    using assms(3) by (simp add: length_encode)
  have rl: "u16_le (take 2 (drop (pos + 16) ?buf)) = length name + 20"
    unfolding encode_fields(1)[OF assms(3)]
    using assms(1) by (simp add: u16_le_bytes plain_name_def)
  have kb: "byte_of (?buf ! (pos + 18)) = k"
    unfolding encode_fields(2)[OF assms(3)] using assms(2) by simp
  have "takeWhile (\<lambda>c. c \<noteq> CHR 0x00) (name @ [CHR 0x00]) = name"
    using assms(1) by (intro takeWhile_sentinel) (simp add: plain_name_def)
  then have pr: "parsed_record kind_of (take (length name + 20 - 19) (drop (pos + 19) ?buf)) k
      = [(name, case kind_of k of Some kd \<Rightarrow> kd | None \<Rightarrow> Regular)]"
    using encode_fields(3)[OF assms(3), of name a b k rest] assms(1)
    by (simp add: parsed_record_def record_name_def plain_name_def)
  show ?thesis
    using len by (subst parse_raw_dirents.simps) (simp only: rl kb pr Let_def, simp)
qed

lemma parse_encode_from:
  assumes "list_all (\<lambda>(a, b, name, k). plain_name name \<and> k < 256) es"
  shows "parse_raw_dirents kind_of (pre @ concat (map encode_dirent es)) (length pre)
    = map (\<lambda>(a, b, name, k). (name, case kind_of k of Some kd \<Rightarrow> kd | None \<Rightarrow> Regular)) es"
  using assms
proof (induction es arbitrary: pre)
  case Nil
  then show ?case by (subst parse_raw_dirents.simps) simp
next
  case (Cons e es)
  obtain a b name k where e: "e = (a, b, name, k)" by (cases e)
  have pn: "plain_name name" "k < 256" using Cons.prems e by simp_all
  have "parse_raw_dirents kind_of (pre @ concat (map encode_dirent (e # es))) (length pre)
    = (name, case kind_of k of Some kd \<Rightarrow> kd | None \<Rightarrow> Regular)
      # parse_raw_dirents kind_of ((pre @ encode_dirent e) @ concat (map encode_dirent es))
          (length (pre @ encode_dirent e))"
    using parse_encode_step[OF pn refl, of kind_of pre a b] by (simp add: e length_encode)
  also have "\<dots> = map (\<lambda>(a, b, name, k). (name, case kind_of k of Some kd \<Rightarrow> kd | None \<Rightarrow> Regular)) (e # es)"
    using Cons.IH[of "pre @ encode_dirent e"] Cons.prems e by simp
  finally show ?case .
qed

section \<open>Paging through a listing\<close>

lemma emit_dirents_prefix:
  assumes "\<And>b d b'. push b d = Some b' \<Longrightarrow> contents b' = contents b @ [d]"
  shows "\<exists>n \<le> length es. contents (emit_dirents push buf i es)
    = contents buf @ map (\<lambda>j. mk_dirent (i + j) (es ! j)) [0..<n]"
proof (induction es arbitrary: buf i)
  case Nil
  then show ?case by simp
next
  case (Cons e es)
  show ?case
  proof (cases "push buf (mk_dirent i e)")
    case None
    then show ?thesis by (intro exI[of _ 0]) simp
  next
    case (Some buf')
    obtain n where n: "n \<le> length es" "contents (emit_dirents push buf' (Suc i) es)
        = contents buf' @ map (\<lambda>j. mk_dirent (Suc i + j) (es ! j)) [0..<n]"
      using Cons.IH[of buf' "Suc i"] by blast
    have "[0..<Suc n] = 0 # map Suc [0..<n]"
      by (metis map_Suc_upt upt_conv_Cons zero_less_Suc)
    with n Some assms[OF Some] show ?thesis
      by (intro exI[of _ "Suc n"]) (simp add: comp_def)
  qed
qed

lemma emit_dirents_progress:
  assumes "\<And>b d b'. push b d = Some b' \<Longrightarrow> contents b' = contents b @ [d]"
    and "contents buf = []" "\<And>d. push buf d \<noteq> None" "es \<noteq> []"
  shows "contents (emit_dirents push buf i es) \<noteq> []"
proof -
  obtain e es' where es: "es = e # es'" using assms(4) by (cases es) auto
  obtain b' where b': "push buf (mk_dirent i e) = Some b'" using assms(3) by blast
  show ?thesis
    using emit_dirents_prefix[of push contents es' b' "Suc i", OF assms(1)] assms(1)[OF b'] b'
    by (auto simp: es)
qed

text \<open>
  A client that reads page after page, each from the opaque offset of the last record it
  got, until a page is empty. The fuel bounds the number of pages.
\<close>

fun read_pages ::
  "('b \<Rightarrow> dirent \<Rightarrow> 'b option) \<Rightarrow> ('b \<Rightarrow> dirent list) \<Rightarrow> 'b \<Rightarrow> nat \<Rightarrow> u64
   \<Rightarrow> (string \<times> dirent_kind) list \<Rightarrow> dirent list option" where
  "read_pages push contents buf 0 off es = None"
| "read_pages push contents buf (Suc fuel) off es =
     (let page = contents (list_entries push buf off es) in
      if page = [] then Some []
      else map_option ((@) page) (read_pages push contents buf fuel (d_next_opaque_id (last page)) es))"

lemma read_pages_all:
  assumes push: "\<And>b d b'. push b d = Some b' \<Longrightarrow> contents b' = contents b @ [d]"
    and empty: "contents buf = []" "\<And>d. push buf d \<noteq> None"
    and small: "length es < 2 ^ 64"
    and off: "unat off \<le> length es" and fuel: "length es - unat off < fuel"
  shows "read_pages push contents buf fuel off es
    = Some (map (\<lambda>j. mk_dirent j (es ! j)) [unat off..<length es])"
  using off fuel
proof (induction fuel arbitrary: off)
  case 0
  then show ?case by simp
next
  case (Suc fuel)
  let ?s = "unat off"
  obtain n where n: "n \<le> length es - ?s"
    and c: "contents (list_entries push buf off es) = map (\<lambda>j. mk_dirent (?s + j) (es ! (?s + j))) [0..<n]"
    using emit_dirents_prefix[of push contents "drop ?s es" buf ?s, OF push] empty(1) Suc.prems(1)
    by (auto simp: list_entries_def Let_def nth_drop)
  have sh: "map (\<lambda>j. mk_dirent (?s + j) (es ! (?s + j))) [0..<n] = map (\<lambda>j. mk_dirent j (es ! j)) [?s..<?s + n]"
    by (rule nth_equalityI) simp_all
  show ?case
  proof (cases "?s < length es")
    case False
    with n have "n = 0" by simp
    with False Suc.prems c show ?thesis by simp
  next
    case True
    then have "contents (list_entries push buf off es) \<noteq> []"
      using emit_dirents_progress[of push contents buf "drop ?s es" ?s] push empty
      by (simp add: list_entries_def Let_def)
    with c have np: "0 < n" by (cases n) auto
    let ?o = "d_next_opaque_id (last (contents (list_entries push buf off es)))"
    have "last (map (\<lambda>j. mk_dirent j (es ! j)) [?s..<?s + n]) = mk_dirent (?s + n - 1) (es ! (?s + n - 1))"
      using np by (simp add: last_map)
    then have "?o = of_nat (?s + n)"
      using np c sh by (simp add: mk_dirent_def)
    moreover have "?s + n < 2 ^ 64" using n True small by simp
    ultimately have uo: "unat ?o = ?s + n" by (simp only: unat_of_nat) simp
    have "read_pages push contents buf fuel ?o es = Some (map (\<lambda>j. mk_dirent j (es ! j)) [?s + n..<length es])"
      using Suc.IH[of ?o] uo n np True Suc.prems by simp
    moreover have "[?s..<length es] = [?s..<?s + n] @ [?s + n..<length es]"
      using n True by (metis le_add1 le_add_diff_inverse less_imp_le nat_add_left_cancel_le upt_add_eq_append)
    ultimately show ?thesis
      using np c sh by (simp add: Let_def)
  qed
qed

section \<open>Properties\<close>

text \<open>
  C37: the raw record parser inverts the documented layout. Parsing the concatenation of
  encoded records returns exactly their names and kinds in order, for names that are valid
  UTF-8, non-empty, free of zero bytes, not \<^verbatim>\<open>.\<close> or \<^verbatim>\<open>..\<close> and short enough for the 16-bit length.
\<close>

theorem parse_raw_dirents_roundtrip:
  assumes "list_all (\<lambda>(inode, next_id, name, kind). plain_name name \<and> kind < 256) es"
  shows "parse_raw_dirents kind_of (concat (map encode_dirent es)) 0
    = map (\<lambda>(inode, next_id, name, kind).
        (name, case kind_of kind of Some kd \<Rightarrow> kd | None \<Rightarrow> Regular)) es"
  using parse_encode_from[OF assms, of kind_of "[]"] by simp

theorem parse_raw_dirents_roundtrip_witness:
  "parse_raw_dirents (\<lambda>k. if k = 4 then Some Directory else None)
     (encode_dirent (7, 1, ''bin'', 4) @ encode_dirent (9, 2, ''rg'', 8)) 0
   = [(''bin'', Directory), (''rg'', Regular)]"
  using parse_raw_dirents_roundtrip[of "[(7, 1, ''bin'', 4), (9, 2, ''rg'', 8)]"
      "\<lambda>k. if k = 4 then Some Directory else None"]
  by (simp add: plain_name_def byte_of_def)

text \<open>
  C38: paging is complete. A client that starts at offset 0 and resumes each time from the
  opaque offset of the last record receives every entry of the listing exactly once and in
  order, provided an empty buffer takes at least one record; \<open>length es + 1\<close> pages are enough.
\<close>

theorem getdents_pages_complete:
  assumes "\<And>b d b'. push b d = Some b' \<Longrightarrow> contents b' = contents b @ [d]"
    and "contents buf = []" "\<And>d. push buf d \<noteq> None" "length es < 2 ^ 64"
  shows "map_option (map (\<lambda>d. (d_name d, d_kind d))) (read_pages push contents buf (length es + 1) 0 es)
    = Some es"
proof -
  have "read_pages push contents buf (length es + 1) 0 es
      = Some (map (\<lambda>j. mk_dirent j (es ! j)) [0..<length es])"
    using read_pages_all[of push contents buf es 0 "length es + 1"] assms by simp
  then show ?thesis
    by (simp add: mk_dirent_def comp_def map_nth)
qed

theorem getdents_pages_complete_witness:
  "map_option (map (\<lambda>d. (d_name d, d_kind d)))
     (read_pages (\<lambda>b d. if length b < 2 then Some (b @ [d]) else None) (\<lambda>b. b) [] (length [(''a'', Regular), (''b'', Directory), (''c'', Symlink)] + 1) 0
        [(''a'', Regular), (''b'', Directory), (''c'', Symlink)])
   = Some [(''a'', Regular), (''b'', Directory), (''c'', Symlink)]"
  by (rule getdents_pages_complete) (simp_all split: if_splits)

end
