(* ===== verification/Proxy_Handler.thy ===== *)
theory Proxy_Handler
  imports Allow_List Handle_Ids Dirents
begin

text \<open>
  The scheme handler of the build filesystem proxy (\<^verbatim>\<open>snix-redox/src/build_proxy/handler.rs\<close>):
  flag translation, the handle table, every scheme operation, and the bookkeeping of
  mappings. The I/O worker is the record of its client methods; the handler threads the
  worker's state in \<open>bf_world\<close>. Timing warnings and the budgeted log lines are left out.
  An operation that allocates a handle returns \<open>None\<close> when the allocation loop does not end.
\<close>

section \<open>Open flags\<close>

record open_flags =
  of_read :: bool
  of_write :: bool
  of_create :: bool
  of_truncate :: bool
  of_exclusive :: bool
  of_append :: bool
  of_directory :: bool
  of_symlink :: bool
  of_mode_perm :: usize

definition translate_open_flags :: "abi \<Rightarrow> usize \<Rightarrow> open_flags" where
  "translate_open_flags a raw =
     (let mode = raw AND O_ACCMODE in
      \<lparr>of_read = (mode = O_RDONLY \<or> mode = O_RDWR),
       of_write = (mode = O_WRONLY \<or> mode = O_RDWR),
       of_create = has_flag raw O_CREAT,
       of_truncate = has_flag raw O_TRUNC,
       of_exclusive = has_flag raw O_EXCL,
       of_append = has_flag raw O_APPEND,
       of_directory = has_flag raw O_DIRECTORY,
       of_symlink = has_flag raw (O_SYMLINK a),
       of_mode_perm = raw AND MODE_PERM a\<rparr>)"

definition wants_write :: "open_flags \<Rightarrow> bool" where
  "wants_write fl \<longleftrightarrow> of_write fl \<or> of_create fl \<or> of_truncate fl"

definition flag_if :: "bool \<Rightarrow> usize \<Rightarrow> usize" where
  "flag_if b f = (if b then f else 0)"

definition to_real_flags :: "abi \<Rightarrow> open_flags \<Rightarrow> usize" where
  "to_real_flags a fl =
     (if of_write fl then if of_symlink fl then O_WRONLY else O_RDWR else O_RDONLY)
     OR flag_if (of_create fl) O_CREAT OR flag_if (of_truncate fl) O_TRUNC
     OR flag_if (of_exclusive fl) O_EXCL OR flag_if (of_append fl) O_APPEND
     OR flag_if (of_directory fl) O_DIRECTORY OR flag_if (of_symlink fl) (O_SYMLINK a)
     OR of_mode_perm fl"

section \<open>Handles and state\<close>

record file_handle =
  fh_real_path :: path_buf
  fh_scheme_path :: string
  fh_writable :: bool
  fh_append :: bool
  fh_symlink :: bool
  fh_size :: u64
  fh_mode :: u32

record dir_handle =
  dh_real_path :: path_buf
  dh_scheme_path :: string

datatype proxy_handle = ProxyFile file_handle | ProxyDir dir_handle

record active_map_key =
  mk_handle_id :: usize
  mk_offset :: u64
  mk_size :: usize

text \<open>
  \<open>bf_active_mmaps\<close> lists the entries of the \<^verbatim>\<open>HashMap\<close> in its iteration order, which the
  code does not rely on beyond picking some entry.
\<close>

record 'w handler =
  bf_allow_list :: allow_list
  bf_handles :: "usize \<rightharpoonup> proxy_handle"
  bf_active_mmaps :: "(active_map_key \<times> u64 list) list"
  bf_next_id :: usize
  bf_world :: 'w

definition new_handler :: "allow_list \<Rightarrow> 'w \<Rightarrow> 'w handler" where
  "new_handler al w = \<lparr>bf_allow_list = al, bf_handles = Map.empty, bf_active_mmaps = [],
     bf_next_id = 1, bf_world = w\<rparr>"

definition put_handle :: "usize \<Rightarrow> proxy_handle \<Rightarrow> 'w handler \<Rightarrow> 'w handler" where
  "put_handle i x h = h\<lparr>bf_handles := (bf_handles h)(i \<mapsto> x)\<rparr>"

definition root_handle :: proxy_handle where
  "root_handle = ProxyDir \<lparr>dh_real_path = ''/'', dh_scheme_path = []\<rparr>"

definition install_root_handle :: "usize \<Rightarrow> 'w handler \<Rightarrow> 'w handler" where
  "install_root_handle i h = put_handle i root_handle h"

definition proxy_alloc_id :: "'w handler \<Rightarrow> (usize \<times> 'w handler) option" where
  "proxy_alloc_id h =
     map_option (\<lambda>(hid, n). (hid, h\<lparr>bf_next_id := n\<rparr>))
       (alloc_loop (\<lambda>i. bf_handles h i \<noteq> None) (bf_next_id h))"

interpretation ph: handle_table bf_handles bf_next_id "\<lambda>n h. h\<lparr>bf_next_id := n\<rparr>" put_handle proxy_alloc_id
  by unfold_locales (simp_all add: proxy_alloc_id_def put_handle_def)

definition dup_handle :: "usize \<Rightarrow> ('w handler, usize) pio" where
  "dup_handle old_id h =
     (case proxy_alloc_id h of
        None \<Rightarrow> None
      | Some (new_id, h1) \<Rightarrow>
          (case bf_handles h1 old_id of
             Some x \<Rightarrow> Some (Inr new_id, put_handle new_id x h1)
           | None \<Rightarrow> Some (Inl EBADF, h1)))"

text \<open>A call to the worker.\<close>

definition wrk :: "('w, 'a) io \<Rightarrow> ('w handler, 'a) io" where
  "wrk f = (\<lambda>h. case f (bf_world h) of (r, w) \<Rightarrow> (r, h\<lparr>bf_world := w\<rparr>))"

definition modify :: "('w handler \<Rightarrow> 'w handler) \<Rightarrow> ('w handler, unit) io" where
  "modify f = (\<lambda>h. (Inr (), f h))"

section \<open>Resolving paths\<close>

definition resolve_path :: "string \<Rightarrow> path_buf" where
  "resolve_path scheme_path = slash # trim_start_matches slash scheme_path"

definition resolve_open_path :: "'w handler \<Rightarrow> usize \<Rightarrow> string \<Rightarrow> (path_buf \<times> string) res" where
  "resolve_open_path h dirfd path =
     (let clean = trim_matches slash path in
      if starts_with path ''/'' \<or> dirfd = 0 then Inr (resolve_path clean, clean)
      else (case bf_handles h dirfd of
        Some (ProxyDir dh) \<Rightarrow>
          let real_path = (if clean = [] then dh_real_path dh else path_join (dh_real_path dh) clean);
              scheme_path = (if dh_scheme_path dh = [] then clean
                             else if clean = [] then dh_scheme_path dh
                             else trim_matches slash (dh_scheme_path dh) @ slash # clean)
          in Inr (real_path, scheme_path)
      | Some (ProxyFile _) \<Rightarrow> Inl ENOTDIR
      | None \<Rightarrow> Inl EBADF))"

definition check_with_symlink_resolution :: "'w handler \<Rightarrow> path_buf \<Rightarrow> permission" where
  "check_with_symlink_resolution h path = check (bf_allow_list h) path"

definition is_ancestor_of_allowed :: "allow_list \<Rightarrow> path_buf \<Rightarrow> bool" where
  "is_ancestor_of_allowed al path =
     list_ex (\<lambda>pre. path_starts_with pre path \<and> \<not> path_eq pre path) (all_prefixes al)"

definition is_entry_visible :: "allow_list \<Rightarrow> path_buf \<Rightarrow> bool" where
  "is_entry_visible al child_path \<longleftrightarrow>
     can_read al child_path \<or> list_ex (\<lambda>pre. path_starts_with pre child_path) (all_prefixes al)"

section \<open>Opening and removing\<close>

definition scheme_root :: "('w handler, usize) pio" where
  "scheme_root h =
     (case proxy_alloc_id h of
        None \<Rightarrow> None
      | Some (hid, h1) \<Rightarrow> Some (Inr hid, put_handle hid root_handle h1))"

definition file_open_errno :: "errno \<Rightarrow> errno" where
  "file_open_errno e = (if e = ENOENT then ENOENT else if e = EACCES then EACCES else e)"

definition open_dir_with ::
  "'w io_worker \<Rightarrow> usize \<Rightarrow> path_buf \<Rightarrow> string \<Rightarrow> bool \<Rightarrow> ('w handler, usize) io" where
  "open_dir_with iw hid abs_path scheme_path mk =
     bindS (if mk then wrk (ensure_dir_tree iw abs_path) else ret ()) (\<lambda>_.
     bindS (map_err (\<lambda>_. ENOTDIR) (wrk (open_path iw abs_path (O_RDONLY OR O_DIRECTORY)))) (\<lambda>opened.
     bindS (modify (put_handle hid (ProxyDir
        \<lparr>dh_real_path = opr_resolved_path opened, dh_scheme_path = scheme_path\<rparr>))) (\<lambda>_.
     ret hid)))"

definition opened_handle ::
  "abi \<Rightarrow> open_flags \<Rightarrow> string \<Rightarrow> open_path_result \<Rightarrow> proxy_handle" where
  "opened_handle a oflags scheme_path opened =
     (if st_mode (opr_stat opened) AND MODE_DIR a \<noteq> 0
      then ProxyDir \<lparr>dh_real_path = opr_resolved_path opened, dh_scheme_path = scheme_path\<rparr>
      else ProxyFile \<lparr>fh_real_path = opr_resolved_path opened, fh_scheme_path = scheme_path,
             fh_writable = wants_write oflags, fh_append = of_append oflags,
             fh_symlink = of_symlink oflags, fh_size = st_size (opr_stat opened),
             fh_mode = ucast (st_mode (opr_stat opened))\<rparr>)"

definition open_file_with ::
  "'w io_worker \<Rightarrow> abi \<Rightarrow> usize \<Rightarrow> path_buf \<Rightarrow> string \<Rightarrow> open_flags \<Rightarrow> bool \<Rightarrow> ('w handler, usize) io" where
  "open_file_with iw a hid abs_path scheme_path oflags mk =
     bindS (case path_parent abs_path of
              Some parent \<Rightarrow> if mk then wrk (ensure_dir_tree iw parent) else ret ()
            | None \<Rightarrow> ret ()) (\<lambda>_.
     bindS (map_err file_open_errno (wrk (open_path iw abs_path (to_real_flags a oflags)))) (\<lambda>opened.
     bindS (modify (put_handle hid (opened_handle a oflags scheme_path opened))) (\<lambda>_.
     ret hid)))"

definition effective_perm :: "allow_list \<Rightarrow> open_flags \<Rightarrow> path_buf \<Rightarrow> permission" where
  "effective_perm al oflags abs_path =
     (let perm = check al abs_path in
      if perm = Denied \<and> \<not> wants_write oflags
      then (if is_ancestor_of_allowed al abs_path then ReadOnly else Denied)
      else perm)"

definition openat ::
  "'w io_worker \<Rightarrow> abi \<Rightarrow> usize \<Rightarrow> string \<Rightarrow> usize \<Rightarrow> ('w handler, usize) pio" where
  "openat iw a dirfd path flags h =
     (case resolve_open_path h dirfd path of
        Inl e \<Rightarrow> Some (Inl e, h)
      | Inr (abs_path, scheme_path) \<Rightarrow>
          let oflags = translate_open_flags a flags;
              perm = check_with_symlink_resolution h abs_path;
              eff = effective_perm (bf_allow_list h) oflags abs_path in
          if eff = Denied then Some (Inl EACCES, h)
          else if wants_write oflags \<and> eff \<noteq> ReadWrite then Some (Inl EACCES, h)
          else (case proxy_alloc_id h of
            None \<Rightarrow> None
          | Some (hid, h1) \<Rightarrow>
              let mk = of_create oflags \<and> perm = ReadWrite in
              Some (if of_directory oflags then open_dir_with iw hid abs_path scheme_path mk h1
                    else open_file_with iw a hid abs_path scheme_path oflags mk h1)))"

definition unlinkat ::
  "'w io_worker \<Rightarrow> abi \<Rightarrow> usize \<Rightarrow> string \<Rightarrow> usize \<Rightarrow> ('w handler, unit) io" where
  "unlinkat iw a fd path flags = (\<lambda>h.
     case resolve_open_path h fd path of
       Inl e \<Rightarrow> (Inl e, h)
     | Inr (abs_path, _) \<Rightarrow>
         if check_with_symlink_resolution h abs_path \<noteq> ReadWrite then (Inl EACCES, h)
         else wrk (unlink_path iw abs_path (has_flag flags (AT_REMOVEDIR a))) h)"

definition dup :: "usize \<Rightarrow> ('w handler, usize) pio" where
  "dup old_id h = dup_handle old_id h"

section \<open>Reading, writing and metadata\<close>

definition proxy_read :: "'w io_worker \<Rightarrow> usize \<Rightarrow> usize \<Rightarrow> u64 \<Rightarrow> ('w handler, bytes) io" where
  "proxy_read iw hid buf_len offset = (\<lambda>h.
     case bf_handles h hid of
       Some (ProxyFile fh) \<Rightarrow>
         bindS (wrk (read_at iw (fh_real_path fh) offset buf_len (fh_symlink fh)))
           (\<lambda>data. ret (take (min (length data) (unat buf_len)) data)) h
     | Some (ProxyDir _) \<Rightarrow> (Inl EISDIR, h)
     | None \<Rightarrow> (Inl EBADF, h))"

definition set_file :: "usize \<Rightarrow> (file_handle \<Rightarrow> file_handle) \<Rightarrow> 'w handler \<Rightarrow> 'w handler" where
  "set_file hid f h =
     (case bf_handles h hid of
        Some (ProxyFile fh) \<Rightarrow> put_handle hid (ProxyFile (f fh)) h
      | _ \<Rightarrow> h)"

definition proxy_write :: "'w io_worker \<Rightarrow> usize \<Rightarrow> bytes \<Rightarrow> u64 \<Rightarrow> ('w handler, usize) io" where
  "proxy_write iw hid buf offset = (\<lambda>h.
     case bf_handles h hid of
       Some (ProxyFile fh) \<Rightarrow>
         if \<not> fh_writable fh then (Inl EACCES, h)
         else bindS (wrk (write_at iw (fh_real_path fh) offset (fh_append fh) (fh_symlink fh) buf))
           (\<lambda>result. bindS (modify (set_file hid (\<lambda>f.
              if fh_size f < end_offset result then f\<lparr>fh_size := end_offset result\<rparr> else f)))
              (\<lambda>_. ret (bytes_written result))) h
     | Some (ProxyDir _) \<Rightarrow> (Inl EISDIR, h)
     | None \<Rightarrow> (Inl EBADF, h))"

definition fsize :: "usize \<Rightarrow> ('w handler, u64) io" where
  "fsize hid = (\<lambda>h.
     case bf_handles h hid of
       Some (ProxyFile fh) \<Rightarrow> (Inr (fh_size fh), h)
     | Some (ProxyDir _) \<Rightarrow> (Inr 0, h)
     | None \<Rightarrow> (Inl EBADF, h))"

fun handle_scheme_path :: "proxy_handle \<Rightarrow> string" where
  "handle_scheme_path (ProxyFile fh) = fh_scheme_path fh"
| "handle_scheme_path (ProxyDir dh) = dh_scheme_path dh"

fun handle_real_path :: "proxy_handle \<Rightarrow> path_buf" where
  "handle_real_path (ProxyFile fh) = fh_real_path fh"
| "handle_real_path (ProxyDir dh) = dh_real_path dh"

definition fpath :: "usize \<Rightarrow> nat \<Rightarrow> ('w handler, string) io" where
  "fpath hid buf_len = (\<lambda>h.
     case bf_handles h hid of
       None \<Rightarrow> (Inl EBADF, h)
     | Some x \<Rightarrow>
         let scheme_path = handle_scheme_path x;
             full = (if scheme_path = [] then ''file:/''
                     else ''file:/'' @ trim_start_matches slash scheme_path)
         in (Inr (take (min (length full) buf_len) full), h))"

definition fchmod :: "'w io_worker \<Rightarrow> usize \<Rightarrow> u16 \<Rightarrow> ('w handler, unit) io" where
  "fchmod iw hid new_mode = (\<lambda>h.
     case bf_handles h hid of
       Some (ProxyFile fh) \<Rightarrow>
         if \<not> can_write (bf_allow_list h) (fh_real_path fh) then (Inl EACCES, h)
         else wrk (chmod_path iw (fh_real_path fh) False new_mode) h
     | Some (ProxyDir dh) \<Rightarrow>
         if \<not> can_write (bf_allow_list h) (dh_real_path dh) then (Inl EACCES, h)
         else wrk (chmod_path iw (dh_real_path dh) True new_mode) h
     | None \<Rightarrow> (Inl EBADF, h))"

definition ftruncate :: "'w io_worker \<Rightarrow> usize \<Rightarrow> u64 \<Rightarrow> ('w handler, unit) io" where
  "ftruncate iw hid len = (\<lambda>h.
     case bf_handles h hid of
       Some (ProxyFile fh) \<Rightarrow>
         if \<not> fh_writable fh then (Inl EACCES, h)
         else bindS (wrk (truncate_path iw (fh_real_path fh) len (fh_symlink fh)))
           (\<lambda>_. modify (set_file hid (\<lambda>f. if len < fh_size f then f\<lparr>fh_size := len\<rparr> else f))) h
     | Some (ProxyDir _) \<Rightarrow> (Inl EISDIR, h)
     | None \<Rightarrow> (Inl EBADF, h))"

text \<open>\<^verbatim>\<open>fstat\<close> fills in the caller's record; the fields it does not name keep their values.\<close>

definition fstat :: "'w io_worker \<Rightarrow> usize \<Rightarrow> stat \<Rightarrow> ('w handler, stat) io" where
  "fstat iw hid st = (\<lambda>h.
     case bf_handles h hid of
       Some (ProxyFile fh) \<Rightarrow>
         bindS (attempt (wrk (stat_path iw (fh_real_path fh) False))) (\<lambda>r.
           case r of
             Inr rs \<Rightarrow>
               let sz = (if fh_size fh < st_size rs then st_size rs else fh_size fh) in
               bindS (modify (set_file hid (\<lambda>f. f\<lparr>fh_size := sz, fh_mode := ucast (st_mode rs)\<rparr>)))
                 (\<lambda>_. ret (rs\<lparr>st_size := sz\<rparr>))
           | Inl _ \<Rightarrow> ret (st\<lparr>st_size := fh_size fh, st_mode := ucast (fh_mode fh), st_nlink := 1\<rparr>)) h
     | Some (ProxyDir dh) \<Rightarrow>
         bindS (attempt (wrk (stat_path iw (dh_real_path dh) True))) (\<lambda>r.
           case r of
             Inr rs \<Rightarrow> ret (st\<lparr>st_mode := st_mode rs, st_size := st_size rs, st_nlink := st_nlink rs,
                              st_dev := st_dev rs, st_ino := st_ino rs\<rparr>)
           | Inl _ \<Rightarrow> ret (st\<lparr>st_mode := 0x416D, st_size := 0, st_nlink := 2\<rparr>)) h
     | None \<Rightarrow> (Inl EBADF, h))"

record statvfs =
  f_bsize :: u32
  f_blocks :: u64
  f_bfree :: u64
  f_bavail :: u64

definition fstatvfs :: "usize \<Rightarrow> ('w handler, statvfs) io" where
  "fstatvfs hid = (\<lambda>h.
     case bf_handles h hid of
       Some _ \<Rightarrow> (Inr \<lparr>f_bsize = 4096, f_blocks = 0, f_bfree = 0, f_bavail = 0\<rparr>, h)
     | None \<Rightarrow> (Inl EBADF, h))"

definition futimens :: "usize \<Rightarrow> ('w handler, unit) io" where
  "futimens hid = (\<lambda>h. case bf_handles h hid of Some _ \<Rightarrow> (Inr (), h) | None \<Rightarrow> (Inl EBADF, h))"

section \<open>Links and renames\<close>

definition flink :: "'w io_worker \<Rightarrow> usize \<Rightarrow> string \<Rightarrow> ('w handler, usize) io" where
  "flink iw hid path = (\<lambda>h.
     let target_path = resolve_path path in
     if check_with_symlink_resolution h target_path \<noteq> ReadWrite then (Inl EACCES, h)
     else (case bf_handles h hid of
       Some (ProxyFile fh) \<Rightarrow>
         bindS (wrk (link_path iw (fh_real_path fh) target_path)) (\<lambda>_. ret 0) h
     | Some (ProxyDir _) \<Rightarrow> (Inl EISDIR, h)
     | None \<Rightarrow> (Inl EBADF, h)))"

definition rewrite_path_prefix :: "path_buf \<Rightarrow> path_buf \<Rightarrow> path_buf \<Rightarrow> path_buf option" where
  "rewrite_path_prefix path old_root new_root =
     (case path_strip_prefix path old_root of
        None \<Rightarrow> None
      | Some rest \<Rightarrow> Some (if rest = [] then new_root else path_join new_root rest))"

definition rewrite_scheme_prefix :: "string \<Rightarrow> path_buf \<Rightarrow> path_buf \<Rightarrow> string option" where
  "rewrite_scheme_prefix path old_root new_root =
     (case path_strip_prefix path old_root of
        None \<Rightarrow> None
      | Some rest \<Rightarrow> Some (if rest = [] then new_root else path_join new_root rest))"

definition or_keep :: "'a \<Rightarrow> 'a option \<Rightarrow> 'a" where
  "or_keep x y = (case y of Some v \<Rightarrow> v | None \<Rightarrow> x)"

fun rewrite_handle ::
  "path_buf \<Rightarrow> path_buf \<Rightarrow> string \<Rightarrow> string \<Rightarrow> proxy_handle \<Rightarrow> proxy_handle" where
  "rewrite_handle old_real new_real old_scheme new_scheme (ProxyFile fh) =
     ProxyFile (fh\<lparr>fh_real_path := or_keep (fh_real_path fh) (rewrite_path_prefix (fh_real_path fh) old_real new_real),
                   fh_scheme_path := or_keep (fh_scheme_path fh)
                     (rewrite_scheme_prefix (fh_scheme_path fh) old_scheme new_scheme)\<rparr>)"
| "rewrite_handle old_real new_real old_scheme new_scheme (ProxyDir dh) =
     ProxyDir (dh\<lparr>dh_real_path := or_keep (dh_real_path dh) (rewrite_path_prefix (dh_real_path dh) old_real new_real),
                  dh_scheme_path := or_keep (dh_scheme_path dh)
                    (rewrite_scheme_prefix (dh_scheme_path dh) old_scheme new_scheme)\<rparr>)"

definition rewrite_open_handle_paths ::
  "path_buf \<Rightarrow> path_buf \<Rightarrow> string \<Rightarrow> string \<Rightarrow> 'w handler \<Rightarrow> 'w handler" where
  "rewrite_open_handle_paths old_real new_real old_scheme new_scheme h =
     h\<lparr>bf_handles := map_option (rewrite_handle old_real new_real old_scheme new_scheme) \<circ> bf_handles h\<rparr>"

definition frename :: "'w io_worker \<Rightarrow> usize \<Rightarrow> string \<Rightarrow> ('w handler, usize) io" where
  "frename iw hid path = (\<lambda>h.
     let target_path = resolve_path path in
     if check_with_symlink_resolution h target_path \<noteq> ReadWrite then (Inl EACCES, h)
     else (case bf_handles h hid of
       Some x \<Rightarrow>
         bindS (wrk (rename_path iw (handle_real_path x) target_path)) (\<lambda>_.
         bindS (modify (rewrite_open_handle_paths (handle_real_path x) target_path
                  (handle_scheme_path x) (trim_matches slash path))) (\<lambda>_. ret 0)) h
     | None \<Rightarrow> (Inl EBADF, h)))"

section \<open>Listing directories\<close>

fun component_str :: "component \<Rightarrow> string" where
  "component_str RootDir = ''/''"
| "component_str CurDir = ''.''"
| "component_str ParentDir = ''..''"
| "component_str (Normal n) = n"

definition allow_children :: "allow_list \<Rightarrow> path_buf \<Rightarrow> string list" where
  "allow_children al dir_path =
     concat (map (\<lambda>pre. case path_strip_prefix pre dir_path of
        None \<Rightarrow> []
      | Some rest \<Rightarrow> (case components rest of [] \<Rightarrow> [] | c # _ \<Rightarrow> [component_str c]))
      (all_prefixes al))"

definition visible_children ::
  "allow_list \<Rightarrow> path_buf \<Rightarrow> (string \<times> dirent_kind) list \<Rightarrow> (string \<times> dirent_kind) list" where
  "visible_children al dir_path real =
     (let real_map = map_of (rev real);
          names = allow_children al dir_path
            @ filter (\<lambda>name. is_entry_visible al (path_join dir_path name)) (map fst real)
      in map (\<lambda>n. (n, case real_map n of Some kind \<Rightarrow> kind | None \<Rightarrow> Directory))
           (bt_keys (fold (\<lambda>n. bt_insert n ()) names [])))"

definition wrk_dir ::
  "'w io_worker \<Rightarrow> path_buf \<Rightarrow> ('w handler, (string \<times> dirent_kind) list) pio" where
  "wrk_dir iw dir_path h =
     map_option (\<lambda>(r, w). (r, h\<lparr>bf_world := w\<rparr>)) (read_dir iw dir_path (bf_world h))"

definition list_visible_children ::
  "'w io_worker \<Rightarrow> path_buf \<Rightarrow> ('w handler, (string \<times> dirent_kind) list) pio" where
  "list_visible_children iw dir_path h =
     map_option (\<lambda>(r, h').
       (Inr (visible_children (bf_allow_list h) dir_path (case r of Inr real \<Rightarrow> real | Inl _ \<Rightarrow> [])), h'))
       (wrk_dir iw dir_path h)"

definition getdents ::
  "'w io_worker \<Rightarrow> ('b \<Rightarrow> dirent \<Rightarrow> 'b option) \<Rightarrow> usize \<Rightarrow> 'b \<Rightarrow> u64 \<Rightarrow> ('w handler, 'b) pio" where
  "getdents iw push hid buf opaque_offset h =
     (case bf_handles h hid of
        Some (ProxyDir dh) \<Rightarrow>
          map_option (\<lambda>(r, h').
            (case r of
               Inl err \<Rightarrow> (Inl err, h')
             | Inr entries \<Rightarrow> (Inr (list_entries push buf opaque_offset entries), h')))
            (if can_read (bf_allow_list h) (dh_real_path dh)
             then wrk_dir iw (dh_real_path dh) h
             else list_visible_children iw (dh_real_path dh) h)
      | Some (ProxyFile _) \<Rightarrow> Some (Inl ENOTDIR, h)
      | None \<Rightarrow> Some (Inl EBADF, h))"

section \<open>Mappings\<close>

fun mm_push :: "active_map_key \<Rightarrow> u64 \<Rightarrow> (active_map_key \<times> u64 list) list
    \<Rightarrow> (active_map_key \<times> u64 list) list" where
  "mm_push k t [] = [(k, [t])]"
| "mm_push k t ((k', ts) # m) = (if k = k' then (k', ts @ [t]) # m else (k', ts) # mm_push k t m)"

text \<open>\<^verbatim>\<open>tokens.pop()\<close> on the entry of a key, dropping the entry when it becomes empty.\<close>

fun mm_pop :: "active_map_key \<Rightarrow> (active_map_key \<times> u64 list) list
    \<Rightarrow> (u64 \<times> (active_map_key \<times> u64 list) list) option" where
  "mm_pop k [] = None"
| "mm_pop k ((k', ts) # m) =
     (if k = k' then
        if ts = [] then None
        else Some (last ts, if butlast ts = [] then m else (k', butlast ts) # m)
      else map_option (\<lambda>(t, m'). (t, (k', ts) # m')) (mm_pop k m))"

definition mmap_prep ::
  "'w io_worker \<Rightarrow> abi \<Rightarrow> usize \<Rightarrow> u64 \<Rightarrow> usize \<Rightarrow> usize \<Rightarrow> ('w handler, usize) io" where
  "mmap_prep iw a hid offset sz flags = (\<lambda>h.
     case bf_handles h hid of
       Some (ProxyFile fh) \<Rightarrow>
         bindS (wrk (mmap_path iw (fh_real_path fh) offset sz flags)) (\<lambda>mr.
         bindS (modify (\<lambda>h'. h'\<lparr>bf_active_mmaps :=
            mm_push \<lparr>mk_handle_id = hid, mk_offset = offset, mk_size = page_round a sz\<rparr> (mr_token mr)
              (bf_active_mmaps h')\<rparr>)) (\<lambda>_.
         ret (mr_base_addr mr))) h
     | Some (ProxyDir _) \<Rightarrow> (Inl EISDIR, h)
     | None \<Rightarrow> (Inl EBADF, h))"

definition release_from ::
  "'w io_worker \<Rightarrow> active_map_key \<Rightarrow> ('w handler, unit) io" where
  "release_from iw key = (\<lambda>h.
     case mm_pop key (bf_active_mmaps h) of
       None \<Rightarrow> (Inr (), h)
     | Some (token, m) \<Rightarrow>
         bindS (attempt (wrk (munmap_token iw token))) (\<lambda>_. ret ()) (h\<lparr>bf_active_mmaps := m\<rparr>))"

definition munmap :: "'w io_worker \<Rightarrow> usize \<Rightarrow> u64 \<Rightarrow> usize \<Rightarrow> ('w handler, unit) io" where
  "munmap iw hid offset sz = (\<lambda>h.
     let key = \<lparr>mk_handle_id = hid, mk_offset = offset, mk_size = sz\<rparr> in
     if key \<in> fst ` set (bf_active_mmaps h) then release_from iw key h
     else (case find (\<lambda>e. mk_handle_id (fst e) = hid) (bf_active_mmaps h) of
       Some e \<Rightarrow> release_from iw (fst e) h
     | None \<Rightarrow> (Inr (), h)))"

fun release_all :: "'w io_worker \<Rightarrow> u64 list \<Rightarrow> ('w handler, unit) io" where
  "release_all iw [] = ret ()"
| "release_all iw (t # ts) = bindS (attempt (wrk (munmap_token iw t))) (\<lambda>_. release_all iw ts)"

definition on_close :: "'w io_worker \<Rightarrow> usize \<Rightarrow> ('w handler, unit) io" where
  "on_close iw hid = (\<lambda>h.
     let mine = filter (\<lambda>e. mk_handle_id (fst e) = hid) (bf_active_mmaps h);
         rest = filter (\<lambda>e. mk_handle_id (fst e) \<noteq> hid) (bf_active_mmaps h)
     in release_all iw (concat (map snd mine))
          (h\<lparr>bf_handles := (bf_handles h)(hid := None), bf_active_mmaps := rest\<rparr>))"

section \<open>Descriptor control\<close>

definition fcntl :: "abi \<Rightarrow> usize \<Rightarrow> usize \<Rightarrow> usize \<Rightarrow> ('w handler, usize) pio" where
  "fcntl a hid cmd arg h =
     (if cmd = F_DUPFD a \<or> cmd = F_DUPFD_CLOEXEC a then dup_handle hid h
      else if cmd = F_GETFL a then
        Some (case bf_handles h hid of
          Some (ProxyFile fh) \<Rightarrow>
            (Inr ((if fh_writable fh then O_RDWR else O_RDONLY) OR flag_if (fh_append fh) O_APPEND), h)
        | Some (ProxyDir _) \<Rightarrow> (Inr (O_RDONLY OR O_DIRECTORY), h)
        | None \<Rightarrow> (Inl EBADF, h))
      else if cmd = F_SETFL a then
        Some (case bf_handles h hid of
          Some (ProxyFile fh) \<Rightarrow> (Inr 0, set_file hid (\<lambda>f. f\<lparr>fh_append := has_flag arg O_APPEND\<rparr>) h)
        | Some (ProxyDir _) \<Rightarrow> (Inr 0, h)
        | None \<Rightarrow> (Inl EBADF, h))
      else if cmd = F_GETFD a \<or> cmd = F_SETFD a \<or> cmd = 6 \<or> cmd = 7 then Some (Inr 0, h)
      else Some (Inl EOPNOTSUPP, h))"

definition fevent :: "usize \<Rightarrow> ('w handler, event_flags) io" where
  "fevent hid = (\<lambda>h.
     case bf_handles h hid of
       Some (ProxyFile fh) \<Rightarrow> (Inr \<lparr>EVENT_READ = True, EVENT_WRITE = fh_writable fh\<rparr>, h)
     | Some (ProxyDir _) \<Rightarrow> (Inr \<lparr>EVENT_READ = True, EVENT_WRITE = False\<rparr>, h)
     | None \<Rightarrow> (Inl EBADF, h))"

end
