(* ===== verification/Proxy_Session.thy ===== *)
theory Proxy_Session
  imports Proxy_Handler
begin

text \<open>
  Sessions of the build proxy: arbitrary sequences of scheme calls against a handler whose
  worker records the requests it receives. The main result is that the requests that
  change the filesystem stay inside the writable part of the allow-list.
\<close>

section \<open>Recording the requests\<close>

definition log_req :: "io_request \<Rightarrow> ('w, 'a) io \<Rightarrow> ('w \<times> io_request list, 'a) io" where
  "log_req q f = (\<lambda>(w, l). case f w of (r, w') \<Rightarrow> (r, (w', l @ [q])))"

definition logged :: "'w io_worker \<Rightarrow> ('w \<times> io_request list) io_worker" where
  "logged iw =
     \<lparr>open_path = (\<lambda>p f. log_req (OpenPath p f) (open_path iw p f)),
      ensure_dir_tree = (\<lambda>p. log_req (EnsureDirTree p) (ensure_dir_tree iw p)),
      read_at = (\<lambda>p off n sl. log_req (ReadAt p off n sl) (read_at iw p off n sl)),
      write_at = (\<lambda>p off ap sl d. log_req (WriteAt p off ap sl d) (write_at iw p off ap sl d)),
      stat_path = (\<lambda>p d. log_req (StatPath p d) (stat_path iw p d)),
      chmod_path = (\<lambda>p d m. log_req (ChmodPath p d m) (chmod_path iw p d m)),
      truncate_path = (\<lambda>p n sl. log_req (TruncatePath p n sl) (truncate_path iw p n sl)),
      read_dir = (\<lambda>p (w, l). map_option (\<lambda>(r, w'). (r, (w', l @ [ReadDir p]))) (read_dir iw p w)),
      resolve_real_path = (\<lambda>p. log_req (ResolvePath p) (resolve_real_path iw p)),
      rename_path = (\<lambda>p q. log_req (RenamePath p q) (rename_path iw p q)),
      link_path = (\<lambda>p q. log_req (LinkPath p q) (link_path iw p q)),
      unlink_path = (\<lambda>p d. log_req (UnlinkPath p d) (unlink_path iw p d)),
      mmap_path = (\<lambda>p off n fl. log_req (MmapPath p off n fl) (mmap_path iw p off n fl)),
      munmap_token = (\<lambda>t. log_req (MunmapToken t) (munmap_token iw t))\<rparr>"

section \<open>Scheme calls\<close>

datatype 'b call =
    COpenat usize string usize
  | CUnlinkat usize string usize
  | CDup usize
  | CRead usize usize u64
  | CWrite usize bytes u64
  | CFsize usize
  | CFpath usize nat
  | CFlink usize string
  | CFrename usize string
  | CFstat usize stat
  | CGetdents usize 'b u64
  | CFchmod usize u16
  | CFtruncate usize u64
  | CFstatvfs usize
  | CFutimens usize
  | CMmap usize u64 usize usize
  | CMunmap usize u64 usize
  | CFcntl usize usize usize
  | CFevent usize
  | CClose usize
  | CSchemeRoot

definition after :: "('w handler, 'a) io \<Rightarrow> 'w handler \<Rightarrow> 'w handler option" where
  "after m h = Some (snd (m h))"

fun dispatch ::
  "'w io_worker \<Rightarrow> abi \<Rightarrow> ('b \<Rightarrow> dirent \<Rightarrow> 'b option) \<Rightarrow> 'b call \<Rightarrow> 'w handler \<Rightarrow> 'w handler option" where
  "dispatch iw a push (COpenat fd p fl) h = map_option snd (openat iw a fd p fl h)"
| "dispatch iw a push (CUnlinkat fd p fl) h = after (unlinkat iw a fd p fl) h"
| "dispatch iw a push (CDup i) h = map_option snd (dup i h)"
| "dispatch iw a push (CRead i n off) h = after (proxy_read iw i n off) h"
| "dispatch iw a push (CWrite i d off) h = after (proxy_write iw i d off) h"
| "dispatch iw a push (CFsize i) h = after (fsize i) h"
| "dispatch iw a push (CFpath i n) h = after (fpath i n) h"
| "dispatch iw a push (CFlink i p) h = after (flink iw i p) h"
| "dispatch iw a push (CFrename i p) h = after (frename iw i p) h"
| "dispatch iw a push (CFstat i st) h = after (fstat iw i st) h"
| "dispatch iw a push (CGetdents i b off) h = map_option snd (getdents iw push i b off h)"
| "dispatch iw a push (CFchmod i m) h = after (fchmod iw i m) h"
| "dispatch iw a push (CFtruncate i n) h = after (ftruncate iw i n) h"
| "dispatch iw a push (CFstatvfs i) h = after (fstatvfs i) h"
| "dispatch iw a push (CFutimens i) h = after (futimens i) h"
| "dispatch iw a push (CMmap i off n fl) h = after (mmap_prep iw a i off n fl) h"
| "dispatch iw a push (CMunmap i off n) h = after (munmap iw i off n) h"
| "dispatch iw a push (CFcntl i cmd arg) h = map_option snd (fcntl a i cmd arg h)"
| "dispatch iw a push (CFevent i) h = after (fevent i) h"
| "dispatch iw a push (CClose i) h = after (on_close iw i) h"
| "dispatch iw a push CSchemeRoot h = map_option snd (scheme_root h)"

fun run_calls ::
  "'w io_worker \<Rightarrow> abi \<Rightarrow> ('b \<Rightarrow> dirent \<Rightarrow> 'b option) \<Rightarrow> 'b call list \<Rightarrow> 'w handler \<Rightarrow> 'w handler option" where
  "run_calls iw a push [] h = Some h"
| "run_calls iw a push (c # cs) h =
     (case dispatch iw a push c h of None \<Rightarrow> None | Some h' \<Rightarrow> run_calls iw a push cs h')"

section \<open>What the proxy may ask for\<close>

definition write_intent :: "usize \<Rightarrow> bool" where
  "write_intent fl \<longleftrightarrow> has_flag fl O_WRONLY \<or> has_flag fl O_CREAT \<or> has_flag fl O_TRUNC"

definition ancestor_of_writable :: "allow_list \<Rightarrow> path_buf \<Rightarrow> bool" where
  "ancestor_of_writable al p = list_ex (\<lambda>e. path_starts_with e p) (read_write al)"

fun authorised :: "allow_list \<Rightarrow> io_request \<Rightarrow> bool" where
  "authorised al (OpenPath p fl) \<longleftrightarrow>
     (write_intent fl \<longrightarrow> can_write al p) \<and> (can_read al p \<or> is_ancestor_of_allowed al p)"
| "authorised al (EnsureDirTree p) \<longleftrightarrow> can_write al p \<or> ancestor_of_writable al p"
| "authorised al (WriteAt p off ap sl d) \<longleftrightarrow> can_write al p"
| "authorised al (ChmodPath p d m) \<longleftrightarrow> can_write al p"
| "authorised al (TruncatePath p n sl) \<longleftrightarrow> can_write al p"
| "authorised al (UnlinkPath p d) \<longleftrightarrow> can_write al p"
| "authorised al (RenamePath p q) \<longleftrightarrow> can_write al q"
| "authorised al (LinkPath p q) \<longleftrightarrow> can_write al q"
| "authorised al _ \<longleftrightarrow> True"

fun handle_ok :: "allow_list \<Rightarrow> proxy_handle \<Rightarrow> bool" where
  "handle_ok al (ProxyFile fh) \<longleftrightarrow>
     clean_abs (fh_real_path fh) \<and> (fh_writable fh \<longrightarrow> can_write al (fh_real_path fh))"
| "handle_ok al (ProxyDir dh) \<longleftrightarrow> clean_abs (dh_real_path dh)"

definition session_inv :: "allow_list \<Rightarrow> ('w \<times> io_request list) handler \<Rightarrow> bool" where
  "session_inv al h \<longleftrightarrow> bf_allow_list h = al \<and> (\<forall>i x. bf_handles h i = Some x \<longrightarrow> handle_ok al x)
     \<and> list_all (authorised al) (snd (bf_world h))"

text \<open>
  Assumptions on what lies outside the handler: the flag bits of the system interface do not
  overlap, and opening a path free of \<^verbatim>\<open>..\<close> yields such a path again, not leading out of the
  writable part (no link in the writable tree points elsewhere).
\<close>

definition abi_ok :: "abi \<Rightarrow> bool" where
  "abi_ok a \<longleftrightarrow> (O_SYMLINK a OR MODE_PERM a) AND (O_WRONLY OR O_CREAT OR O_TRUNC) = 0"

definition open_resolves :: "allow_list \<Rightarrow> 'w io_worker \<Rightarrow> bool" where
  "open_resolves al iw \<longleftrightarrow> (\<forall>p fl w r w'. clean_abs p \<longrightarrow> open_path iw p fl w = (Inr r, w') \<longrightarrow>
     clean_abs (opr_resolved_path r) \<and> (can_write al p \<longrightarrow> can_write al (opr_resolved_path r)))"

fun plain_call :: "'b call \<Rightarrow> bool" where
  "plain_call (COpenat fd p fl) \<longleftrightarrow> no_up p"
| "plain_call (CFrename i p) \<longleftrightarrow> no_up p"
| "plain_call _ \<longleftrightarrow> True"

section \<open>Flags\<close>

lemma has_flag_or: "has_flag (x OR y) f \<longleftrightarrow> has_flag x f \<or> has_flag y f"
  by (auto simp: has_flag_def bit_eq_iff bit_simps)

lemma has_flag_zero [simp]: "\<not> has_flag 0 f"
  by (simp add: has_flag_def)

lemma has_flag_flag_if: "has_flag (flag_if b f) g \<longleftrightarrow> b \<and> has_flag f g"
  by (simp add: flag_if_def)

lemma has_flag_mask: "has_flag (x AND y) f \<Longrightarrow> has_flag y f"
  by (auto simp: has_flag_def bit_eq_iff bit_simps)

lemma abi_ok_flags:
  assumes "abi_ok a"
  shows "\<not> has_flag (O_SYMLINK a) O_WRONLY" "\<not> has_flag (O_SYMLINK a) O_CREAT" "\<not> has_flag (O_SYMLINK a) O_TRUNC"
    and "\<not> has_flag (MODE_PERM a) O_WRONLY" "\<not> has_flag (MODE_PERM a) O_CREAT" "\<not> has_flag (MODE_PERM a) O_TRUNC"
  using assms by (auto simp: abi_ok_def has_flag_def bit_eq_iff bit_simps)

lemma plain_flag_bits:
  "\<not> has_flag O_RDONLY O_WRONLY" "\<not> has_flag O_RDONLY O_CREAT" "\<not> has_flag O_RDONLY O_TRUNC"
  "\<not> has_flag O_EXCL O_WRONLY" "\<not> has_flag O_EXCL O_CREAT" "\<not> has_flag O_EXCL O_TRUNC"
  "\<not> has_flag O_APPEND O_WRONLY" "\<not> has_flag O_APPEND O_CREAT" "\<not> has_flag O_APPEND O_TRUNC"
  "\<not> has_flag O_DIRECTORY O_WRONLY" "\<not> has_flag O_DIRECTORY O_CREAT" "\<not> has_flag O_DIRECTORY O_TRUNC"
  by (simp_all add: has_flag_def open_flag_defs)

lemma real_flags_intent:
  assumes "abi_ok a" "write_intent (to_real_flags a (translate_open_flags a raw))"
  shows "wants_write (translate_open_flags a raw)"
proof (rule ccontr)
  let ?f = "translate_open_flags a raw"
  assume n: "\<not> wants_write ?f"
  have m: "of_mode_perm ?f = raw AND MODE_PERM a" by (simp add: translate_open_flags_def Let_def)
  have "\<not> has_flag (to_real_flags a ?f) f" if "f \<in> {O_WRONLY, O_CREAT, O_TRUNC}" for f
    using n that abi_ok_flags[OF assms(1)] plain_flag_bits
    by (auto simp: wants_write_def to_real_flags_def has_flag_or has_flag_flag_if m dest: has_flag_mask)
  then show False using assms(2) by (auto simp: write_intent_def)
qed

lemma dir_open_no_intent: "\<not> write_intent (O_RDONLY OR O_DIRECTORY)"
  using plain_flag_bits by (simp add: write_intent_def has_flag_or)

section \<open>Worker calls keep the invariant\<close>

lemma session_invI:
  "bf_allow_list h = al \<Longrightarrow> (\<And>i x. bf_handles h i = Some x \<Longrightarrow> handle_ok al x)
   \<Longrightarrow> list_all (authorised al) (snd (bf_world h)) \<Longrightarrow> session_inv al h"
  by (simp add: session_inv_def)

lemma keeps_log: "authorised al q \<Longrightarrow> keeps (session_inv al) (wrk (log_req q f))"
  by (auto intro!: keepsI simp: wrk_def log_req_def session_inv_def split: prod.split)

lemma keeps_put:
  "handle_ok al x \<Longrightarrow> keeps (session_inv al) (modify (put_handle i x))"
  by (auto intro!: keepsI simp: modify_def put_handle_def session_inv_def)

lemma keeps_set_file:
  assumes "\<And>f. fh_real_path (g f) = fh_real_path f" "\<And>f. fh_writable (g f) = fh_writable f"
  shows "keeps (session_inv al) (modify (set_file i g))"
proof (rule keepsI)
  fix h :: "('w \<times> io_request list) handler"
  assume inv: "session_inv al h"
  show "session_inv al (snd (modify (set_file i g) h))"
  proof (cases "bf_handles h i")
    case None
    with inv show ?thesis by (simp add: modify_def set_file_def)
  next
    case (Some x)
    then have "handle_ok al x" using inv by (simp add: session_inv_def)
    with inv Some assms show ?thesis
      by (cases x) (auto simp: modify_def set_file_def put_handle_def session_inv_def)
  qed
qed

lemma handle_okD: "session_inv al h \<Longrightarrow> bf_handles h i = Some x \<Longrightarrow> handle_ok al x"
  by (simp add: session_inv_def)

lemma allow_listD: "session_inv al h \<Longrightarrow> bf_allow_list h = al"
  by (simp add: session_inv_def)

lemma session_bind:
  "keeps (session_inv al) m \<Longrightarrow> (\<And>x. keeps (session_inv al) (f x)) \<Longrightarrow> session_inv al h
   \<Longrightarrow> session_inv al (snd (bindS m f h))"
  by (rule keeps_snd[OF keeps_bindS])

lemma session_log: "authorised al q \<Longrightarrow> session_inv al h \<Longrightarrow> session_inv al (snd (wrk (log_req q f) h))"
  by (rule keeps_snd[OF keeps_log])

lemmas session_rules = keeps_rules keeps_log keeps_put keeps_set_file


section \<open>Paths the handler builds\<close>

lemma clean_components: "clean_abs p \<Longrightarrow> components (clean_path p) = components p"
  by (auto simp: clean_abs_def components_clean_path resolved_def resolve_step_def
      foldl_resolve_Normal canon_comps_def)

lemma clean_abs_hd: "clean_abs p \<Longrightarrow> \<exists>r. p = slash # r"
proof (cases p rule: parse_path_cases)
  case rel
  assume "clean_abs p"
  then obtain ns where "concat (map seg_components (split_char slash p)) = RootDir # map Normal ns"
    using rel by (auto simp: clean_abs_def components_def)
  then have "RootDir \<in> set (concat (map seg_components (split_char slash p)))"
    by (metis list.set_intros(1))
  then show ?thesis by (auto simp: seg_components_def split: if_splits)
qed (auto simp: clean_abs_def components_def)

lemma can_write_extend:
  "can_write al p \<Longrightarrow> clean_abs p \<Longrightarrow> clean_abs q \<Longrightarrow> prefix (components p) (components q) \<Longrightarrow> can_write al q"
  by (auto simp: can_write_iff below_def clean_components intro: prefix_order.trans)

lemma clean_resolve: "no_up p \<Longrightarrow> clean_abs (resolve_path p)"
  by (simp add: resolve_path_def clean_abs_root no_up_trim_start)

lemma no_up_trim: "no_up p \<Longrightarrow> no_up (trim_matches slash p)"
  by (simp add: trim_matches_def no_up_trim_start no_up_trim_end)

lemma resolve_open_clean:
  assumes "session_inv al h" "no_up path" "resolve_open_path h dirfd path = Inr (abs_path, sp)"
  shows "clean_abs abs_path"
proof (cases "starts_with path ''/'' \<or> dirfd = 0")
  case True
  with assms show ?thesis by (auto simp: resolve_open_path_def Let_def no_up_trim intro: clean_resolve)
next
  case False
  with assms(3) obtain dh where dh: "bf_handles h dirfd = Some (ProxyDir dh)"
    and p: "abs_path = (if trim_matches slash path = [] then dh_real_path dh
              else path_join (dh_real_path dh) (trim_matches slash path))"
    by (auto simp: resolve_open_path_def Let_def split: option.splits proxy_handle.splits)
  have "clean_abs (dh_real_path dh)" using handle_okD[OF assms(1) dh] by simp
  then show ?thesis
    using p assms(2) trim_matches_ends(1)[of slash path] by (auto intro!: clean_abs_join no_up_trim)
qed

lemma prefix_rtrim: "prefix (rtrim ws) ws"
  by (metis rtrim_def suffix_dropWhile suffix_to_prefix rev_rev_ident)

lemma seg_prefix: "prefix us ws \<Longrightarrow> prefix (concat (map seg_components us)) (concat (map seg_components ws))"
  by (auto simp: prefix_def)

lemma parent_components:
  assumes "clean_abs p" "path_parent p = Some q"
  shows "clean_abs q \<and> prefix (components q) (components p)"
proof -
  obtain r where r: "p = slash # r" using clean_abs_hd[OF assms(1)] by blast
  let ?ws = "split_char slash r" and ?us = "rtrim (butlast (rtrim (split_char slash r)))"
  have q: "q = slash # join_char slash ?us"
    using assms(2) r by (auto simp: path_parent_def Let_def split: if_splits)
  have "prefix ?us ?ws"
    by (meson prefix_order.trans prefix_rtrim prefixeq_butlast)
  moreover have "components q = RootDir # concat (map seg_components ?us)"
  proof (cases "?us = []")
    case True
    with q show ?thesis by (simp add: components_abs seg_components_def junk_def)
  next
    case False
    have "\<forall>w\<in>set ?us. slash \<notin> set w"
      using \<open>prefix ?us ?ws\<close> split_char_no_sep by (metis set_mono_prefix subsetD)
    then have "split_char slash (join_char slash ?us) = ?us" by (rule split_join_char[OF False])
    with q show ?thesis by (simp add: components_abs)
  qed
  ultimately have pre: "prefix (components q) (components p)"
    and hd: "components q = RootDir # concat (map seg_components ?us)"
    using r seg_prefix[of ?us ?ws] by (simp_all add: components_abs)
  obtain ns where ns: "components p = RootDir # map Normal ns" using assms(1) by (auto simp: clean_abs_def)
  then have "prefix (concat (map seg_components ?us)) (map Normal ns)" using pre hd by simp
  then have "\<exists>ms. concat (map seg_components ?us) = map Normal ms"
    by (metis append_eq_map_conv prefix_def)
  with pre hd show ?thesis by (auto simp: clean_abs_def)
qed

lemma parent_authorised:
  assumes "clean_abs p" "can_write al p" "path_parent p = Some q"
  shows "authorised al (EnsureDirTree q)"
proof -
  have q: "clean_abs q" "prefix (components q) (components p)"
    using parent_components[OF assms(1,3)] by simp_all
  obtain e where e: "e \<in> set (read_write al)" "prefix (components e) (components p)"
    using assms(1,2) by (auto simp: can_write_iff below_def clean_components)
  from prefix_same_cases[OF q(2) e(2)] show ?thesis
    using e(1) q(1)
    by (auto simp: ancestor_of_writable_def list_ex_iff path_starts_with_def can_write_iff below_def
        clean_components)
qed

text \<open>Renaming an open directory keeps the paths of the handles below it well placed.\<close>

lemma rewrite_path_clean:
  assumes "rewrite_path_prefix p old new = Some p'" "clean_abs p" "clean_abs old" "clean_abs new"
  shows "clean_abs p'" "prefix (components new) (components p')"
proof -
  obtain rest where rest: "path_strip_prefix p old = Some rest"
    and p': "p' = (if rest = [] then new else path_join new rest)"
    using assms(1) by (auto simp: rewrite_path_prefix_def split: option.splits)
  have ne: "components old \<noteq> []" "new \<noteq> []" using clean_abs_ne assms(3,4) by blast+
  have sp: "is_relative rest" "components p = components old @ components rest"
    using strip_prefix_components[OF rest ne(1)] by auto
  have cp': "components p' = components new @ components rest"
    using p' components_join[OF ne(2) sp(1)] by (auto simp: components_def seg_components_def junk_def)
  then show "prefix (components new) (components p')" by simp
  obtain ns us ms where "components p = RootDir # map Normal ns" "components old = RootDir # map Normal us"
    "components new = RootDir # map Normal ms" using assms(2-4) by (auto simp: clean_abs_def)
  moreover from this sp(2) have "map Normal ns = map Normal us @ components rest" by simp
  then obtain rs where "components rest = map Normal rs" by (auto simp: map_eq_append_conv)
  ultimately have "components p' = RootDir # map Normal (ms @ rs)" using cp' by simp
  then show "clean_abs p'" unfolding clean_abs_def by blast
qed

lemma rewrite_handle_ok:
  assumes "handle_ok al x" "clean_abs old" "clean_abs new" "can_write al new"
  shows "handle_ok al (rewrite_handle old new osch nsch x)"
proof -
  let ?p = "handle_real_path x" and ?p' = "or_keep (handle_real_path x) (rewrite_path_prefix (handle_real_path x) old new)"
  have cp: "clean_abs ?p" using assms(1) by (cases x) auto
  have "clean_abs ?p' \<and> (can_write al ?p \<longrightarrow> can_write al ?p')"
    using cp rewrite_path_clean[OF _ cp assms(2,3)] can_write_extend[OF assms(4,3)]
    by (auto simp: or_keep_def split: option.split)
  with assms(1) show ?thesis by (cases x) auto
qed


section \<open>Every operation keeps the invariant\<close>

lemma keeps_by_handle:
  fixes N :: "(('w \<times> io_request list) handler, 'a) io"
  assumes "\<And>fh. clean_abs (fh_real_path fh) \<Longrightarrow> (fh_writable fh \<Longrightarrow> can_write al (fh_real_path fh))
      \<Longrightarrow> keeps (session_inv al) (F fh)"
    and "\<And>dh. clean_abs (dh_real_path dh) \<Longrightarrow> keeps (session_inv al) (D dh)"
    and "keeps (session_inv al) N"
  shows "keeps (session_inv al) (\<lambda>h. case bf_handles h i of
      Some (ProxyFile fh) \<Rightarrow> F fh h | Some (ProxyDir dh) \<Rightarrow> D dh h | None \<Rightarrow> N h)"
proof (rule keepsI)
  fix h :: "('w \<times> io_request list) handler"
  assume inv: "session_inv al h"
  show "session_inv al (snd (case bf_handles h i of
      Some (ProxyFile fh) \<Rightarrow> F fh h | Some (ProxyDir dh) \<Rightarrow> D dh h | None \<Rightarrow> N h))"
  proof (cases "bf_handles h i")
    case None
    then show ?thesis using keeps_snd[OF assms(3) inv] by simp
  next
    case (Some x)
    then have "handle_ok al x" using handle_okD[OF inv] by simp
    then show ?thesis using Some inv assms(1,2) by (cases x) (auto intro: keeps_snd)
  qed
qed

lemma keeps_fail_at: "keeps P (\<lambda>h. (Inl e, h))" and keeps_ret_at: "keeps P (\<lambda>h. (Inr v, h))"
  by (simp_all add: keeps_def)

lemma keeps_if_at: "(\<And>h. P h \<Longrightarrow> c h = b) \<Longrightarrow> keeps P (\<lambda>h. if b then m h else n h) \<Longrightarrow> keeps P (\<lambda>h. if c h then m h else n h)"
  by (simp add: keeps_def)

lemma keeps_if_const: "(b \<Longrightarrow> keeps P m) \<Longrightarrow> (\<not> b \<Longrightarrow> keeps P n) \<Longrightarrow> keeps P (\<lambda>h. if b then m h else n h)"
  by (simp add: keeps_def)

lemma logged_simps [simp]:
  "open_path (logged iw) p f = log_req (OpenPath p f) (open_path iw p f)"
  "ensure_dir_tree (logged iw) p = log_req (EnsureDirTree p) (ensure_dir_tree iw p)"
  "read_at (logged iw) p off n sl = log_req (ReadAt p off n sl) (read_at iw p off n sl)"
  "write_at (logged iw) p off ap sl d = log_req (WriteAt p off ap sl d) (write_at iw p off ap sl d)"
  "stat_path (logged iw) p b = log_req (StatPath p b) (stat_path iw p b)"
  "chmod_path (logged iw) p b m = log_req (ChmodPath p b m) (chmod_path iw p b m)"
  "truncate_path (logged iw) p n sl = log_req (TruncatePath p n sl) (truncate_path iw p n sl)"
  "rename_path (logged iw) p q = log_req (RenamePath p q) (rename_path iw p q)"
  "link_path (logged iw) p q = log_req (LinkPath p q) (link_path iw p q)"
  "unlink_path (logged iw) p b = log_req (UnlinkPath p b) (unlink_path iw p b)"
  "mmap_path (logged iw) p off n fl = log_req (MmapPath p off n fl) (mmap_path iw p off n fl)"
  "munmap_token (logged iw) t = log_req (MunmapToken t) (munmap_token iw t)"
  by (simp_all add: logged_def)

lemma keeps_read: "keeps (session_inv al) (proxy_read (logged iw) i n off)"
  unfolding proxy_read_def by (rule keeps_by_handle) (auto intro!: session_rules keeps_fail_at)

lemma keeps_write: "keeps (session_inv al) (proxy_write (logged iw) i d off)"
  unfolding proxy_write_def
  by (rule keeps_by_handle) (auto intro!: session_rules keeps_fail_at keeps_if_const split: if_splits)

lemma keeps_ftruncate: "keeps (session_inv al) (ftruncate (logged iw) i n)"
  unfolding ftruncate_def
  by (rule keeps_by_handle) (auto intro!: session_rules keeps_fail_at keeps_if_const split: if_splits)

lemma keeps_fchmod: "keeps (session_inv al) (fchmod (logged iw) i m)"
proof (rule keepsI)
  fix h :: "('a \<times> io_request list) handler"
  assume inv: "session_inv al h"
  show "session_inv al (snd (fchmod (logged iw) i m h))"
    using inv allow_listD[OF inv]
    by (auto simp: fchmod_def split: option.split proxy_handle.split intro!: session_log)
qed

lemma keeps_fstat: "keeps (session_inv al) (fstat (logged iw) i st)"
  unfolding fstat_def
  by (rule keeps_by_handle) (auto intro!: session_rules keeps_fail_at simp: Let_def split: sum.split)

lemma wrk_dir_session:
  "session_inv al h \<Longrightarrow> wrk_dir (logged iw) p h = Some (r, h') \<Longrightarrow> session_inv al h'"
  by (auto simp: wrk_dir_def logged_def session_inv_def split: prod.splits)

lemma getdents_session:
  assumes "session_inv al h" "getdents (logged iw) push i b off h = Some (r, h')"
  shows "session_inv al h'"
proof (cases "\<exists>dh. bf_handles h i = Some (ProxyDir dh)")
  case True
  then obtain dh where dh: "bf_handles h i = Some (ProxyDir dh)" by blast
  obtain r1 h1 where w: "wrk_dir (logged iw) (dh_real_path dh) h = Some (r1, h1)"
    using assms(2) dh
    by (cases "wrk_dir (logged iw) (dh_real_path dh) h")
      (auto simp: getdents_def list_visible_children_def split: if_splits)
  then have "h' = h1"
    using assms(2) dh by (cases r1) (auto simp: getdents_def list_visible_children_def split: if_splits)
  then show ?thesis using wrk_dir_session[OF assms(1) w] by simp
next
  case False
  with assms show ?thesis by (auto simp: getdents_def split: option.splits proxy_handle.splits)
qed

lemma keeps_flink: "keeps (session_inv al) (flink (logged iw) i p)"
proof (rule keepsI)
  fix h :: "('a \<times> io_request list) handler"
  assume inv: "session_inv al h"
  show "session_inv al (snd (flink (logged iw) i p h))"
    using inv allow_listD[OF inv]
    by (auto simp: flink_def Let_def check_with_symlink_resolution_def can_write_def
        split: option.split proxy_handle.split intro!: session_bind session_rules)
qed

lemma keeps_unlinkat: "keeps (session_inv al) (unlinkat (logged iw) a fd p fl)"
proof (rule keepsI)
  fix h :: "('a \<times> io_request list) handler"
  assume inv: "session_inv al h"
  show "session_inv al (snd (unlinkat (logged iw) a fd p fl h))"
    using inv allow_listD[OF inv]
    by (auto simp: unlinkat_def check_with_symlink_resolution_def can_write_def
        split: sum.split intro!: session_log)
qed

lemma keeps_rewrite:
  assumes "clean_abs old" "clean_abs new" "can_write al new"
  shows "keeps (session_inv al) (modify (rewrite_open_handle_paths old new osch nsch))"
  using rewrite_handle_ok[OF _ assms]
  by (auto intro!: keepsI simp: modify_def rewrite_open_handle_paths_def session_inv_def)

lemma keeps_frename:
  assumes "no_up p"
  shows "keeps (session_inv al) (frename (logged iw) i p)"
proof (rule keepsI)
  fix h :: "('a \<times> io_request list) handler"
  assume inv: "session_inv al h"
  have "clean_abs (handle_real_path x)" if "bf_handles h i = Some x" for x
    using handle_okD[OF inv that] by (cases x) auto
  then show "session_inv al (snd (frename (logged iw) i p h))"
    using inv allow_listD[OF inv] clean_resolve[OF assms]
    by (auto simp: frename_def Let_def check_with_symlink_resolution_def can_write_def
        split: option.split intro!: session_bind keeps_bindS keeps_rewrite session_rules)
qed

lemma keeps_mmaps: "keeps (session_inv al) (modify (\<lambda>h. h\<lparr>bf_active_mmaps := f h\<rparr>))"
  by (auto intro!: keepsI simp: modify_def session_inv_def)

lemma session_inv_mmaps [simp]: "session_inv al (h\<lparr>bf_active_mmaps := m\<rparr>) \<longleftrightarrow> session_inv al h"
  by (simp add: session_inv_def)

lemma session_inv_drop: "session_inv al h \<Longrightarrow> session_inv al (h\<lparr>bf_handles := (bf_handles h)(i := None)\<rparr>)"
  by (auto simp: session_inv_def split: if_splits)

lemma keeps_mmap_prep: "keeps (session_inv al) (mmap_prep (logged iw) a i off n fl)"
  unfolding mmap_prep_def
  by (rule keeps_by_handle) (auto intro!: session_rules keeps_fail_at keeps_mmaps)

lemma keeps_release_from: "keeps (session_inv al) (release_from (logged iw) k)"
  by (rule keepsI) (auto simp: release_from_def split: option.split
      intro!: session_bind session_rules)

lemma keeps_munmap: "keeps (session_inv al) (munmap (logged iw) i off n)"
  by (rule keepsI) (auto simp: munmap_def Let_def split: option.split intro: keeps_snd[OF keeps_release_from])

lemma keeps_release_all: "keeps (session_inv al) (release_all (logged iw) ts)"
  by (induction ts) (auto intro!: session_rules)

lemma keeps_on_close: "keeps (session_inv al) (on_close (logged iw) i)"
proof (rule keepsI)
  fix h :: "('a \<times> io_request list) handler"
  assume "session_inv al h"
  then have "session_inv al (h\<lparr>bf_handles := (bf_handles h)(i := None), bf_active_mmaps := m\<rparr>)" for m
    by (simp add: session_inv_drop)
  then show "session_inv al (snd (on_close (logged iw) i h))"
    unfolding on_close_def Let_def by (rule keeps_snd[OF keeps_release_all])
qed


lemma yields_open:
  assumes "open_resolves al iw" "clean_abs p"
  shows "yields (session_inv al) (wrk (open_path (logged iw) p fl))
    (\<lambda>r. clean_abs (opr_resolved_path r) \<and> (can_write al p \<longrightarrow> can_write al (opr_resolved_path r)))"
proof -
  have "\<exists>w2 w3. open_path iw p fl w2 = (Inr x, w3)" if "wrk (open_path (logged iw) p fl) w = (Inr x, w')" for w x w'
    using that by (auto simp: wrk_def log_req_def split: prod.splits)
  with assms show ?thesis unfolding yields_def open_resolves_def by blast
qed

lemma keeps_open_dir:
  assumes "open_resolves al iw" "clean_abs p" "can_read al p \<or> is_ancestor_of_allowed al p"
    and "mk \<Longrightarrow> can_write al p"
  shows "keeps (session_inv al) (open_dir_with (logged iw) hid p sp mk)"
  unfolding open_dir_with_def
proof (rule keeps_bindS)
  show "keeps (session_inv al) (if mk then wrk (ensure_dir_tree (logged iw) p) else ret ())"
    using assms(4) by (auto intro!: session_rules)
next
  fix u
  show "keeps (session_inv al)
    (bindS (map_err (\<lambda>_. ENOTDIR) (wrk (open_path (logged iw) p (O_RDONLY OR O_DIRECTORY)))) (\<lambda>opened.
     bindS (modify (put_handle hid (ProxyDir \<lparr>dh_real_path = opr_resolved_path opened, dh_scheme_path = sp\<rparr>)))
       (\<lambda>_. ret hid)))"
    by (rule keeps_bind_yields[OF _ yields_map_err[OF yields_open[OF assms(1,2)]]])
      (auto intro!: session_rules simp: dir_open_no_intent assms(3))
qed

lemma keeps_open_file:
  assumes "open_resolves al iw" "abi_ok a" "clean_abs p" "can_read al p \<or> is_ancestor_of_allowed al p"
    and "wants_write (translate_open_flags a raw) \<Longrightarrow> can_write al p" "mk \<Longrightarrow> can_write al p"
  shows "keeps (session_inv al) (open_file_with (logged iw) a hid p sp (translate_open_flags a raw) mk)"
  unfolding open_file_with_def
proof (rule keeps_bindS)
  show "keeps (session_inv al) (case path_parent p of
      Some parent \<Rightarrow> if mk then wrk (ensure_dir_tree (logged iw) parent) else ret () | None \<Rightarrow> ret ())"
    using parent_authorised[OF assms(3)] assms(6)
    by (auto intro!: session_rules split: option.split simp del: authorised.simps)
next
  fix u
  let ?f = "translate_open_flags a raw"
  have "authorised al (OpenPath p (to_real_flags a ?f))"
    using real_flags_intent[OF assms(2)] assms(4,5) by auto
  then have k: "keeps (session_inv al) (map_err file_open_errno (wrk (open_path (logged iw) p (to_real_flags a ?f))))"
    by (auto intro!: session_rules)
  show "keeps (session_inv al)
    (bindS (map_err file_open_errno (wrk (open_path (logged iw) p (to_real_flags a ?f)))) (\<lambda>opened.
     bindS (modify (put_handle hid (opened_handle a ?f sp opened))) (\<lambda>_. ret hid)))"
    by (rule keeps_bind_yields[OF k yields_map_err[OF yields_open[OF assms(1,3)]]])
      (use assms(5) in \<open>auto intro!: session_rules simp: opened_handle_def\<close>)
qed

lemma session_alloc:
  "session_inv al h \<Longrightarrow> proxy_alloc_id h = Some (hid, h1) \<Longrightarrow> session_inv al h1"
  by (auto simp: proxy_alloc_id_def session_inv_def)

lemma session_put: "session_inv al h \<Longrightarrow> handle_ok al x \<Longrightarrow> session_inv al (put_handle i x h)"
  by (simp add: session_inv_def put_handle_def)

lemma openat_session:
  assumes "open_resolves al iw" "abi_ok a" "no_up path" "session_inv al h"
    and "openat (logged iw) a dirfd path flags h = Some (r, h')"
  shows "session_inv al h'"
proof (cases "resolve_open_path h dirfd path")
  case (Inl e)
  with assms(4,5) show ?thesis by (simp add: openat_def)
next
  case (Inr ps)
  obtain p sp where ps: "ps = (p, sp)" by (cases ps)
  let ?f = "translate_open_flags a flags" and ?eff = "effective_perm al (translate_open_flags a flags) p"
  have al: "bf_allow_list h = al" by (rule allow_listD[OF assms(4)])
  have cl: "clean_abs p" using resolve_open_clean[OF assms(4,3)] Inr ps by blast
  show ?thesis
  proof (cases "?eff = Denied \<or> (wants_write ?f \<and> ?eff \<noteq> ReadWrite)")
    case True
    with assms(4,5) Inr ps al show ?thesis by (auto simp: openat_def Let_def split: if_splits)
  next
    case False
    then obtain hid h1 where alloc: "proxy_alloc_id h = Some (hid, h1)"
      using assms(5) Inr ps al by (auto simp: openat_def Let_def split: option.splits)
    have h1: "session_inv al h1" by (rule session_alloc[OF assms(4) alloc])
    have rd: "can_read al p \<or> is_ancestor_of_allowed al p"
      using False by (auto simp: effective_perm_def can_read_def Let_def split: if_splits)
    have wr: "wants_write ?f \<Longrightarrow> can_write al p"
      using False by (auto simp: effective_perm_def can_write_def Let_def split: if_splits)
    let ?mk = "of_create ?f \<and> check al p = ReadWrite"
    have res: "(if of_directory ?f then open_dir_with (logged iw) hid p sp ?mk h1
        else open_file_with (logged iw) a hid p sp ?f ?mk h1) = (r, h')"
      using assms(5) Inr ps al alloc False
      by (auto simp: openat_def Let_def check_with_symlink_resolution_def)
    have mk: "?mk \<Longrightarrow> can_write al p" by (simp add: can_write_def)
    have "keeps (session_inv al) (open_dir_with (logged iw) hid p sp ?mk)"
      using keeps_open_dir[OF assms(1) cl rd mk] by simp
    moreover have "keeps (session_inv al) (open_file_with (logged iw) a hid p sp ?f ?mk)"
      using keeps_open_file[OF assms(1,2) cl rd wr mk] by simp
    ultimately show ?thesis
      using res h1 keepsD by (metis (no_types, lifting))
  qed
qed

lemma dup_session:
  assumes "session_inv al h" "dup_handle i h = Some (r, h')"
  shows "session_inv al h'"
proof -
  obtain hid h1 where alloc: "proxy_alloc_id h = Some (hid, h1)"
    using assms(2) by (auto simp: dup_handle_def split: option.splits)
  have h1: "session_inv al h1" by (rule session_alloc[OF assms(1) alloc])
  with assms(2) alloc show ?thesis
    by (auto simp: dup_handle_def split: option.splits intro: session_put handle_okD)
qed

lemma fcntl_session:
  assumes "session_inv al h" "fcntl a i cmd arg h = Some (r, h')"
  shows "session_inv al h'"
proof (cases "cmd = F_DUPFD a \<or> cmd = F_DUPFD_CLOEXEC a")
  case True
  with assms show ?thesis using dup_session by (auto simp: fcntl_def)
next
  case False
  have "session_inv al (set_file i (\<lambda>f. f\<lparr>fh_append := b\<rparr>) h)" for b
    using keeps_snd[OF keeps_set_file assms(1), of "\<lambda>f. f\<lparr>fh_append := b\<rparr>" i] by (simp add: modify_def)
  with False assms show ?thesis
    by (auto simp: fcntl_def split: if_splits option.splits proxy_handle.splits)
qed

lemma scheme_root_session:
  assumes "session_inv al h" "scheme_root h = Some (r, h')"
  shows "session_inv al h'"
proof -
  obtain hid h1 where alloc: "proxy_alloc_id h = Some (hid, h1)"
    using assms(2) by (auto simp: scheme_root_def split: option.splits)
  have "clean_abs ''/''" using clean_abs_root[of "[]"] by (simp add: no_up_def)
  then show ?thesis
    using session_alloc[OF assms(1) alloc] assms(2) alloc
    by (auto simp: scheme_root_def root_handle_def intro!: session_put)
qed

lemma dispatch_session:
  assumes "open_resolves al iw" "abi_ok a" "plain_call c" "session_inv al h"
    and "dispatch (logged iw) a push c h = Some h'"
  shows "session_inv al h'"
proof (cases c)
  case (COpenat fd p fl)
  then show ?thesis using assms openat_session[OF assms(1,2) _ assms(4)] by auto
next
  case (CDup i)
  then show ?thesis using assms dup_session[OF assms(4)] by (auto simp: dup_def)
next
  case (CGetdents i b off)
  then show ?thesis using assms getdents_session[OF assms(4)] by auto
next
  case (CFcntl i cmd arg)
  then show ?thesis using assms fcntl_session[OF assms(4)] by auto
next
  case CSchemeRoot
  then show ?thesis using assms scheme_root_session[OF assms(4)] by auto
next
  case (CFrename i p)
  then show ?thesis
    using assms(3,5) keeps_snd[OF keeps_frename[of p al iw i] assms(4)] by (auto simp: after_def)
qed (use assms(4,5) in \<open>auto simp: after_def fsize_def fpath_def fstatvfs_def futimens_def fevent_def Let_def
      split: option.splits proxy_handle.splits
      intro!: keeps_snd[OF keeps_unlinkat, of al] keeps_snd[OF keeps_read, of al] keeps_snd[OF keeps_write, of al]
        keeps_snd[OF keeps_flink, of al] keeps_snd[OF keeps_fstat, of al]
        keeps_snd[OF keeps_fchmod, of al] keeps_snd[OF keeps_ftruncate, of al] keeps_snd[OF keeps_mmap_prep, of al]
        keeps_snd[OF keeps_munmap, of al] keeps_snd[OF keeps_on_close, of al]\<close>)

lemma run_session:
  assumes "open_resolves al iw" "abi_ok a" "list_all plain_call cs" "session_inv al h"
    and "run_calls (logged iw) a push cs h = Some h'"
  shows "session_inv al h'"
  using assms(3-5)
proof (induction cs arbitrary: h)
  case (Cons c cs)
  then obtain h1 where h1: "dispatch (logged iw) a push c h = Some h1" "run_calls (logged iw) a push cs h1 = Some h'"
    by (auto split: option.splits)
  with Cons dispatch_session[OF assms(1,2) _ Cons.prems(2) h1(1)] show ?case by auto
qed simp


section \<open>A concrete session\<close>

definition sample_allow :: allow_list where
  "sample_allow = \<lparr>read_only = [''/nix/store''], read_write = [''/out'']\<rparr>"

definition sample_worker :: "open_log wstate io_worker" where
  "sample_worker = worker_main (sample_kernel (sample_stat 0x8000 4) [1, 2, 3, 4]) sample_abi sample_fds"

lemma sample_open_resolves: "open_resolves al sample_worker"
proof -
  have "opr_resolved_path r = p" if "open_path sample_worker p fl w = (Inr r, w')" for p fl w r w'
  proof -
    have "raw_fpath (sample_kernel st c) fd s = (Inr None, s)" for st c fd s
      by (simp add: raw_fpath_def bindS_attempt sys_def sample_kernel_def fail_def ret_def)
    with that show ?thesis
      by (auto simp: sample_worker_def worker_main_def worker_open_path_def Let_def ret_def elim!: bindS_InrE)
  qed
  then show ?thesis unfolding open_resolves_def by metis
qed

lemma sample_abi_ok: "abi_ok sample_abi"
  by (simp add: abi_ok_def sample_abi_def open_flag_defs)

section \<open>Mappings\<close>

definition mm_ok :: "(active_map_key \<times> u64 list) list \<Rightarrow> bool" where
  "mm_ok m \<longleftrightarrow> distinct (map fst m) \<and> list_all (\<lambda>e. snd e \<noteq> []) m"

lemma fst_mm_push: "fst ` set (mm_push k t m) = insert k (fst ` set m)"
  by (induction k t m rule: mm_push.induct) auto

lemma mm_ok_push: "mm_ok m \<Longrightarrow> mm_ok (mm_push k t m)"
proof (induction k t m rule: mm_push.induct)
  case (2 k t k' ts m)
  then show ?case using fst_mm_push[of k t m] by (auto simp: mm_ok_def)
qed (simp add: mm_ok_def)

lemma mm_pop_push: "mm_ok m \<Longrightarrow> mm_pop k (mm_push k t m) = Some (t, m)"
  by (induction k t m rule: mm_push.induct) (auto simp: mm_ok_def)

lemma mm_ok_filter: "mm_ok m \<Longrightarrow> mm_ok (filter P m)"
  by (auto simp: mm_ok_def distinct_map_filter list_all_iff)

definition requests :: "('w \<times> io_request list) handler \<Rightarrow> io_request list" where
  "requests h = snd (bf_world h)"

lemma wrk_log_eq:
  "wrk (log_req q f) h = (fst (f (fst (bf_world h))),
     h\<lparr>bf_world := (snd (f (fst (bf_world h))), requests h @ [q])\<rparr>)"
  by (simp add: wrk_def log_req_def requests_def split: prod.split)

lemma release_all_log:
  "\<exists>w. release_all (logged iw) ts h
     = (Inr (), h\<lparr>bf_world := (w, requests h @ map MunmapToken ts)\<rparr>)"
proof (induction ts arbitrary: h)
  case Nil
  have "h\<lparr>bf_world := (fst (bf_world h), requests h)\<rparr> = h" by (simp add: requests_def)
  then show ?case by (metis append_Nil2 list.map(1) release_all.simps(1) ret_def)
next
  case (Cons t ts)
  let ?h = "h\<lparr>bf_world := (snd (munmap_token iw t (fst (bf_world h))), requests h @ [MunmapToken t])\<rparr>"
  obtain w where "release_all (logged iw) ts ?h = (Inr (), ?h\<lparr>bf_world := (w, requests ?h @ map MunmapToken ts)\<rparr>)"
    using Cons by blast
  then show ?case by (auto simp: bindS_attempt wrk_log_eq requests_def)
qed

section \<open>Listings of ancestor directories\<close>

lemma visible_names:
  "map fst (visible_children al d real)
   = sorted_list_of_set (set (allow_children al d)
       \<union> {n \<in> fst ` set real. is_entry_visible al (path_join d n)})"
  using btd.keys_fold[of "[]" "\<lambda>n. n" "\<lambda>n. ()" "allow_children al d
      @ filter (\<lambda>name. is_entry_visible al (path_join d name)) (map fst real)"]
  by (simp add: visible_children_def Let_def comp_def Un_def)

lemma allow_children_visible:
  assumes "clean_abs d" "n \<in> set (allow_children al d)" "list_all clean_abs (all_prefixes al)"
  shows "valid_name n \<and> is_entry_visible al (path_join d n)"
proof -
  obtain pre rest c cs where pre: "pre \<in> set (all_prefixes al)" "path_strip_prefix pre d = Some rest"
    and c: "components rest = c # cs" "n = component_str c"
    using assms(2) by (auto simp: allow_children_def split: option.splits list.splits) metis
  have d: "d \<noteq> []" "components d \<noteq> []" using clean_abs_ne[OF assms(1)] by blast+
  have eq: "components pre = components d @ c # cs"
    using strip_prefix_components(2)[OF pre(2) d(2)] c(1) by simp
  obtain ns where ns: "components pre = RootDir # map Normal ns"
    using assms(3) pre(1) by (auto simp: list_all_iff clean_abs_def)
  have "c \<in> set (tl (components pre))" using eq d(2) by (cases "components d") auto
  then obtain m where m: "c = Normal m" using ns by auto
  have vn: "valid_name n"
    using m c components_Normal_valid[of n rest] by simp
  have "components (path_join d n) = components d @ [c]"
    using components_join_name[OF d(1) vn] m c(2) by simp
  then have "path_starts_with pre (path_join d n)" by (simp add: path_starts_with_def eq)
  with vn pre(1) show ?thesis by (auto simp: is_entry_visible_def list_ex_iff)
qed

definition sample_open_handle :: "path_buf \<Rightarrow> proxy_handle" where
  "sample_open_handle p = ProxyFile \<lparr>fh_real_path = p, fh_scheme_path = tl p, fh_writable = False,
     fh_append = False, fh_symlink = False, fh_size = 4, fh_mode = 0\<rparr>"

definition sample_state :: "(usize \<times> path_buf) list \<Rightarrow> (open_log wstate \<times> io_request list) handler" where
  "sample_state ps = fold (\<lambda>(i, p). put_handle i (sample_open_handle p)) ps
     (new_handler sample_allow (sample_wstate, []))"

definition sample_logged :: "(open_log wstate \<times> io_request list) io_worker" where
  "sample_logged = logged sample_worker"

lemma sample_open_store:
  "open_fd (sample_kernel st c) sample_fds ''/nix/store/abc/f'' fl w
   = (Inr 3, w\<lparr>os := os w @ [(12, ''abc/f'', fl)]\<rparr>)"
  by (simp add: open_fd_def strip_prefix_def trim_start_matches_def open_profile_or_store_def
      raw_openat_def sys_def bindS_def ok_or_def ret_def Let_def sample_kernel_def sample_fds_def)

lemma sample_rename_store:
  "fst (rename_path sample_worker ''/nix/store/abc/f'' q w) = Inr ()"
  unfolding sample_worker_def worker_main_def worker_rename_path_def
  by (simp add: bindS_Inr[OF sample_open_store])
    (simp add: bindS_def raw_close_def thenS_def attempt_def sys_def ret_def liftR_def sample_kernel_def)

section \<open>Properties\<close>




text \<open>
  An open is decided by the allow-list before anything else happens. A request that needs
  write access and is not below a writable entry, or that needs read access and is neither
  readable nor an ancestor of an allowed path, is answered with \<^verbatim>\<open>EACCES\<close> and changes nothing.
\<close>

theorem openat_denied:
  assumes "resolve_open_path h dirfd path = Inr (p, sp)"
    and "if wants_write (translate_open_flags a flags) then \<not> can_write (bf_allow_list h) p
         else \<not> can_read (bf_allow_list h) p \<and> \<not> is_ancestor_of_allowed (bf_allow_list h) p"
  shows "openat iw a dirfd path flags h = Some (Inl EACCES, h)"
  using assms
  by (auto simp: openat_def Let_def effective_perm_def can_write_def can_read_def split: if_splits)

theorem openat_denied_witness:
  "openat sample_worker sample_abi 0 ''/out/../etc/passwd'' O_RDONLY (new_handler sample_allow sample_wstate)
   = Some (Inl EACCES, new_handler sample_allow sample_wstate)"
  by (rule openat_denied[of _ _ _ "''/out/../etc/passwd''" "''out/../etc/passwd''"])
    (code_simp, code_simp)

text \<open>
  Unmapping undoes mapping. After a successful \<^verbatim>\<open>mmap_prep\<close>, a \<^verbatim>\<open>munmap\<close> of the page-aligned
  range the kernel reports succeeds, releases exactly the token the worker gave for that
  mapping, and leaves the table of active mappings as it was.
\<close>

theorem munmap_undoes_mmap_prep:
  assumes "mmap_prep (logged iw) a i off n fl h = (Inr base, h1)" "mm_ok (bf_active_mmaps h)"
  shows "\<exists>mr p. fst (mmap_path iw p off n fl (fst (bf_world h))) = Inr mr \<and> base = mr_base_addr mr
     \<and> fst (munmap (logged iw) i off (page_round a n) h1) = Inr ()
     \<and> bf_active_mmaps (snd (munmap (logged iw) i off (page_round a n) h1)) = bf_active_mmaps h
     \<and> requests (snd (munmap (logged iw) i off (page_round a n) h1))
         = requests h @ [MmapPath p off n fl, MunmapToken (mr_token mr)]"
proof -
  obtain fh where fh: "bf_handles h i = Some (ProxyFile fh)"
    using assms(1) by (auto simp: mmap_prep_def split: option.splits proxy_handle.splits)
  let ?p = "fh_real_path fh" and ?k = "\<lparr>mk_handle_id = i, mk_offset = off, mk_size = page_round a n\<rparr>"
  obtain mr where mr: "fst (mmap_path iw ?p off n fl (fst (bf_world h))) = Inr mr" "base = mr_base_addr mr"
    and h1: "h1 = h\<lparr>bf_world := (snd (mmap_path iw ?p off n fl (fst (bf_world h))), requests h @ [MmapPath ?p off n fl]),
        bf_active_mmaps := mm_push ?k (mr_token mr) (bf_active_mmaps h)\<rparr>"
    using assms(1) fh
    by (auto simp: mmap_prep_def wrk_log_eq modify_def ret_def bindS_def split: sum.splits)
  have "?k \<in> fst ` set (bf_active_mmaps h1)" by (simp add: h1 fst_mm_push)
  then show ?thesis
    using mr mm_pop_push[OF assms(2), of ?k "mr_token mr"]
    by (auto simp: munmap_def Let_def release_from_def h1 bindS_attempt wrk_log_eq ret_def requests_def)
qed

theorem munmap_undoes_mmap_prep_witness:
  "\<exists>h0 h1 base. h0 = put_handle 1 (ProxyFile \<lparr>fh_real_path = ''/usr/lib/libc.so'', fh_scheme_path = ''usr/lib/libc.so'',
        fh_writable = False, fh_append = False, fh_symlink = False, fh_size = 4, fh_mode = 0\<rparr>)
        (new_handler sample_allow (sample_wstate, []))
     \<and> mmap_prep (logged sample_worker) sample_abi 1 0 100 0x10000 h0 = (Inr base, h1)
     \<and> bf_active_mmaps (snd (munmap (logged sample_worker) 1 0 4096 h1)) = bf_active_mmaps h0"
proof -
  let ?h = "put_handle 1 (ProxyFile \<lparr>fh_real_path = ''/usr/lib/libc.so'', fh_scheme_path = ''usr/lib/libc.so'',
        fh_writable = False, fh_append = False, fh_symlink = False, fh_size = 4, fh_mode = 0\<rparr>)
        (new_handler sample_allow (sample_wstate, []))"
  have "fst (worker_mmap_path (sample_kernel (sample_stat 0x8000 4) [1, 2, 3, 4]) sample_abi sample_fds
      ''/usr/lib/libc.so'' 0 100 0x10000 sample_wstate) = Inr \<lparr>mr_token = 1, mr_base_addr = 4096\<rparr>"
    by (simp add: worker_mmap_path_def is_mutable_path_def IMMUTABLE_def starts_with_def
        flags_contain_def open_fd_def strip_prefix_def trim_start_matches_def
        open_profile_or_store_def raw_openat_def sys_def bindS_def attempt_def ret_def
        register_map_def Let_def sample_kernel_def sample_fds_def sample_wstate_def sample_abi_def)
  then obtain h1 where run: "mmap_prep (logged sample_worker) sample_abi 1 0 100 0x10000 ?h = (Inr 4096, h1)"
    by (simp add: mmap_prep_def put_handle_def new_handler_def wrk_log_eq bindS_def modify_def ret_def
        sample_worker_def worker_main_def)
  have pr: "page_round sample_abi 100 = 4096" by (simp add: page_round_def sample_abi_def)
  have "mm_ok (bf_active_mmaps ?h)" by (simp add: mm_ok_def put_handle_def new_handler_def)
  from munmap_undoes_mmap_prep[OF run this, unfolded pr] run show ?thesis by blast
qed

text \<open>
  Closing a handle releases everything it holds. The handle disappears, the worker is
  asked to release each token registered for it, once and in order, and the mappings of the
  other handles stay as they are.
\<close>

theorem on_close_releases:
  "bf_handles (snd (on_close (logged iw) i h)) = (bf_handles h)(i := None)
   \<and> requests (snd (on_close (logged iw) i h)) = requests h @ map MunmapToken
       (concat (map snd (filter (\<lambda>e. mk_handle_id (fst e) = i) (bf_active_mmaps h))))
   \<and> bf_active_mmaps (snd (on_close (logged iw) i h))
       = filter (\<lambda>e. mk_handle_id (fst e) \<noteq> i) (bf_active_mmaps h)"
  using release_all_log[of iw "concat (map snd (filter (\<lambda>e. mk_handle_id (fst e) = i) (bf_active_mmaps h)))"
      "h\<lparr>bf_handles := (bf_handles h)(i := None),
         bf_active_mmaps := filter (\<lambda>e. mk_handle_id (fst e) \<noteq> i) (bf_active_mmaps h)\<rparr>"]
  by (auto simp: on_close_def Let_def requests_def)




text \<open>
  Renaming carries the open handles along. After a successful \<^verbatim>\<open>frename\<close> each handle whose
  real path lies at or below the old path has the target in place of the old path, component
  by component, and every other handle keeps its real path.
\<close>

theorem frename_moves_handles:
  assumes "bf_handles h i = Some x" "clean_abs (handle_real_path x)"
    and "frename iw i path h = (Inr v, h')"
    and "bf_handles h j = Some y"
  shows "\<exists>y'. bf_handles h' j = Some y' \<and>
    (if path_starts_with (handle_real_path y) (handle_real_path x)
     then \<exists>rest. components (handle_real_path y) = components (handle_real_path x) @ rest
        \<and> components (handle_real_path y') = components (resolve_path path) @ rest
     else handle_real_path y' = handle_real_path y)"
proof -
  let ?o = "handle_real_path x" and ?n = "resolve_path path"
  let ?y = "rewrite_handle ?o ?n (handle_scheme_path x) (trim_matches slash path) y"
  have "bf_handles h' j = Some ?y"
    using assms(1,3,4)
    by (auto simp: frename_def Let_def modify_def ret_def wrk_def rewrite_open_handle_paths_def
        elim!: bindS_InrE split: if_splits prod.splits)
  moreover have rp: "handle_real_path ?y = or_keep (handle_real_path y) (rewrite_path_prefix (handle_real_path y) ?o ?n)"
    by (cases y) simp_all
  have ne: "components ?o \<noteq> []" "?n \<noteq> []"
    using clean_abs_ne[OF assms(2)] by (simp_all add: resolve_path_def)
  have "\<exists>rest. components (handle_real_path y) = components ?o @ rest
      \<and> components (handle_real_path ?y) = components ?n @ rest"
    if sw: "path_starts_with (handle_real_path y) ?o"
  proof -
    obtain rest where rest: "path_strip_prefix (handle_real_path y) ?o = Some rest"
      using sw that by (cases "parse_path (handle_real_path y)") (simp add: path_strip_prefix_def Let_def ne)
    note sp = strip_prefix_components[OF rest ne(1)]
    have "components (handle_real_path ?y) = components ?n @ components rest"
      using rest components_join[OF ne(2) sp(1)]
      by (auto simp: rp rewrite_path_prefix_def or_keep_def components_def seg_components_def junk_def)
    with sp(2) show ?thesis by blast
  qed
  moreover have "handle_real_path ?y = handle_real_path y"
    if "\<not> path_starts_with (handle_real_path y) ?o"
    using that by (simp add: rp rewrite_path_prefix_def path_strip_prefix_def or_keep_def)
  ultimately show ?thesis by auto
qed

theorem frename_moves_handles_witness:
  "\<exists>v h' y'. frename (logged sample_worker) 1 ''/out/g'' (sample_state [(1, ''/nix/store/abc/f''), (2, ''/out/k'')]) = (Inr v, h')
     \<and> bf_handles h' 2 = Some y' \<and> handle_real_path y' = ''/out/k''"
proof -
  let ?h = "sample_state [(1, ''/nix/store/abc/f''), (2, ''/out/k'')]"
  have h1: "bf_handles ?h 1 = Some (sample_open_handle ''/nix/store/abc/f'')"
    and h2: "bf_handles ?h 2 = Some (sample_open_handle ''/out/k'')"
    and al: "bf_allow_list ?h = sample_allow"
    by (simp_all add: sample_state_def put_handle_def new_handler_def)
  have ck: "check sample_allow (resolve_path ''/out/g'') = ReadWrite" by code_simp
  obtain v h' where run: "frename (logged sample_worker) 1 ''/out/g'' ?h = (Inr v, h')"
    using h1 ck sample_rename_store al
    by (simp add: frename_def Let_def check_with_symlink_resolution_def bindS_def wrk_log_eq modify_def ret_def
        sample_open_handle_def)
  have cl: "clean_abs (handle_real_path (sample_open_handle ''/nix/store/abc/f''))"
    using clean_abs_root[of "''nix/store/abc/f''"] by (simp add: no_up_def sample_open_handle_def)
  have ns: "\<not> path_starts_with (handle_real_path (sample_open_handle ''/out/k''))
      (handle_real_path (sample_open_handle ''/nix/store/abc/f''))"
    by code_simp
  show ?thesis
    using frename_moves_handles[OF h1 cl run h2] ns run by (auto simp: sample_open_handle_def)
qed

text \<open>
  A rename checks where it goes, not where it comes from. Whatever the permission of the
  handle's own path, a rename onto a writable target is forwarded to the filesystem: a
  build can move a read-only store file that it has open out of the store.
\<close>

theorem frename_source_unchecked:
  assumes "bf_handles h i = Some x" "check (bf_allow_list h) (resolve_path path) = ReadWrite"
  shows "RenamePath (handle_real_path x) (resolve_path path) \<in> set (requests (snd (frename (logged iw) i path h)))"
  using assms
  by (auto simp: frename_def Let_def check_with_symlink_resolution_def bindS_def wrk_log_eq modify_def ret_def
      requests_def rewrite_open_handle_paths_def split: sum.split)

theorem frename_source_unchecked_witness:
  "check sample_allow ''/nix/store/abc/f'' = ReadOnly
   \<and> RenamePath ''/nix/store/abc/f'' ''/out/g'' \<in> set (requests (snd
       (frename (logged sample_worker) 1 ''/out/g'' (sample_state [(1, ''/nix/store/abc/f'')]))))"
proof -
  let ?h = "sample_state [(1, ''/nix/store/abc/f'')]"
  have h1: "bf_handles ?h 1 = Some (sample_open_handle ''/nix/store/abc/f'')"
    and al: "bf_allow_list ?h = sample_allow"
    by (simp_all add: sample_state_def put_handle_def new_handler_def)
  have ck: "check (bf_allow_list ?h) (resolve_path ''/out/g'') = ReadWrite"
    unfolding al by code_simp
  have ro: "check sample_allow ''/nix/store/abc/f'' = ReadOnly" by code_simp
  have "resolve_path ''/out/g'' = ''/out/g''" by code_simp
  with frename_source_unchecked[OF h1 ck, of sample_worker] ro show ?thesis
    by (simp add: sample_open_handle_def)
qed

text \<open>
  Mappings ignore the open mode. \<^verbatim>\<open>mmap_prep\<close> forwards the requested protection for any open file,
  so a shared writable mapping of a file that was opened read-only reaches the filesystem as an
  open for reading and writing.
\<close>

theorem mmap_prep_mode_unchecked:
  "check sample_allow ''/nix/store/abc/f'' = ReadOnly
   \<and> bf_handles (sample_state [(1, ''/nix/store/abc/f'')]) 1 = Some (sample_open_handle ''/nix/store/abc/f'')
   \<and> (\<exists>fh. sample_open_handle ''/nix/store/abc/f'' = ProxyFile fh \<and> \<not> fh_writable fh)
   \<and> (\<exists>h'. mmap_prep sample_logged sample_abi 1 0 100 (PROT_WRITE sample_abi OR MAP_SHARED sample_abi)
            (sample_state [(1, ''/nix/store/abc/f'')]) = (Inr 4096, h')
        \<and> (12, ''abc/f'', O_RDWR) \<in> set (os (fst (bf_world h'))))"
proof -
  have ro: "check sample_allow ''/nix/store/abc/f'' = ReadOnly" by code_simp
  have h1: "bf_handles (sample_state [(1, ''/nix/store/abc/f'')]) 1 = Some (sample_open_handle ''/nix/store/abc/f'')"
    by (simp add: sample_state_def put_handle_def new_handler_def)
  have fb: "flags_contain (PROT_WRITE sample_abi OR MAP_SHARED sample_abi) (PROT_WRITE sample_abi)"
    "flags_contain (PROT_WRITE sample_abi OR MAP_SHARED sample_abi) (MAP_SHARED sample_abi)"
    by code_simp+
  have "\<exists>s'. worker_mmap_path (sample_kernel (sample_stat 0x8000 4) [1, 2, 3, 4]) sample_abi sample_fds
      ''/nix/store/abc/f'' 0 100 (PROT_WRITE sample_abi OR MAP_SHARED sample_abi) sample_wstate
      = (Inr \<lparr>mr_token = 1, mr_base_addr = 4096\<rparr>, s') \<and> os s' = [(12, ''abc/f'', O_RDWR)]"
    unfolding worker_mmap_path_def Let_def
    by (simp add: fb bindS_Inr[OF sample_open_store])
      (simp add: bindS_def attempt_def sys_def register_map_def ret_def sample_kernel_def sample_wstate_def)
  then show ?thesis
    using ro h1
    by (auto simp: mmap_prep_def sample_open_handle_def bindS_def wrk_log_eq modify_def ret_def
        sample_worker_def worker_main_def sample_logged_def sample_state_def put_handle_def new_handler_def)
qed

text \<open>
  The check resolves \<^verbatim>\<open>..\<close>, the directory walk does not. An open for creation at a path that
  reaches a writable entry through \<^verbatim>\<open>..\<close> passes the check, and the parent is handed to the
  worker as written: the worker then creates the intermediate directories of the path outside the
  writable part as well.
\<close>

theorem openat_dotdot_creates_outside:
  "check sample_allow ''/etc/evil'' = Denied
   \<and> (\<exists>h'. openat sample_logged sample_abi 0 ''/etc/evil/../../out/f'' (O_RDWR OR O_CREAT)
          (new_handler sample_allow (sample_wstate, [])) = Some (Inr 1, h')
        \<and> EnsureDirTree ''/etc/evil/../../out'' \<in> set (requests h')
        \<and> (10, ''etc/evil'', O_CREAT OR O_DIRECTORY OR 0x1ED) \<in> set (os (fst (bf_world h'))))"
proof -
  let ?k = "sample_kernel (sample_stat 0x8000 4) [1, 2, 3, 4]"
  let ?p = "''/etc/evil/../../out/f''" and ?fl = "translate_open_flags sample_abi (O_RDWR OR O_CREAT)"
  have dn: "check sample_allow ''/etc/evil'' = Denied" by code_simp
  have pp: "path_parent ?p = Some ''/etc/evil/../../out''" by code_simp
  have fl: "wants_write ?fl = True" "of_create ?fl = True" "of_directory ?fl = False" by code_simp+
  have rs: "resolve_path (trim_matches slash ?p) = ?p" by code_simp
  have ck: "check sample_allow ?p = ReadWrite" by code_simp
  have "fst (worker_ensure_dir_tree ?k sample_fds ''/etc/evil/../../out'' sample_wstate) = Inr ()"
    by (simp add: worker_ensure_dir_tree_def thenS_def bindS_attempt ret_def split: prod.split)
  then obtain w1 where w1: "worker_ensure_dir_tree ?k sample_fds ''/etc/evil/../../out'' sample_wstate = (Inr (), w1)"
    by (metis prod.collapse)
  have "os w1 = map (\<lambda>q. (root_fd sample_fds, join_char slash q, O_CREAT OR O_DIRECTORY OR 0x1ED))
      (tl (prefixes (filter (\<lambda>c. c \<noteq> []) (split_char slash (trim_start_matches slash ''/etc/evil/../../out'')))))"
    using ensure_dir_tree_log[of "\<lambda>l. l" ?k sample_fds "''/etc/evil/../../out''" sample_wstate] w1
    by (simp add: sample_kernel_def ret_def sample_wstate_def)
  then have in1: "(10, ''etc/evil'', O_CREAT OR O_DIRECTORY OR 0x1ED) \<in> set (os w1)"
    by (simp add: trim_start_matches_def sample_fds_def)
  have opn: "worker_open_path ?k sample_fds ?p f w = (Inr \<lparr>opr_stat = sample_stat 0x8000 4, opr_resolved_path = ?p\<rparr>,
      w\<lparr>os := os w @ [(10, ''etc/evil/../../out/f'', f)]\<rparr>)" for f w
    by (simp add: worker_open_path_def open_fd_def strip_prefix_def starts_with_def trim_start_matches_def
        open_profile_or_store_def raw_openat_def raw_fstat_def raw_fpath_def raw_close_def thenS_def sys_def
        bindS_def attempt_def ret_def fail_def Let_def sample_kernel_def sample_fds_def)
  have mkdir: "ensure_dir_tree sample_worker = worker_ensure_dir_tree ?k sample_fds"
    and op: "open_path sample_worker = worker_open_path ?k sample_fds"
    by (simp_all add: sample_worker_def worker_main_def)
  let ?h = "new_handler sample_allow (sample_wstate, [])"
  have "openat sample_logged sample_abi 0 ?p (O_RDWR OR O_CREAT) ?h
      = Some (open_file_with sample_logged sample_abi 1 ?p (trim_matches slash ?p) ?fl True (?h\<lparr>bf_next_id := 2\<rparr>))"
    using ck fl rs
    by (simp add: openat_def resolve_open_path_def Let_def new_handler_def check_with_symlink_resolution_def
        effective_perm_def proxy_alloc_id_def alloc_first)
  moreover have "\<exists>h'. open_file_with sample_logged sample_abi 1 ?p (trim_matches slash ?p) ?fl True (?h\<lparr>bf_next_id := 2\<rparr>)
      = (Inr 1, h') \<and> EnsureDirTree ''/etc/evil/../../out'' \<in> set (requests h')
      \<and> (10, ''etc/evil'', O_CREAT OR O_DIRECTORY OR 0x1ED) \<in> set (os (fst (bf_world h')))"
    using in1 pp w1 opn
    by (simp add: open_file_with_def sample_logged_def bindS_def wrk_log_eq mkdir op map_err_def modify_def ret_def
        put_handle_def requests_def new_handler_def)
  ultimately show ?thesis using dn by auto
qed


text \<open>
  Opening gives a new handle and touches no other. A successful open returns a number in
  the valid range that no open handle had, and adds exactly that handle; and an open call
  always returns while fewer than \<^verbatim>\<open>MAX_HANDLE_ID\<close> handles are open.
\<close>

theorem openat_fresh_handle:
  assumes "card (dom (bf_handles h)) < unat MAX_HANDLE_ID"
  shows "\<exists>r h'. openat iw a dirfd path flags h = Some (r, h')
    \<and> (\<forall>hid. r = Inr hid \<longrightarrow> 1 \<le> hid \<and> hid \<le> MAX_HANDLE_ID \<and> bf_handles h hid = None
         \<and> (\<exists>x. bf_handles h' = (bf_handles h)(hid \<mapsto> x)))"
proof -
  obtain hid h1 where alloc: "proxy_alloc_id h = Some (hid, h1)"
    using ph.alloc_total[OF assms] by blast
  note fresh = ph.alloc_sound[OF alloc]
  have opf: "\<exists>x. bf_handles h' = (bf_handles h1)(hid \<mapsto> x) \<and> i = hid"
    if "open_file_with iw a hid p sp fl mk h1 = (Inr i, h')" for p sp fl mk h' i
    using that
    by (auto simp: open_file_with_def modify_def put_handle_def ret_def wrk_def
        elim!: bindS_InrE map_err_InrE split: option.splits if_splits prod.splits) blast+
  have opd: "\<exists>x. bf_handles h' = (bf_handles h1)(hid \<mapsto> x) \<and> i = hid"
    if "open_dir_with iw hid p sp mk h1 = (Inr i, h')" for p sp mk h' i
    using that
    by (auto simp: open_dir_with_def modify_def put_handle_def ret_def wrk_def
        elim!: bindS_InrE map_err_InrE split: if_splits prod.splits) blast+
  show ?thesis
  proof (cases "resolve_open_path h dirfd path")
    case (Inl e)
    then show ?thesis by (simp add: openat_def)
  next
    case (Inr ps)
    obtain p sp where ps: "ps = (p, sp)" by (cases ps)
    obtain r h' where res: "openat iw a dirfd path flags h = Some (r, h')"
      using Inr ps alloc by (fastforce simp: openat_def Let_def)
    have "1 \<le> i \<and> i \<le> MAX_HANDLE_ID \<and> bf_handles h i = None \<and> (\<exists>x. bf_handles h' = (bf_handles h)(i \<mapsto> x))"
      if "r = Inr i" for i
      using res that Inr ps alloc fresh opf opd
      by (auto simp: openat_def Let_def split: if_splits) metis+
    with res show ?thesis by blast
  qed
qed

theorem openat_fresh_handle_witness:
  "\<exists>r h'. openat sample_worker sample_abi 0 ''/out/f'' (O_RDWR OR O_CREAT) (new_handler sample_allow sample_wstate) = Some (r, h')
    \<and> (\<forall>hid. r = Inr hid \<longrightarrow> 1 \<le> hid \<and> hid \<le> MAX_HANDLE_ID)"
proof -
  have "card (dom (bf_handles (new_handler sample_allow sample_wstate))) < unat MAX_HANDLE_ID"
    by (simp add: new_handler_def MAX_HANDLE_ID_def)
  from openat_fresh_handle[OF this, of sample_worker sample_abi 0 "''/out/f''" "O_RDWR OR O_CREAT"]
  show ?thesis by blast
qed

end
