(* ===== verification/Nar.thy ===== *)
theory Nar
  imports Io_Worker
begin

text \<open>
  NAR extraction with a manifest (\<^verbatim>\<open>snix-redox/src/nar.rs\<close>). The streaming reader of the
  \<^verbatim>\<open>nix-compat\<close> crate is outside the program; what it delivers is data: a node tree whose
  files carry their bytes and a possible read error, and whose directories carry the entries that
  can be read and the error, if any, that ends them. The two sinks write through
  \<^verbatim>\<open>std::fs\<close> or through a root descriptor; the calls they make are parameters.
\<close>

record manifest_entry =
  me_path :: string
  me_type :: string
  me_size :: u64
  me_executable :: bool

type_synonym file_data = "bytes \<times> io_kind option"

datatype nar_node =
    NarFile bool file_data
  | NarSymlink string
  | NarDirectory "(string \<times> nar_node) list" "io_kind option"

section \<open>Sinks\<close>

record 's extract_sink =
  create_dir_all :: "path_buf \<Rightarrow> ('s, io_kind, unit) eio"
  write_file :: "path_buf \<Rightarrow> bool \<Rightarrow> file_data \<Rightarrow> ('s, io_kind, u64) eio"
  create_symlink :: "path_buf \<Rightarrow> string \<Rightarrow> ('s, io_kind, unit) eio"

text \<open>The \<^verbatim>\<open>std::fs\<close> and \<^verbatim>\<open>std::io\<close> calls; files are descriptors, \<open>fs_drop\<close> closes one.\<close>

record 'w std_fs =
  fs_create_dir_all :: "path_buf \<Rightarrow> ('w, io_kind, unit) eio"
  fs_create :: "path_buf \<Rightarrow> ('w, io_kind, usize) eio"
  fs_copy :: "file_data \<Rightarrow> usize \<Rightarrow> ('w, io_kind, u64) eio"
  fs_write_all :: "usize \<Rightarrow> string \<Rightarrow> ('w, io_kind, unit) eio"
  fs_set_permissions :: "path_buf \<Rightarrow> u16 \<Rightarrow> ('w, io_kind, unit) eio"
  fs_symlink :: "string \<Rightarrow> path_buf \<Rightarrow> ('w, io_kind, unit) eio"
  fs_drop :: "usize \<Rightarrow> 'w \<Rightarrow> 'w"

definition owning :: "'w std_fs \<Rightarrow> usize \<Rightarrow> ('w, 'e, 'a) eio \<Rightarrow> ('w, 'e, 'a) eio" where
  "owning fs fd m = (\<lambda>w. case m w of (r, w') \<Rightarrow> (r, fs_drop fs fd w'))"

definition file_mode :: "bool \<Rightarrow> u16" where
  "file_mode executable = (if executable then 0x16D else 0x124)"

definition std_fs_sink :: "'w std_fs \<Rightarrow> 'w extract_sink" where
  "std_fs_sink fs =
     \<lparr>create_dir_all = fs_create_dir_all fs,
      write_file = (\<lambda>p exec data.
        bindS (fs_create fs p) (\<lambda>fd. owning fs fd (
        bindS (fs_copy fs data fd) (\<lambda>n.
        bindS (fs_set_permissions fs p (file_mode exec)) (\<lambda>_. ret n))))),
      create_symlink = (\<lambda>p target. fs_symlink fs target p)\<rparr>"

definition path_to_relative_string :: "path_buf \<Rightarrow> io_kind + string" where
  "path_to_relative_string p =
     (let clean = trim_start_matches slash p in if clean = [] then Inl InvalidInput else Inr clean)"

definition nar_raw_openat :: "'w kernel \<Rightarrow> usize \<Rightarrow> path_buf \<Rightarrow> usize \<Rightarrow> ('w, io_kind, usize) eio" where
  "nar_raw_openat k rfd p flags =
     (case path_to_relative_string p of
        Inl e \<Rightarrow> fail e
      | Inr clean \<Rightarrow> map_err (\<lambda>_. NotFound) (k_openat k rfd clean flags))"

definition raw_fchmod :: "'w kernel \<Rightarrow> usize \<Rightarrow> u16 \<Rightarrow> ('w, io_kind, unit) eio" where
  "raw_fchmod k fd mode = map_err (\<lambda>_. OtherIo 0) (k_fchmod k fd mode)"

text \<open>Unlike the worker's walk, a failing step of this one ends it.\<close>

fun mkdir_strict :: "'w kernel \<Rightarrow> usize \<Rightarrow> string \<Rightarrow> string list \<Rightarrow> ('w, io_kind, unit) eio" where
  "mkdir_strict k rfd built [] = ret ()"
| "mkdir_strict k rfd built (c # cs) =
     (if c = [] then mkdir_strict k rfd built cs
      else let built' = (if built = [] then c else built @ slash # c)
           in bindS (map_err (\<lambda>_. OtherIo 0) (k_openat k rfd built' (O_CREAT OR O_DIRECTORY))) (\<lambda>fd.
              bindS (attempt (k_close k fd)) (\<lambda>_. mkdir_strict k rfd built' cs)))"

definition raw_mkdir_p :: "'w kernel \<Rightarrow> usize \<Rightarrow> path_buf \<Rightarrow> ('w, io_kind, unit) eio" where
  "raw_mkdir_p k rfd p =
     (case path_to_relative_string p of
        Inl e \<Rightarrow> fail e
      | Inr clean \<Rightarrow> mkdir_strict k rfd [] (split_char slash clean))"

definition root_fd_sink :: "'w kernel \<Rightarrow> 'w std_fs \<Rightarrow> abi \<Rightarrow> usize \<Rightarrow> 'w extract_sink" where
  "root_fd_sink k fs a rfd =
     \<lparr>create_dir_all = raw_mkdir_p k rfd,
      write_file = (\<lambda>p exec data.
        bindS (nar_raw_openat k rfd p (O_CREAT OR O_WRONLY OR O_TRUNC)) (\<lambda>fd. owning fs fd (
        bindS (fs_copy fs data fd) (\<lambda>n.
        bindS (raw_fchmod k fd (file_mode exec)) (\<lambda>_. ret n))))),
      create_symlink = (\<lambda>p target.
        bindS (nar_raw_openat k rfd p (O_CREAT OR O_SYMLINK a OR O_WRONLY)) (\<lambda>fd. owning fs fd (
        fs_write_all fs fd target)))\<rparr>"

section \<open>Extraction\<close>

definition push_entry :: "manifest_entry \<Rightarrow> ('s \<times> manifest_entry list, 'e, unit) eio" where
  "push_entry e = (\<lambda>(s, manifest). (Inr (), (s, manifest @ [e])))"

definition on_sink :: "('s, 'e, 'a) eio \<Rightarrow> ('s \<times> manifest_entry list, 'e, 'a) eio" where
  "on_sink f = (\<lambda>(s, manifest). case f s of (r, s') \<Rightarrow> (r, (s', manifest)))"

definition child_rel :: "string \<Rightarrow> string \<Rightarrow> string" where
  "child_rel rel_path name = (if rel_path = [] then name else rel_path @ slash # name)"

fun extract_node_with_sink ::
    "'s extract_sink \<Rightarrow> nar_node \<Rightarrow> path_buf \<Rightarrow> string \<Rightarrow> ('s \<times> manifest_entry list, io_kind, unit) eio"
and extract_entries ::
    "'s extract_sink \<Rightarrow> (string \<times> nar_node) list \<Rightarrow> io_kind option \<Rightarrow> path_buf \<Rightarrow> string
     \<Rightarrow> ('s \<times> manifest_entry list, io_kind, unit) eio" where
  "extract_node_with_sink sink (NarFile exec data) p rel_path =
     bindS (on_sink (write_file sink p exec data)) (\<lambda>n.
     push_entry \<lparr>me_path = rel_path, me_type = ''file'', me_size = n, me_executable = exec\<rparr>)"
| "extract_node_with_sink sink (NarSymlink target) p rel_path =
     (if \<not> utf8_valid target then fail InvalidData
      else bindS (on_sink (create_symlink sink p target)) (\<lambda>_.
           push_entry \<lparr>me_path = rel_path, me_type = ''symlink'', me_size = 0, me_executable = False\<rparr>))"
| "extract_node_with_sink sink (NarDirectory entries err) p rel_path =
     bindS (on_sink (create_dir_all sink p)) (\<lambda>_.
     bindS (if rel_path \<noteq> []
            then push_entry \<lparr>me_path = rel_path, me_type = ''dir'', me_size = 0, me_executable = False\<rparr>
            else ret ()) (\<lambda>_.
     extract_entries sink entries err p rel_path))"
| "extract_entries sink [] err p rel_path = (case err of None \<Rightarrow> ret () | Some e \<Rightarrow> fail e)"
| "extract_entries sink ((name, node) # entries) err p rel_path =
     (if \<not> utf8_valid name then fail InvalidData
      else if slash \<in> set name \<or> name = ''.'' \<or> name = ''..'' then fail InvalidData
      else bindS (extract_node_with_sink sink node (path_join p name) (child_rel rel_path name)) (\<lambda>_.
           extract_entries sink entries err p rel_path))"

text \<open>The reader hands over the root node or the error of opening the archive.\<close>

definition extract_with_manifest ::
  "'s extract_sink \<Rightarrow> io_kind + nar_node \<Rightarrow> path_buf \<Rightarrow> ('s, io_kind, manifest_entry list) eio" where
  "extract_with_manifest sink archive dest = (\<lambda>s.
     case archive of
       Inl e \<Rightarrow> (Inl e, s)
     | Inr node \<Rightarrow>
         (case extract_node_with_sink sink node dest [] (s, []) of
            (Inl e, (s', _)) \<Rightarrow> (Inl e, s')
          | (Inr _, (s', manifest)) \<Rightarrow> (Inr manifest, s')))"

definition nar_extract ::
  "'s extract_sink \<Rightarrow> io_kind + nar_node \<Rightarrow> path_buf \<Rightarrow> ('s, io_kind, unit) eio" where
  "nar_extract sink archive dest = bindS (extract_with_manifest sink archive dest) (\<lambda>_. ret ())"

definition extract_with_manifest_via_root_fd ::
  "'w kernel \<Rightarrow> 'w std_fs \<Rightarrow> abi \<Rightarrow> io_kind + nar_node \<Rightarrow> path_buf \<Rightarrow> usize
   \<Rightarrow> ('w, io_kind, manifest_entry list) eio" where
  "extract_with_manifest_via_root_fd k fs a archive dest rfd =
     extract_with_manifest (root_fd_sink k fs a rfd) archive dest"

section \<open>The tree the archive describes\<close>

text \<open>
  Reference: the entries of a tree in the order of a pre-order walk, each with its list of
  names. \<open>readable_tree\<close> says that every name in the tree is acceptable and no read of it fails.
\<close>

fun node_type :: "nar_node \<Rightarrow> string" where
  "node_type (NarFile _ _) = ''file''"
| "node_type (NarSymlink _) = ''symlink''"
| "node_type (NarDirectory _ _) = ''dir''"

fun tree_paths :: "nar_node \<Rightarrow> string list \<Rightarrow> (string list \<times> string) list"
and entries_paths :: "(string \<times> nar_node) list \<Rightarrow> string list \<Rightarrow> (string list \<times> string) list" where
  "tree_paths (NarFile _ _) ns = [(ns, ''file'')]"
| "tree_paths (NarSymlink _) ns = [(ns, ''symlink'')]"
| "tree_paths (NarDirectory entries _) ns =
     (if ns = [] then [] else [(ns, ''dir'')]) @ entries_paths entries ns"
| "entries_paths [] ns = []"
| "entries_paths ((name, node) # entries) ns = tree_paths node (ns @ [name]) @ entries_paths entries ns"


definition entry_at :: "string list \<times> string \<Rightarrow> string \<times> string" where
  "entry_at x = (join_char slash (fst x), snd x)"

definition kind_at :: "manifest_entry \<Rightarrow> string \<times> string" where
  "kind_at e = (me_path e, me_type e)"

lemma child_rel_join: "ns \<noteq> [] \<Longrightarrow> join_char slash ns \<noteq> [] \<Longrightarrow> child_rel (join_char slash ns) n = join_char slash (ns @ [n])"
  by (simp add: child_rel_def join_char_snoc)

lemma child_rel_Nil: "child_rel [] n = join_char slash ([] @ [n])"
  by (simp add: child_rel_def)

fun readable_tree :: "nar_node \<Rightarrow> bool" and readable_entries :: "(string \<times> nar_node) list \<Rightarrow> bool" where
  "readable_tree (NarFile _ data) \<longleftrightarrow> snd data = None"
| "readable_tree (NarSymlink target) \<longleftrightarrow> utf8_valid target"
| "readable_tree (NarDirectory entries err) \<longleftrightarrow> err = None \<and> readable_entries entries"
| "readable_entries [] \<longleftrightarrow> True"
| "readable_entries ((name, node) # entries) \<longleftrightarrow>
     valid_name name \<and> utf8_valid name \<and> readable_tree node \<and> readable_entries entries"

definition sink_accepts :: "'s extract_sink \<Rightarrow> bool" where
  "sink_accepts sink \<longleftrightarrow> (\<forall>p s. \<exists>s'. create_dir_all sink p s = (Inr (), s'))
     \<and> (\<forall>p exec bs s. \<exists>s'. write_file sink p exec (bs, None) s = (Inr (of_nat (length bs)), s'))
     \<and> (\<forall>p target s. \<exists>s'. create_symlink sink p target s = (Inr (), s'))"

lemma join_ne: "ns \<noteq> [] \<Longrightarrow> hd ns \<noteq> [] \<Longrightarrow> join_char slash ns \<noteq> []"
  by (rule join_char_ne)

lemma rel_of_ne:
  assumes "ns = [] \<or> hd ns \<noteq> []" "n \<noteq> []"
  shows "child_rel (join_char slash ns) n = join_char slash (ns @ [n]) \<and> hd (ns @ [n]) \<noteq> []"
  using assms by (cases "ns = []") (auto simp: child_rel_Nil child_rel_join join_ne)

lemma extract_tree:
  assumes "sink_accepts sink"
  shows "readable_tree node \<Longrightarrow> ns = [] \<or> hd ns \<noteq> [] \<Longrightarrow>
      \<exists>s' man'. extract_node_with_sink sink node p (join_char slash ns) (s, man) = (Inr (), (s', man @ man'))
        \<and> map kind_at man' = map entry_at (tree_paths node ns)"
    and "readable_entries es \<Longrightarrow> ns = [] \<or> hd ns \<noteq> [] \<Longrightarrow>
      \<exists>s' man'. extract_entries sink es None p (join_char slash ns) (s, man) = (Inr (), (s', man @ man'))
        \<and> map kind_at man' = map entry_at (entries_paths es ns)"
proof (induction node ns and es ns arbitrary: p s man and p s man rule: tree_paths_entries_paths.induct)
  case (1 exec data ns)
  obtain bs where bs: "data = (bs, None)" using 1 by (cases data) auto
  obtain s' where "write_file sink p exec (bs, None) s = (Inr (of_nat (length bs)), s')"
    using assms unfolding sink_accepts_def by blast
  with bs show ?case by (auto simp: bindS_def on_sink_def push_entry_def kind_at_def entry_at_def)
next
  case (2 target ns)
  obtain s' where "create_symlink sink p target s = (Inr (), s')"
    using assms unfolding sink_accepts_def by blast
  with 2 show ?case by (auto simp: bindS_def on_sink_def push_entry_def kind_at_def entry_at_def)
next
  case (3 entries err ns)
  obtain s1 where s1: "create_dir_all sink p s = (Inr (), s1)"
    using assms unfolding sink_accepts_def by blast
  let ?d = "\<lparr>me_path = join_char slash ns, me_type = ''dir'', me_size = 0, me_executable = False\<rparr>"
  have kind: "kind_at ?d = entry_at (ns, ''dir'')" by (simp add: kind_at_def entry_at_def)
  show ?case
  proof (cases "ns = []")
    case True
    then show ?thesis using 3(1)[of p s1 man] 3(2,3) s1 by (simp add: bindS_def on_sink_def ret_def)
  next
    case False
    then have "join_char slash ns \<noteq> []" using 3(3) join_ne[of ns] by blast
    moreover obtain s' man' where "extract_entries sink entries None p (join_char slash ns) (s1, man @ [?d])
        = (Inr (), (s', (man @ [?d]) @ man'))" "map kind_at man' = map entry_at (entries_paths entries ns)"
      using 3(1)[of p s1 "man @ [?d]"] 3(2,3) by auto
    ultimately show ?thesis
      using False s1 3(2) kind
      by (intro exI[of _ s'] exI[of _ "?d # man'"]) (simp add: bindS_def on_sink_def push_entry_def)
  qed
next
  case (4 ns)
  then show ?case by (auto simp: ret_def)
next
  case (5 name node entries ns)
  then have n: "valid_name name" "utf8_valid name" by simp_all
  then have ne: "name \<noteq> []" "slash \<notin> set name" "name \<noteq> ''.''" "name \<noteq> ''..''" by (simp_all add: valid_name_def)
  note rel = rel_of_ne[OF 5(4) ne(1)]
  obtain s1 m1 where s1: "extract_node_with_sink sink node (path_join p name) (join_char slash (ns @ [name])) (s, man)
      = (Inr (), (s1, man @ m1))" "map kind_at m1 = map entry_at (tree_paths node (ns @ [name]))"
    using 5(1)[of "path_join p name" s man] 5(3) rel by auto
  obtain s2 m2 where s2: "extract_entries sink entries None p (join_char slash ns) (s1, man @ m1)
      = (Inr (), (s2, (man @ m1) @ m2))" "map kind_at m2 = map entry_at (entries_paths entries ns)"
    using 5(2)[of p s1 "man @ m1"] 5(3,4) by auto
  from s1 s2 n ne rel show ?case
    by (intro exI[of _ s2] exI[of _ "m1 @ m2"]) (simp add: bindS_def)
qed


section \<open>Where extraction writes\<close>

definition note_path :: "path_buf \<Rightarrow> ('s, 'e, 'a) eio \<Rightarrow> ('s \<times> path_buf list, 'e, 'a) eio" where
  "note_path p f = (\<lambda>(s, l). case f s of (r, s') \<Rightarrow> (r, (s', l @ [p])))"

definition recording :: "'s extract_sink \<Rightarrow> ('s \<times> path_buf list) extract_sink" where
  "recording sink =
     \<lparr>create_dir_all = (\<lambda>p. note_path p (create_dir_all sink p)),
      write_file = (\<lambda>p exec data. note_path p (write_file sink p exec data)),
      create_symlink = (\<lambda>p target. note_path p (create_symlink sink p target))\<rparr>"

definition inside :: "path_buf \<Rightarrow> path_buf \<Rightarrow> bool" where
  "inside dest p \<longleftrightarrow> p \<noteq> [] \<and> (\<exists>ns. components p = components dest @ map Normal ns)"

definition all_inside :: "path_buf \<Rightarrow> (('s \<times> path_buf list) \<times> manifest_entry list) \<Rightarrow> bool" where
  "all_inside dest w \<longleftrightarrow> list_all (inside dest) (snd (fst w))"

lemma inside_refl: "dest \<noteq> [] \<Longrightarrow> inside dest dest"
  by (auto simp: inside_def intro: exI[of _ "[]"])

lemma inside_join:
  assumes "inside dest p" "slash \<notin> set n" "n \<noteq> ''..''"
  shows "inside dest (path_join p n)"
proof -
  obtain ns where p: "p \<noteq> []" "components p = components dest @ map Normal ns"
    using assms(1) by (auto simp: inside_def)
  have "components (path_join p n) = components p @ seg_components n"
    using components_join_pieces[of p n] p(1) assms(2) split_char_single[of slash n]
    by (metis append_Nil2 concat.simps hd_in_set list.map)
  moreover have "\<exists>ms. seg_components n = map Normal ms"
    using assms(3) by (cases "junk n") (auto simp: seg_components_def intro: exI[of _ "[n]"])
  moreover have "path_join p n \<noteq> []" using p(1) by (simp add: path_join_def)
  ultimately show ?thesis using p(2) unfolding inside_def by (metis append.assoc map_append)
qed

lemma keeps_note: "inside dest p \<Longrightarrow> keeps (all_inside dest) (on_sink (note_path p f))"
  by (auto intro!: keepsI simp: all_inside_def on_sink_def note_path_def split: prod.split)

lemma keeps_push: "keeps (all_inside dest) (push_entry e)"
  by (auto intro!: keepsI simp: all_inside_def push_entry_def)

lemma recording_simps [simp]:
  "create_dir_all (recording sink) p = note_path p (create_dir_all sink p)"
  "write_file (recording sink) p exec data = note_path p (write_file sink p exec data)"
  "create_symlink (recording sink) p target = note_path p (create_symlink sink p target)"
  by (simp_all add: recording_def)

lemma extract_keeps_inside:
  "inside dest p \<Longrightarrow> keeps (all_inside dest) (extract_node_with_sink (recording sink) node p rel)"
  "inside dest p \<Longrightarrow> keeps (all_inside dest) (extract_entries (recording sink) es err p rel)"
  by (induction "recording sink" node p rel and "recording sink" es err p rel
      rule: extract_node_with_sink_extract_entries.induct)
    (auto intro!: keeps_rules keeps_note keeps_push split: option.split simp: inside_join)

section \<open>Order of the manifest\<close>

text \<open>Every entry below the top level comes after the entry of the directory it is in.\<close>

definition parents_first :: "(string list \<times> string) list \<Rightarrow> bool" where
  "parents_first xs \<longleftrightarrow> (\<forall>pre x post. xs = pre @ x # post \<longrightarrow> 1 < length (fst x) \<longrightarrow>
     (butlast (fst x), ''dir'') \<in> set pre)"

lemma append_Cons_split:
  assumes "as @ bs = pre @ x # post"
  obtains post' where "as = pre @ x # post'" | pre' where "pre = as @ pre'" "bs = pre' @ x # post"
  using assms by (auto simp: append_eq_append_conv2 append_eq_Cons_conv Cons_eq_append_conv)

lemma tree_order:
  "tree_paths node ns = pre @ x # post \<Longrightarrow> fst x = ns \<or> (butlast (fst x), ''dir'') \<in> set pre
     \<or> (ns = [] \<and> length (fst x) \<le> 1)"
  "entries_paths es ns = pre @ x # post \<Longrightarrow> butlast (fst x) = ns \<or> (butlast (fst x), ''dir'') \<in> set pre"
proof (induction node ns and es ns arbitrary: pre x post and pre x post rule: tree_paths_entries_paths.induct)
  case (3 entries err ns)
  show ?case
  proof (cases "ns = []")
    case True
    with 3 have "butlast (fst x) = [] \<or> (butlast (fst x), ''dir'') \<in> set pre" by auto
    with True show ?thesis by (cases "fst x" rule: rev_cases) auto
  next
    case False
    with 3 show ?thesis by (cases pre) auto
  qed
next
  case (5 name node entries ns)
  from 5(3) have "tree_paths node (ns @ [name]) @ entries_paths entries ns = pre @ x # post" by simp
  then show ?case
  proof (cases rule: append_Cons_split)
    case (1 post')
    from 5(1)[OF this] show ?thesis by auto
  next
    case (2 pre')
    from 5(2)[OF this(2)] 2(1) show ?thesis by auto
  qed
qed (auto simp: Cons_eq_append_conv)

lemma tree_parents_first: "parents_first (tree_paths node [])"
  unfolding parents_first_def using tree_order(1)[of node "[]"] by fastforce


section \<open>Subtrees\<close>

fun subtree :: "nar_node \<Rightarrow> string list \<Rightarrow> nar_node option" where
  "subtree node [] = Some node"
| "subtree (NarDirectory entries err) (n # ns) =
     (case map_of entries n of None \<Rightarrow> None | Some child \<Rightarrow> subtree child ns)"
| "subtree _ (n # ns) = None"

fun distinct_tree :: "nar_node \<Rightarrow> bool" and distinct_entries :: "(string \<times> nar_node) list \<Rightarrow> bool" where
  "distinct_tree (NarFile _ _) \<longleftrightarrow> True"
| "distinct_tree (NarSymlink _) \<longleftrightarrow> True"
| "distinct_tree (NarDirectory entries _) \<longleftrightarrow> distinct (map fst entries) \<and> distinct_entries entries"
| "distinct_entries [] \<longleftrightarrow> True"
| "distinct_entries ((name, node) # entries) \<longleftrightarrow> distinct_tree node \<and> distinct_entries entries"

lemma tree_paths_subtree:
  "distinct_tree node \<Longrightarrow> (x \<in> set (tree_paths node ns)) \<longleftrightarrow>
     (\<exists>q m. subtree node q = Some m \<and> x = (ns @ q, node_type m) \<and> ns @ q \<noteq> []) \<or> (ns = [] \<and> (\<exists>e d t. (node = NarFile e d \<or> node = NarSymlink t) \<and> x = ([], node_type node)))"
  "distinct_entries es \<Longrightarrow> distinct (map fst es) \<Longrightarrow> (x \<in> set (entries_paths es ns)) \<longleftrightarrow>
     (\<exists>n child q m. map_of es n = Some child \<and> subtree child q = Some m \<and> x = (ns @ n # q, node_type m))"
proof (induction node ns and es ns rule: tree_paths_entries_paths.induct)
  case (1 e d ns)
  have "subtree (NarFile e d) q = Some m \<longleftrightarrow> q = [] \<and> m = NarFile e d" for q m
    by (cases q) auto
  then show ?case by auto
next
  case (2 t ns)
  have "subtree (NarSymlink t) q = Some m \<longleftrightarrow> q = [] \<and> m = NarSymlink t" for q m
    by (cases q) auto
  then show ?case by auto
next
  case (3 entries err ns)
  have "(\<exists>q m. subtree (NarDirectory entries err) q = Some m \<and> x = (ns @ q, node_type m) \<and> ns @ q \<noteq> [])
     \<longleftrightarrow> (ns \<noteq> [] \<and> x = (ns, ''dir'')) \<or> (\<exists>n child q m. map_of entries n = Some child \<and> subtree child q = Some m \<and> x = (ns @ n # q, node_type m))"
    (is "?l \<longleftrightarrow> ?r")
  proof
    assume ?l
    then obtain q m where "subtree (NarDirectory entries err) q = Some m" "x = (ns @ q, node_type m)" "ns @ q \<noteq> []" by blast
    then show ?r by (cases q) (auto split: option.splits)
  next
    assume ?r
    then show ?l
    proof (elim disjE conjE exE)
      assume "ns \<noteq> []" "x = (ns, ''dir'')"
      then show ?l by (intro exI[of _ "[]"] exI[of _ "NarDirectory entries err"]) simp
    next
      fix n child q m
      assume "map_of entries n = Some child" "subtree child q = Some m" "x = (ns @ n # q, node_type m)"
      then show ?l by (intro exI[of _ "n # q"] exI[of _ m]) simp
    qed
  qed
  with 3 show ?case by auto
next
  case (5 name node entries ns)
  have dt: "distinct_tree node" "distinct_entries entries" "distinct (map fst entries)" using 5(3,4) by simp_all
  have none: "map_of entries name = None" using 5(4) by (auto simp: map_of_eq_None_iff)
  have a: "x \<in> set (tree_paths node (ns @ [name])) \<longleftrightarrow>
      (\<exists>q m. subtree node q = Some m \<and> x = (ns @ name # q, node_type m))"
    using 5(1)[OF dt(1)] by simp
  note b = 5(2)[OF dt(2,3)]
  have m: "map_of ((name, node) # entries) n = Some child \<longleftrightarrow>
      (n = name \<and> child = node) \<or> map_of entries n = Some child" for n child
    using none by auto
  have "x \<in> set (entries_paths ((name, node) # entries) ns) \<longleftrightarrow>
      x \<in> set (tree_paths node (ns @ [name])) \<or> x \<in> set (entries_paths entries ns)" by simp
  then show ?case unfolding a b m by blast
qed simp

section \<open>Properties\<close>

text \<open>
  C21: the manifest describes the archive. Extracting a readable archive with well-formed names
  into a sink that accepts every write succeeds, and the manifest lists the paths and types of
  the tree in pre-order: each directory before what it contains.
\<close>

theorem extract_manifest_exact:
  assumes "sink_accepts sink" "readable_tree node"
  shows "\<exists>man s'. extract_with_manifest sink (Inr node) dest s = (Inr man, s')
    \<and> map kind_at man = map entry_at (tree_paths node []) \<and> parents_first (tree_paths node [])"
proof -
  obtain s' man where "extract_node_with_sink sink node dest (join_char slash []) (s, []) = (Inr (), (s', [] @ man))"
    "map kind_at man = map entry_at (tree_paths node [])"
    using extract_tree(1)[OF assms, of "[]" dest s "[]"] by blast
  then show ?thesis
    using tree_parents_first[of node] by (simp add: extract_with_manifest_def)
qed

definition null_sink :: "unit extract_sink" where
  "null_sink = \<lparr>create_dir_all = (\<lambda>_. ret ()), write_file = (\<lambda>_ _ data. ret (of_nat (length (fst data)))),
     create_symlink = (\<lambda>_ _. ret ())\<rparr>"

definition sample_tree :: nar_node where
  "sample_tree = NarDirectory [(''bin'', NarDirectory [(''rg'', NarFile True ([1, 2, 3], None))] None),
     (''link'', NarSymlink ''bin/rg'')] None"

lemma sample_tree_ok: "readable_tree sample_tree" "sink_accepts null_sink"
  by (simp_all add: sample_tree_def valid_name_def byte_of_def sink_accepts_def null_sink_def ret_def)

theorem extract_manifest_exact_witness:
  "\<exists>man s'. extract_with_manifest null_sink (Inr sample_tree) ''/nix/store/x'' () = (Inr man, s')
    \<and> map kind_at man = [(''bin'', ''dir''), (''bin/rg'', ''file''), (''link'', ''symlink'')]"
  using extract_manifest_exact[OF sample_tree_ok(2,1), of "''/nix/store/x''" "()"]
  by (auto simp: sample_tree_def entry_at_def)

text \<open>
  C11: extraction never leaves the destination. For every archive, whatever names, errors or
  truncations it contains and whatever the sink answers, each path handed to the sink is the
  destination or lies below it, with nothing but proper names in between.
\<close>

theorem extract_stays_inside:
  assumes "dest \<noteq> []"
  shows "list_all (inside dest) (snd (snd (extract_with_manifest (recording sink) archive dest (s, []))))"
proof (cases archive)
  case (Inl e)
  then show ?thesis by (simp add: extract_with_manifest_def)
next
  case (Inr node)
  have "all_inside dest (snd (extract_node_with_sink (recording sink) node dest [] ((s, []), [])))"
    by (rule keeps_snd[OF extract_keeps_inside(1)[OF inside_refl[OF assms]]]) (simp add: all_inside_def)
  then show ?thesis
    using Inr by (auto simp: extract_with_manifest_def all_inside_def split: prod.split sum.split)
qed

theorem extract_stays_inside_witness:
  "list_all (inside ''/nix/store/x'') (snd (snd (extract_with_manifest (recording null_sink)
     (Inr (NarDirectory [(''..'', sample_tree)] None)) ''/nix/store/x'' ((), []))))"
  by (rule extract_stays_inside) simp

end
