(* ===== verification/Manifest_View.thy ===== *)
theory Manifest_View
  imports Nar
begin

text \<open>
  Directory listings computed from manifests, as the store daemon
  (\<^verbatim>\<open>stored/mod.rs\<close>, \<^verbatim>\<open>list_from_manifest\<close>) and the profile daemon (\<^verbatim>\<open>profiled/mapping.rs\<close>,
  \<^verbatim>\<open>list_union_from_manifests\<close>) do it. Both walk a sequence of manifest entries and collect the
  direct children of a directory in an ordered map; what they share is the locale \<open>child_listing\<close>.
\<close>

section \<open>Children of a directory\<close>

definition dir_prefix :: "string \<Rightarrow> string" where
  "dir_prefix subpath = (if subpath = [] then [] else trim_end_matches slash subpath @ ''/'')"

definition rel_below :: "string \<Rightarrow> string \<Rightarrow> string option" where
  "rel_below pre p = (if pre = [] then Some p else strip_prefix p pre)"

datatype child = NoChild | Nested string | Direct string

definition child_of :: "string \<Rightarrow> string \<Rightarrow> child" where
  "child_of pre p =
     (case rel_below pre p of
        None \<Rightarrow> NoChild
      | Some rel \<Rightarrow>
          (case find_char slash rel of
             Some pos \<Rightarrow> Nested (take pos rel)
           | None \<Rightarrow> if rel \<noteq> [] then Direct rel else NoChild))"

fun child_name :: "child \<Rightarrow> string set" where
  "child_name NoChild = {}"
| "child_name (Nested n) = {n}"
| "child_name (Direct n) = {n}"

locale child_listing =
  fixes step :: "string \<Rightarrow> 'x \<Rightarrow> (string, 'v) btree \<Rightarrow> (string, 'v) btree"
    and path_of :: "'x \<Rightarrow> string"
    and implied :: "'x \<Rightarrow> string \<Rightarrow> 'v"
    and direct :: "'x \<Rightarrow> string \<Rightarrow> 'v"
    and name_of :: "'v \<Rightarrow> string"
  assumes step_eq: "step pre x m =
      (case child_of pre (path_of x) of
         NoChild \<Rightarrow> m
       | Nested n \<Rightarrow> bt_or_insert n (implied x n) m
       | Direct n \<Rightarrow> bt_insert n (direct x n) m)"
    and name_implied: "name_of (implied x n) = n"
    and name_direct: "name_of (direct x n) = n"
begin

lemma inv_step: "bt_inv m \<Longrightarrow> bt_inv (step pre x m)"
  by (auto simp: step_eq split: child.split)

lemma inv_walk: "bt_inv m \<Longrightarrow> bt_inv (fold (step pre) xs m)"
  by (induction xs arbitrary: m) (auto intro: inv_step)

lemma dom_step: "dom (bt_get (step pre x m)) = dom (bt_get m) \<union> child_name (child_of pre (path_of x))"
  by (auto simp: step_eq bt_simps split: child.split option.splits if_splits)

lemma dom_walk:
  "dom (bt_get (fold (step pre) xs m)) = dom (bt_get m) \<union> (\<Union>x\<in>set xs. child_name (child_of pre (path_of x)))"
  by (induction xs arbitrary: m) (auto simp: dom_step)

text \<open>The value stored for a name: the last direct entry, else the first nested one.\<close>

definition value_at :: "string \<Rightarrow> 'x list \<Rightarrow> string \<Rightarrow> 'v option" where
  "value_at pre xs n =
     (case find (\<lambda>x. child_of pre (path_of x) = Direct n) (rev xs) of
        Some x \<Rightarrow> Some (direct x n)
      | None \<Rightarrow> map_option (\<lambda>x. implied x n) (find (\<lambda>x. child_of pre (path_of x) = Nested n) xs))"

lemma get_step:
  "bt_get (step pre x m) n =
     (if child_of pre (path_of x) = Direct n then Some (direct x n)
      else if child_of pre (path_of x) = Nested n \<and> bt_get m n = None then Some (implied x n)
      else bt_get m n)"
  by (cases "child_of pre (path_of x)") (auto simp: step_eq bt_simps split: option.split)

lemma find_snoc: "find P (xs @ [x]) = (case find P xs of None \<Rightarrow> if P x then Some x else None | Some y \<Rightarrow> Some y)"
  by (induction xs) auto

lemma get_walk: "bt_get (fold (step pre) xs []) n = value_at pre xs n"
proof (induction xs rule: rev_induct)
  case Nil
  then show ?case by (simp add: value_at_def)
next
  case (snoc x xs)
  have none: "value_at pre xs n = None \<longleftrightarrow> find (\<lambda>x. child_of pre (path_of x) = Direct n) (rev xs) = None
      \<and> find (\<lambda>x. child_of pre (path_of x) = Nested n) xs = None"
    by (auto simp: value_at_def split: option.split)
  show ?case
    using none by (auto simp: get_step snoc value_at_def find_snoc split: option.split)
qed

lemma names_walk:
  assumes "(n, v) \<in> set (fold (step pre) xs [])"
  shows "name_of v = n"
proof -
  have "bt_get (fold (step pre) xs []) n = Some v"
    using assms bt_get_Some_iff[OF inv_walk[of "[]" pre xs]] by simp
  then show ?thesis
    by (auto simp: get_walk value_at_def name_implied name_direct split: option.splits)
qed

text \<open>The listing in name order, with nothing left for the final sort to do.\<close>

lemma sort_noop: "sorted (map f xs) \<Longrightarrow> sort_key f xs = xs"
  by (induction xs) (auto simp: insort_is_Cons)

lemma listing_names:
  "map name_of (sort_key name_of (bt_values (fold (step pre) xs [])))
   = sorted_list_of_set (\<Union>x\<in>set xs. child_name (child_of pre (path_of x)))"
proof -
  let ?m = "fold (step pre) xs []"
  have inv: "bt_inv ?m" by (rule inv_walk) simp
  have n: "map name_of (bt_values ?m) = bt_keys ?m"
    using names_walk by (auto simp: bt_values_def bt_keys_def)
  have srt: "sorted_wrt (<) (bt_keys ?m)" using inv by (simp add: bt_inv_def bt_keys_def)
  then have "sorted (map name_of (bt_values ?m))" unfolding n by (rule strict_sorted_imp_sorted)
  then have "map name_of (sort_key name_of (bt_values ?m)) = bt_keys ?m"
    using n by (simp add: sort_noop)
  moreover have "set (bt_keys ?m) = (\<Union>x\<in>set xs. child_name (child_of pre (path_of x)))"
    by (simp add: bt_keys_dom dom_walk)
  ultimately show ?thesis
    using srt by (metis List.finite_set sorted_list_of_set.idem_if_sorted_distinct strict_sorted_iff
        sorted_list_of_set.sorted_key_list_of_set_unique)
qed

lemma listing_member:
  "v \<in> set (sort_key name_of (bt_values (fold (step pre) xs [])))
   \<longleftrightarrow> value_at pre xs (name_of v) = Some v"
proof -
  let ?m = "fold (step pre) xs []"
  have inv: "bt_inv ?m" by (rule inv_walk) simp
  have "v \<in> set (bt_values ?m) \<longleftrightarrow> bt_get ?m (name_of v) = Some v"
    using bt_get_Some_iff[OF inv, of "name_of v" v] names_walk
    by (force simp: bt_values_def)
  then show ?thesis by (simp add: get_walk)
qed

end


section \<open>Children of joined paths\<close>

definition names_ok :: "string list \<Rightarrow> bool" where
  "names_ok ns \<longleftrightarrow> (\<forall>n\<in>set ns. valid_name n)"

lemma names_ok_simps [simp]:
  "names_ok []" "names_ok (n # ns) \<longleftrightarrow> valid_name n \<and> names_ok ns"
  "names_ok (ns @ ms) \<longleftrightarrow> names_ok ns \<and> names_ok ms"
  by (auto simp: names_ok_def)

lemma names_ok_no_slash: "names_ok ns \<Longrightarrow> \<forall>w\<in>set ns. slash \<notin> set w"
  by (auto simp: names_ok_def valid_name_def)

lemma join_append: "ns \<noteq> [] \<Longrightarrow> ms \<noteq> [] \<Longrightarrow> join_char slash (ns @ ms) = join_char slash ns @ slash # join_char slash ms"
  by (induction slash ns rule: join_char.induct) (auto simp: neq_Nil_conv)

lemma join_inj: "names_ok ns \<Longrightarrow> names_ok ms \<Longrightarrow> join_char slash ns = join_char slash ms \<Longrightarrow> ns = ms"
proof (cases "ns = [] \<or> ms = []")
  case True
  assume a: "names_ok ns" "names_ok ms" "join_char slash ns = join_char slash ms"
  have "join_char slash xs \<noteq> []" if "names_ok xs" "xs \<noteq> []" for xs
    using that by (intro join_char_ne) (auto simp: names_ok_def valid_name_def)
  with a True show ?thesis by force
next
  case False
  assume "names_ok ns" "names_ok ms" "join_char slash ns = join_char slash ms"
  then show ?thesis using False split_join_char names_ok_no_slash by metis
qed

lemma rel_below_join:
  assumes "names_ok p" "names_ok q"
  shows "rel_below (dir_prefix (join_char slash p)) (join_char slash q)
    = (if p = [] then Some (join_char slash q)
       else if prefix p q \<and> q \<noteq> p then Some (join_char slash (drop (length p) q)) else None)"
proof (cases "p = []")
  case True
  then show ?thesis by (simp add: rel_below_def dir_prefix_def)
next
  case False
  let ?j = "join_char slash"
  have hdp: "hd p \<noteq> []" using assms(1) False by (auto simp: names_ok_def valid_name_def)
  have ne: "?j p \<noteq> []" by (rule join_char_ne[OF False hdp])
  have "last (?j p) \<noteq> slash" using join_char_last[OF False] assms(1) by (simp add: names_ok_def)
  then have dp: "dir_prefix (?j p) = ?j p @ ''/''" using ne by (simp add: dir_prefix_def trim_end_id)
  have key: "?j q = ?j p @ slash # r \<longleftrightarrow> q \<noteq> [] \<and> q = p @ split_char slash r" for r
  proof
    assume eq: "?j q = ?j p @ slash # r"
    then have qne: "q \<noteq> []" by auto
    have "q = split_char slash (?j q)" using split_join_char[OF qne names_ok_no_slash[OF assms(2)]] by simp
    also have "\<dots> = p @ split_char slash r"
      unfolding eq split_char_app using split_join_char[OF False names_ok_no_slash[OF assms(1)]] by simp
    finally show "q \<noteq> [] \<and> q = p @ split_char slash r" using qne by blast
  next
    assume "q \<noteq> [] \<and> q = p @ split_char slash r"
    then show "?j q = ?j p @ slash # r"
      using join_append[OF False split_char_ne[of slash r]] by (simp add: join_split_char)
  qed
  show ?thesis
  proof (cases "prefix p q \<and> q \<noteq> p")
    case True
    then obtain q' where q': "q = p @ q'" "q' \<noteq> []" by (auto simp: prefix_def)
    then have "?j q = (?j p @ ''/'') @ ?j q'" using join_append[OF False q'(2)] by simp
    then have "strip_prefix (?j q) (?j p @ ''/'') = Some (?j q')" by (simp only: strip_prefix_Some_iff)
    with True False q' dp show ?thesis by (simp add: rel_below_def)
  next
    case nf: False
    have "strip_prefix (?j q) (?j p @ ''/'') = None"
    proof (rule ccontr)
      assume "strip_prefix (?j q) (?j p @ ''/'') \<noteq> None"
      then obtain r where "?j q = ?j p @ slash # r"
        using strip_prefix_Some_iff by fastforce
      then have "q = p @ split_char slash r" using key by blast
      then have "prefix p q \<and> q \<noteq> p" using split_char_ne[of slash r] by auto
      with nf show False by blast
    qed
    with False nf dp show ?thesis by (simp add: rel_below_def)
  qed
qed

lemma child_of_join:
  assumes "names_ok p" "names_ok (p @ n # r)"
  shows "child_of (dir_prefix (join_char slash p)) (join_char slash (p @ n # r))
    = (if r = [] then Direct n else Nested n)"
proof -
  have rel: "rel_below (dir_prefix (join_char slash p)) (join_char slash (p @ n # r)) = Some (join_char slash (n # r))"
    using rel_below_join[OF assms] by auto
  have n: "slash \<notin> set n" "n \<noteq> []" using assms(2) by (auto simp: valid_name_def)
  show ?thesis
  proof (cases "r = []")
    case True
    then show ?thesis using rel n by (simp add: child_of_def find_char_None_iff[THEN iffD2])
  next
    case False
    then have "join_char slash (n # r) = n @ slash # join_char slash r" by (cases r) auto
    then show ?thesis using rel n False find_char_append[OF n(1)] by (simp add: child_of_def)
  qed
qed

lemma child_of_other:
  assumes "names_ok p" "names_ok q" "\<not> prefix p q \<or> q = p"
  shows "child_of (dir_prefix (join_char slash p)) (join_char slash q) = NoChild"
  using rel_below_join[OF assms(1,2)] assms(3) by (auto simp: child_of_def)

end
