(* ===== verification/Path_Info.thy ===== *)
theory Path_Info
  imports Nar
begin

text \<open>
  The path metadata database (\<^verbatim>\<open>snix-redox/src/pathinfo.rs\<close>): one JSON file per store path, named by the hash
  part of the path, and the time stamps it records. The store path parser with its base-32 encoding, the JSON
  codec and the file system are parameters; reads do not change the outside world. The
  conversions to and from the types of the upstream store crate are left out.
\<close>

section \<open>Records\<close>

record path_info =
  pi_store_path :: string
  pi_nar_hash :: string
  pi_nar_size :: u64
  pi_references :: "string list"
  pi_deriver :: "string option"
  pi_registration_time :: string
  pi_signatures :: "string list"
  pi_files :: "manifest_entry list"

datatype path_info_error =
    InvalidPath string
  | DbIo io_kind
  | DbCorrupt string

text \<open>
  \<open>dbf_hash\<close> parses an absolute store path and encodes its digest; \<open>dbf_hex\<close> decodes lower-case
  hexadecimal digits.
\<close>

record 'w db_fs =
  dbf_hash :: "string \<Rightarrow> string option"
  dbf_hex :: "string \<Rightarrow> bytes option"
  dbf_encode :: "path_info \<Rightarrow> string"
  dbf_decode :: "string \<Rightarrow> path_info option"
  dbf_encode_files :: "manifest_entry list \<Rightarrow> string"
  dbf_decode_files :: "string \<Rightarrow> manifest_entry list option"
  dbf_exists :: "path_buf \<Rightarrow> 'w \<Rightarrow> bool"
  dbf_read :: "path_buf \<Rightarrow> 'w \<Rightarrow> io_kind + string"
  dbf_read_dir :: "path_buf \<Rightarrow> 'w \<Rightarrow> io_kind + (io_kind + string) list"
  dbf_create_dir_all :: "path_buf \<Rightarrow> ('w, io_kind, unit) eio"
  dbf_write :: "path_buf \<Rightarrow> string \<Rightarrow> ('w, io_kind, unit) eio"
  dbf_remove_file :: "path_buf \<Rightarrow> ('w, io_kind, unit) eio"

definition SNIX_VAR_DIR :: string where
  "SNIX_VAR_DIR = ''/nix/var/snix''"

definition parse_nar_hash :: "('w, 'x) db_fs_scheme \<Rightarrow> string \<Rightarrow> bytes option" where
  "parse_nar_hash fs nar_hash =
     (case strip_prefix nar_hash ''sha256:'' of
        None \<Rightarrow> None
      | Some hex \<Rightarrow> (case dbf_hex fs hex of None \<Rightarrow> None | Some bs \<Rightarrow> if length bs \<noteq> 32 then None else Some bs))"

section \<open>The database\<close>

text \<open>A database is the directory of its files.\<close>

definition pdb_open_at :: "('w, 'x) db_fs_scheme \<Rightarrow> path_buf \<Rightarrow> ('w, io_kind, path_buf) eio" where
  "pdb_open_at fs pathinfo_dir = bindS (dbf_create_dir_all fs pathinfo_dir) (\<lambda>_. ret pathinfo_dir)"

definition pdb_open :: "('w, 'x) db_fs_scheme \<Rightarrow> ('w, io_kind, path_buf) eio" where
  "pdb_open fs = pdb_open_at fs (path_join SNIX_VAR_DIR ''pathinfo'')"

definition store_path_hash :: "('w, 'x) db_fs_scheme \<Rightarrow> string \<Rightarrow> path_info_error + string" where
  "store_path_hash fs store_path =
     (case dbf_hash fs store_path of Some h \<Rightarrow> Inr h | None \<Rightarrow> Inl (InvalidPath store_path))"

definition info_file :: "('w, 'x) db_fs_scheme \<Rightarrow> path_buf \<Rightarrow> string \<Rightarrow> path_info_error + path_buf" where
  "info_file fs db store_path = map_sum id (\<lambda>hash. path_join db (hash @ ''.json'')) (store_path_hash fs store_path)"

definition pdb_get :: "('w, 'x) db_fs_scheme \<Rightarrow> path_buf \<Rightarrow> string \<Rightarrow> 'w \<Rightarrow> path_info_error + path_info option" where
  "pdb_get fs db store_path w =
     (case info_file fs db store_path of
        Inl e \<Rightarrow> Inl e
      | Inr p \<Rightarrow>
          if \<not> dbf_exists fs p w then Inr None
          else (case dbf_read fs p w of
            Inl e \<Rightarrow> Inl (DbIo e)
          | Inr text \<Rightarrow> (case dbf_decode fs text of None \<Rightarrow> Inl (DbCorrupt p) | Some info \<Rightarrow> Inr (Some info))))"

definition pdb_register :: "('w, 'x) db_fs_scheme \<Rightarrow> path_buf \<Rightarrow> path_info \<Rightarrow> ('w, path_info_error, unit) eio" where
  "pdb_register fs db info = (\<lambda>w.
     case info_file fs db (pi_store_path info) of
       Inl e \<Rightarrow> (Inl e, w)
     | Inr p \<Rightarrow> map_err DbIo (dbf_write fs p (dbf_encode fs info)) w)"

definition manifest_dir :: "path_buf \<Rightarrow> path_buf" where
  "manifest_dir db = path_join (case path_parent db of Some p \<Rightarrow> p | None \<Rightarrow> ''/nix/var/snix'') ''manifests''"

definition save_manifest :: "('w, 'x) db_fs_scheme \<Rightarrow> path_buf \<Rightarrow> string \<Rightarrow> manifest_entry list \<Rightarrow> ('w, path_info_error, unit) eio" where
  "save_manifest fs db store_path manifest =
     bindS (map_err DbIo (dbf_create_dir_all fs (manifest_dir db))) (\<lambda>_. (\<lambda>w.
       case store_path_hash fs store_path of
         Inl e \<Rightarrow> (Inl e, w)
       | Inr hash \<Rightarrow>
           map_err DbIo (dbf_write fs (path_join (manifest_dir db) (hash @ ''.manifest.json''))
             (dbf_encode_files fs manifest)) w))"

definition pdb_load_manifest ::
  "('w, 'x) db_fs_scheme \<Rightarrow> path_buf \<Rightarrow> string \<Rightarrow> 'w \<Rightarrow> path_info_error + manifest_entry list option" where
  "pdb_load_manifest fs db store_path w =
     (case store_path_hash fs store_path of
        Inl e \<Rightarrow> Inl e
      | Inr hash \<Rightarrow>
          let p = path_join (manifest_dir db) (hash @ ''.manifest.json'') in
          if \<not> dbf_exists fs p w then Inr None
          else (case dbf_read fs p w of
            Inl e \<Rightarrow> Inl (DbIo e)
          | Inr text \<Rightarrow> (case dbf_decode_files fs text of None \<Rightarrow> Inl (DbCorrupt p) | Some m \<Rightarrow> Inr (Some m))))"

definition pdb_is_registered :: "('w, 'x) db_fs_scheme \<Rightarrow> path_buf \<Rightarrow> string \<Rightarrow> 'w \<Rightarrow> bool" where
  "pdb_is_registered fs db store_path w =
     (case info_file fs db store_path of Inr p \<Rightarrow> dbf_exists fs p w | Inl _ \<Rightarrow> False)"

definition pdb_delete :: "('w, 'x) db_fs_scheme \<Rightarrow> path_buf \<Rightarrow> string \<Rightarrow> ('w, path_info_error, unit) eio" where
  "pdb_delete fs db store_path = (\<lambda>w.
     case info_file fs db store_path of
       Inl e \<Rightarrow> (Inl e, w)
     | Inr p \<Rightarrow> if dbf_exists fs p w then map_err DbIo (dbf_remove_file fs p) w else (Inr (), w))"

text \<open>Files that do not decode are skipped; an unreadable one ends the listing.\<close>

fun collect_paths ::
  "('w, 'x) db_fs_scheme \<Rightarrow> path_buf \<Rightarrow> 'w \<Rightarrow> (io_kind + string) list \<Rightarrow> path_info_error + string list" where
  "collect_paths fs db w [] = Inr []"
| "collect_paths fs db w (Inl e # es) = Inl (DbIo e)"
| "collect_paths fs db w (Inr name # es) =
     (if \<not> suffix ''.json'' name then collect_paths fs db w es
      else (case dbf_read fs (path_join db name) w of
        Inl e \<Rightarrow> Inl (DbIo e)
      | Inr text \<Rightarrow>
          map_sum id (\<lambda>ps. case dbf_decode fs text of Some info \<Rightarrow> pi_store_path info # ps | None \<Rightarrow> ps)
            (collect_paths fs db w es)))"

definition list_paths :: "('w, 'x) db_fs_scheme \<Rightarrow> path_buf \<Rightarrow> 'w \<Rightarrow> path_info_error + string list" where
  "list_paths fs db w =
     (case dbf_read_dir fs db w of
        Inl e \<Rightarrow> Inl (DbIo e)
      | Inr es \<Rightarrow> map_sum id sort (collect_paths fs db w es))"

definition all_paths_set :: "('w, 'x) db_fs_scheme \<Rightarrow> path_buf \<Rightarrow> 'w \<Rightarrow> path_info_error + (string, unit) btree" where
  "all_paths_set fs db w = map_sum id (\<lambda>ps. fold (\<lambda>p. bt_insert p ()) ps []) (list_paths fs db w)"

section \<open>Dates\<close>

text \<open>
  The day count of a 64-bit number of seconds is below \<open>2\<^sup>64 div 86400\<close>, so no addition of the
  algorithm overflows, and no subtraction goes below zero; it is written over natural numbers.
\<close>

definition year_of_era :: "nat \<Rightarrow> nat" where
  "year_of_era doe = (doe - doe div 1460 + doe div 36524 - doe div 146096) div 365"

definition days_to_date :: "nat \<Rightarrow> nat \<times> nat \<times> nat" where
  "days_to_date days =
     (let z = days + 719468;
          era = z div 146097;
          doe = z - era * 146097;
          yoe = year_of_era doe;
          y = yoe + era * 400;
          doy = doe - (365 * yoe + yoe div 4 - yoe div 100);
          mp = (5 * doy + 2) div 153;
          d = doy - (153 * mp + 2) div 5 + 1;
          m = (if mp < 10 then mp + 3 else mp - 9);
          y' = (if m \<le> 2 then y + 1 else y)
      in (y', m, d))"

text \<open>Decimal digits, padded with zeros as \<^verbatim>\<open>{:02}\<close> and \<^verbatim>\<open>{:04}\<close> do.\<close>

fun decimal :: "nat \<Rightarrow> string" where
  "decimal n = (if n < 10 then [char_of (48 + n)] else decimal (n div 10) @ [char_of (48 + n mod 10)])"

declare decimal.simps [simp del]

definition padded :: "nat \<Rightarrow> nat \<Rightarrow> string" where
  "padded width n = (let s = decimal n in replicate (width - length s) CHR ''0'' @ s)"

text \<open>\<open>secs\<close> is the time since the epoch, \<open>None\<close> if the clock is before it.\<close>

definition current_timestamp :: "u64 option \<Rightarrow> string" where
  "current_timestamp secs =
     (case secs of
        None \<Rightarrow> []
      | Some s \<Rightarrow>
          let days = unat s div 86400;
              remaining = unat s mod 86400;
              hours = remaining div 3600;
              minutes = (remaining mod 3600) div 60;
              seconds = remaining mod 60
          in (case days_to_date days of (year, month, day) \<Rightarrow>
               padded 4 year @ ''-'' @ padded 2 month @ ''-'' @ padded 2 day @ ''T''
               @ padded 2 hours @ '':'' @ padded 2 minutes @ '':'' @ padded 2 seconds @ ''Z''))"

section \<open>The calendar\<close>

definition leap :: "nat \<Rightarrow> bool" where
  "leap y \<longleftrightarrow> y mod 4 = 0 \<and> (y mod 100 \<noteq> 0 \<or> y mod 400 = 0)"

definition month_days :: "nat \<Rightarrow> nat \<Rightarrow> nat" where
  "month_days y m = (if m = 2 then (if leap y then 29 else 28) else if m \<in> {4, 6, 9, 11} then 30 else 31)"

fun next_day :: "nat \<times> nat \<times> nat \<Rightarrow> nat \<times> nat \<times> nat" where
  "next_day (y, m, d) =
     (if d < month_days y m then (y, m, d + 1) else if m < 12 then (y, m + 1, 1) else (y + 1, 1, 1))"

text \<open>
  An era is 400 years starting on the first of March; \<open>year_start\<close> is the day a year of the
  era begins, \<open>year_len\<close> its length. In a year of the era the leap day comes last.
\<close>

definition year_start :: "nat \<Rightarrow> nat" where
  "year_start y = 365 * y + y div 4 - y div 100"

definition year_len :: "nat \<Rightarrow> nat" where
  "year_len y = (if leap (y + 1) then 366 else 365)"

definition year_ok :: "nat \<Rightarrow> bool" where
  "year_ok y \<longleftrightarrow> year_start y + year_len y = (if y = 399 then 146097 else year_start (y + 1))
     \<and> year_of_era (year_start y) = y \<and> year_of_era (year_start y + year_len y - 1) = y"

lemmas year_ok_eval = year_ok_def year_of_era_def year_start_def year_len_def leap_def

lemma years_ok_0: "list_all year_ok [0, 1]"
  by (simp add: year_ok_eval)

lemma years_ok_1: "list_all year_ok [2..<100]"
  by (simp add: year_ok_eval upt_rec_numeral)

lemma years_ok_2: "list_all year_ok [100..<200]"
  by (simp add: year_ok_eval upt_rec_numeral)

lemma years_ok_3: "list_all year_ok [200..<300]"
  by (simp add: year_ok_eval upt_rec_numeral)

lemma years_ok_4: "list_all year_ok [300..<400]"
  by (simp add: year_ok_eval upt_rec_numeral)

lemma list_all_upt: "list_all P [a..<b] \<Longrightarrow> a \<le> n \<Longrightarrow> n < b \<Longrightarrow> P n"
  by (simp add: list_all_iff)

lemma years_ok:
  assumes "y < 400"
  shows "year_ok y"
proof -
  consider "y = 0" | "y = 1" | "2 \<le> y" "y < 100" | "100 \<le> y" "y < 200" | "200 \<le> y" "y < 300" | "300 \<le> y" "y < 400"
    using assms by linarith
  then show ?thesis
  proof cases
    case 1
    then show ?thesis using years_ok_0 by simp
  next
    case 2
    then show ?thesis using years_ok_0 by simp
  qed (erule (1) list_all_upt[OF years_ok_1] list_all_upt[OF years_ok_2]
    list_all_upt[OF years_ok_3] list_all_upt[OF years_ok_4])+
qed

lemma minus_div_mono: "a \<le> b \<Longrightarrow> a - a div k \<le> b - b div k" for a b k :: nat
proof (rule lift_Suc_mono_le[of "\<lambda>n. n - n div k"])
  fix n
  have "Suc n div k \<le> Suc (n div k)" by (simp add: div_Suc)
  then show "n - n div k \<le> Suc n - Suc n div k" by linarith
qed

lemma year_of_era_mono: "a \<le> b \<Longrightarrow> year_of_era a \<le> year_of_era b"
proof -
  assume ab: "a \<le> b"
  have eq: "year_of_era n = ((n - n div 1460) + (n div 36524 - n div 36524 div 4)) div 365" for n
  proof -
    have "n div 146096 = n div 36524 div 4" by (simp add: div_mult2_eq[symmetric])
    then show ?thesis by (simp add: year_of_era_def)
  qed
  show ?thesis
    unfolding eq by (intro div_le_mono add_mono minus_div_mono ab)
qed

lemma in_year:
  assumes "y < 400" "k < year_len y"
  shows "year_of_era (year_start y + k) = y"
proof (rule antisym)
  have ok: "year_of_era (year_start y) = y" "year_of_era (year_start y + year_len y - 1) = y"
    using years_ok[OF assms(1)] unfolding year_ok_def by blast+
  have "year_start y + k \<le> year_start y + year_len y - 1" using assms(2) by simp
  from year_of_era_mono[OF this] show "year_of_era (year_start y + k) \<le> y" unfolding ok .
  have "year_start y \<le> year_start y + k" by simp
  from year_of_era_mono[OF this] show "y \<le> year_of_era (year_start y + k)" unfolding ok .
qed

lemma year_exists:
  assumes "doe < 146097"
  obtains y k where "y < 400" "k < year_len y" "doe = year_start y + k"
proof -
  have "n \<le> 400 \<Longrightarrow> doe < (if n = 400 then 146097 else year_start n) \<Longrightarrow>
      \<exists>y<n. \<exists>k<year_len y. doe = year_start y + k" for n
  proof (induction n)
    case 0
    then show ?case by (simp add: year_start_def)
  next
    case (Suc n)
    show ?case
    proof (cases "doe < year_start n")
      case True
      with Suc show ?thesis by (auto intro: less_SucI)
    next
      case False
      have "year_start n + year_len n = (if n = 399 then 146097 else year_start (n + 1))"
        using years_ok[of n] Suc.prems(1) by (simp add: year_ok_def)
      with Suc.prems(2) False have "doe - year_start n < year_len n" by (auto split: if_splits)
      moreover have "doe = year_start n + (doe - year_start n)" using False by simp
      ultimately show ?thesis by blast
    qed
  qed
  from this[of 400] assms that show thesis by auto
qed

text \<open>The date of day \<open>k\<close> of a March year.\<close>

definition date_in_year :: "nat \<Rightarrow> nat \<Rightarrow> nat \<times> nat \<times> nat" where
  "date_in_year y doy =
     (let mp = (5 * doy + 2) div 153; m = (if mp < 10 then mp + 3 else mp - 9)
      in (if m \<le> 2 then y + 1 else y, m, doy - (153 * mp + 2) div 5 + 1))"

lemma days_to_date_eq:
  assumes "days + 719468 = 146097 * era + (year_start y + k)" "y < 400" "k < year_len y"
  shows "days_to_date days = date_in_year (y + era * 400) k"
proof -
  have "year_start y + k < 146097"
  proof -
    have "year_start y + year_len y \<le> 146097"
      using years_ok[OF assms(2)] assms(2) by (auto simp: year_ok_def year_start_def split: if_splits)
    with assms(3) show ?thesis by linarith
  qed
  then have era: "(days + 719468) div 146097 = era" using assms(1) by simp
  have doe: "days + 719468 - era * 146097 = year_start y + k" using assms(1) by simp
  have doy: "year_start y + k - (365 * y + y div 4 - y div 100) = k" by (simp add: year_start_def)
  show ?thesis
    unfolding days_to_date_def Let_def era doe in_year[OF assms(2,3)] doy by (simp only: date_in_year_def Let_def)
qed

lemma next_in_year:
  assumes "k < 365" "k = 364 \<Longrightarrow> leap (y + 1)"
  shows "next_day (date_in_year y k) = date_in_year y (k + 1)"
proof -
  define mp where "mp = (5 * k + 2) div 153"
  have b: "153 * mp \<le> 5 * k + 2" "5 * k + 2 < 153 * mp + 153"
    unfolding mp_def using dividend_less_times_div[of 153 "5 * k + 2"] by simp_all
  have "mp < 12" using b(1) assms(1) by linarith
  have suc: "(5 * (k + 1) + 2) div 153 = (if 5 * k + 7 < 153 * mp + 153 then mp else mp + 1)"
    using b by (auto intro!: div_nat_eqI)
  have "mp \<in> {0, 1, 2, 3, 4, 5, 6, 7, 8, 9, 10, 11}" using \<open>mp < 12\<close> by simp presburger
  then show ?thesis
    unfolding date_in_year_def Let_def mp_def[symmetric] suc
    using b assms by (elim insertE emptyE) (simp_all add: month_days_def, arith+)
qed

lemma leap_era: "leap (y + era * 400 + 1) = leap (y + 1)"
proof -
  have "y + era * 400 + 1 = (y + 1) + 400 * era" by (simp only: ac_simps)
  moreover have "((y + 1) + 400 * era) mod 4 = (y + 1) mod 4" "((y + 1) + 400 * era) mod 100 = (y + 1) mod 100"
    "((y + 1) + 400 * era) mod 400 = (y + 1) mod 400"
    using mod_mult_self2[of "y + 1" 4 "100 * era"] mod_mult_self2[of "y + 1" 100 "4 * era"]
      mod_mult_self2[of "y + 1" 400 era] by simp_all
  ultimately show ?thesis unfolding leap_def by (simp only:)
qed

lemma last_of_year:
  assumes "k + 1 = year_len y"
  shows "next_day (date_in_year (y + era * 400) k) = (y + era * 400 + 1, 3, 1)"
proof (cases "leap (y + 1)")
  case True
  then have "k = 365" using assms by (simp add: year_len_def)
  then show ?thesis using True leap_era[of y era] by (simp add: date_in_year_def month_days_def)
next
  case False
  then have "k = 364" using assms by (simp add: year_len_def)
  then show ?thesis using False leap_era[of y era] by (simp add: date_in_year_def month_days_def)
qed

lemma days_to_date_step:
  "days_to_date 0 = (1970, 1, 1) \<and> days_to_date (Suc n) = next_day (days_to_date n)"
proof
  have "(0::nat) + 719468 = 146097 * 4 + (year_start 369 + 306)" by (simp add: year_start_def)
  from days_to_date_eq[OF this] show "days_to_date 0 = (1970, 1, 1)"
    by (simp add: year_len_def date_in_year_def)
  define era where "era = (n + 719468) div 146097"
  have z: "n + 719468 = 146097 * era + (n + 719468) mod 146097" unfolding era_def by (rule mult_div_mod_eq[symmetric])
  have "(n + 719468) mod 146097 < 146097" by simp
  then obtain y k where y: "y < 400" "k < year_len y" "(n + 719468) mod 146097 = year_start y + k"
    by (rule year_exists)
  have n: "n + 719468 = 146097 * era + (year_start y + k)" using z y(3) by simp
  have now: "days_to_date n = date_in_year (y + era * 400) k" by (rule days_to_date_eq[OF n y(1,2)])
  have start: "date_in_year Y 0 = (Y, 3, 1)" for Y by (simp add: date_in_year_def)
  show "days_to_date (Suc n) = next_day (days_to_date n)"
  proof (cases "k + 1 < year_len y")
    case True
    have "Suc n + 719468 = 146097 * era + (year_start y + (k + 1))" using n by simp
    from days_to_date_eq[OF this y(1) True]
    have "days_to_date (Suc n) = date_in_year (y + era * 400) (k + 1)" .
    also have "\<dots> = next_day (date_in_year (y + era * 400) k)"
      using True leap_era[of y era] by (intro next_in_year[symmetric]) (auto simp: year_len_def split: if_splits)
    finally show ?thesis unfolding now .
  next
    case False
    then have k: "k + 1 = year_len y" using y(2) by simp
    have len: "year_start y + year_len y = (if y = 399 then 146097 else year_start (y + 1))"
      using years_ok[OF y(1)] unfolding year_ok_def by blast
    have pos: "0 < year_len x" for x by (simp add: year_len_def)
    have "days_to_date (Suc n) = (y + era * 400 + 1, 3, 1)"
    proof (cases "y = 399")
      case True
      have "year_start 0 = 0" by (simp add: year_start_def)
      then have "Suc n + 719468 = 146097 * (era + 1) + (year_start 0 + 0)" using n k len True by simp
      from days_to_date_eq[OF this _ pos] show ?thesis using True by (simp add: start)
    next
      case False
      then have "Suc n + 719468 = 146097 * era + (year_start (y + 1) + 0)" using n k len by simp
      from days_to_date_eq[OF this _ pos] show ?thesis using False y(1) by (simp add: start)
    qed
    then show ?thesis unfolding now last_of_year[OF k] .
  qed
qed

section \<open>Properties\<close>

text \<open>
  C23: the conversion of a day count to a date agrees with the Gregorian calendar: day 0 is the first of
  January 1970, and the date of each day is the calendar's successor of the date of the day before.
\<close>

theorem days_to_date_calendar:
  "days_to_date 0 = (1970, 1, 1) \<and> days_to_date (Suc n) = next_day (days_to_date n)"
  by (rule days_to_date_step)

end
