(* ===== verification/Store_Daemon.thy ===== *)
theory Store_Daemon
  imports Manifest_View Handle_Ids Dirents Path_Info
begin

text \<open>
  The store daemon without its scheme front end: path resolution (\<^verbatim>\<open>stored/resolve.rs\<close>),
  the handle table (\<^verbatim>\<open>stored/handles.rs\<close>) and the in-memory view of registered paths and
  manifests (\<^verbatim>\<open>stored/mod.rs\<close>). The path-info database, its JSON format and the file reads are
  parameters.
\<close>

section \<open>Resolving scheme paths\<close>

datatype resolved_path =
    Root
  | StorePathRoot string
  | SubPath string string

datatype resolve_error =
    InvalidHash string
  | NotRegistered string
  | NotFoundPath string
  | PathTraversal string

definition is_nixbase32 :: "char \<Rightarrow> bool" where
  "is_nixbase32 c \<longleftrightarrow>
     (let b = byte_of c in
      (48 \<le> b \<and> b \<le> 57) \<or> (97 \<le> b \<and> b \<le> 100) \<or> (102 \<le> b \<and> b \<le> 110)
      \<or> (112 \<le> b \<and> b \<le> 115) \<or> (118 \<le> b \<and> b \<le> 122))"

text \<open>\<open>None\<close> is the panic of slicing inside a character.\<close>

definition validate_store_path_name :: "string \<Rightarrow> (resolve_error + unit) option" where
  "validate_store_path_name name =
     (if length name < 34 then Some (Inl (InvalidHash name))
      else (case slice_to name 32 of
        None \<Rightarrow> None
      | Some hash_part \<Rightarrow>
          if name ! 32 \<noteq> CHR ''-'' then Some (Inl (InvalidHash name))
          else if \<not> list_all is_nixbase32 hash_part then Some (Inl (InvalidHash name))
          else Some (Inr ())))"

definition parse_scheme_path :: "string \<Rightarrow> (resolve_error + resolved_path) option" where
  "parse_scheme_path path0 =
     (let path = trim_matches slash path0 in
      if path = [] then Some (Inr Root)
      else if contains_str path ''..'' then Some (Inl (PathTraversal path))
      else
        let (store_path_name, subpath) =
          (case find_char slash path of
             Some pos \<Rightarrow> (take pos path, Some (drop (pos + 1) path))
           | None \<Rightarrow> (path, None))
        in (case validate_store_path_name store_path_name of
              None \<Rightarrow> None
            | Some (Inl e) \<Rightarrow> Some (Inl e)
            | Some (Inr _) \<Rightarrow>
                (case subpath of
                   None \<Rightarrow> Some (Inr (StorePathRoot store_path_name))
                 | Some sub \<Rightarrow>
                     if sub = [] then Some (Inr (StorePathRoot store_path_name))
                     else Some (Inr (SubPath store_path_name sub)))))"

fun to_filesystem_path :: "resolved_path \<Rightarrow> string \<Rightarrow> path_buf option" where
  "to_filesystem_path Root store_dir = Some store_dir"
| "to_filesystem_path (StorePathRoot name) store_dir = Some (path_join store_dir name)"
| "to_filesystem_path (SubPath name subpath) store_dir = Some (path_join (path_join store_dir name) subpath)"

definition is_registered :: "(string \<Rightarrow> bool) \<Rightarrow> string \<Rightarrow> string \<Rightarrow> bool" where
  "is_registered db_is_registered store_path_name store_dir =
     db_is_registered (store_dir @ ''/'' @ store_path_name)"

record store_path_status =
  sps_name :: string
  sps_extracted :: bool

definition is_extracted :: "(path_buf \<Rightarrow> bool) \<Rightarrow> string \<Rightarrow> string \<Rightarrow> bool" where
  "is_extracted exists store_path_name store_dir = exists (path_join store_dir store_path_name)"

definition list_store_paths ::
  "('e + string list) \<Rightarrow> (path_buf \<Rightarrow> bool) \<Rightarrow> string \<Rightarrow> 'e + store_path_status list" where
  "list_store_paths paths exists store_dir =
     map_sum id (\<lambda>ps. sort_key sps_name
       (map (\<lambda>p. \<lparr>sps_name = (case strip_prefix p (store_dir @ ''/'') of Some r \<Rightarrow> r | None \<Rightarrow> p),
                    sps_extracted = exists p\<rparr>) ps)) paths"

section \<open>Handles\<close>

record store_file =
  sf_content :: "bytes option"
  sf_real_path :: path_buf
  sf_scheme_path :: string
  sf_size :: u64
  sf_executable :: bool

record dir_entry_info =
  de_name :: string
  de_is_dir :: bool
  de_is_symlink :: bool
  de_size :: u64

record store_dir_handle =
  sd_real_path :: path_buf
  sd_scheme_path :: string
  sd_entries :: "dir_entry_info list option"

record store_control =
  sc_buffer :: bytes
  sc_scheme_path :: string

datatype store_handle = SFile store_file | SDir store_dir_handle | SControl store_control

record stored_config =
  cache_path :: string
  store_dir :: string

definition default_config :: stored_config where
  "default_config = \<lparr>cache_path = ''/nix/cache'', store_dir = ''/nix/store''\<rparr>"

text \<open>
  The daemon's state. \<open>sd_world\<close> stands for everything outside the process;
  \<open>registered_paths\<close> is a \<^verbatim>\<open>BTreeSet\<close>, an ordered map to the unit value.
\<close>

record 'w store_daemon =
  sd_next_id :: usize
  sd_handles :: "usize \<rightharpoonup> store_handle"
  sd_extracting :: "string list"
  sd_config :: stored_config
  sd_root_fd :: "usize option"
  registered_paths :: "(string, unit) btree"
  nar_hashes :: "(string, string) btree"
  manifests :: "(string, manifest_entry list) btree"
  sd_world :: 'w

definition store_put :: "usize \<Rightarrow> store_handle \<Rightarrow> 'w store_daemon \<Rightarrow> 'w store_daemon" where
  "store_put i x d = d\<lparr>sd_handles := (sd_handles d)(i \<mapsto> x)\<rparr>"

definition store_alloc_id :: "'w store_daemon \<Rightarrow> (usize \<times> 'w store_daemon) option" where
  "store_alloc_id d =
     map_option (\<lambda>(hid, n). (hid, d\<lparr>sd_next_id := n\<rparr>))
       (alloc_loop (\<lambda>i. sd_handles d i \<noteq> None) (sd_next_id d))"

interpretation sh: handle_table sd_handles sd_next_id "\<lambda>n d. d\<lparr>sd_next_id := n\<rparr>" store_put store_alloc_id
  by unfold_locales (simp_all add: store_alloc_id_def store_put_def)

definition store_open :: "store_handle \<Rightarrow> 'w store_daemon \<Rightarrow> (usize \<times> 'w store_daemon) option" where
  "store_open x d = map_option (\<lambda>(hid, d'). (hid, store_put hid x d')) (store_alloc_id d)"

definition open_file_lazy ::
  "path_buf \<Rightarrow> string \<Rightarrow> u64 \<Rightarrow> bool \<Rightarrow> 'w store_daemon \<Rightarrow> (usize \<times> 'w store_daemon) option" where
  "open_file_lazy real_path scheme_path sz exec =
     store_open (SFile \<lparr>sf_content = None, sf_real_path = real_path, sf_scheme_path = scheme_path,
                        sf_size = sz, sf_executable = exec\<rparr>)"

definition open_dir_unchecked ::
  "path_buf \<Rightarrow> string \<Rightarrow> 'w store_daemon \<Rightarrow> (usize \<times> 'w store_daemon) option" where
  "open_dir_unchecked real_path scheme_path =
     store_open (SDir \<lparr>sd_real_path = real_path, sd_scheme_path = scheme_path, sd_entries = None\<rparr>)"

text \<open>The eager variants: the whole file with its metadata (size and mode), a checked directory.\<close>

definition open_file ::
  "(path_buf \<Rightarrow> ('w, io_kind, bytes) eio) \<Rightarrow> (path_buf \<Rightarrow> ('w, io_kind, u64 \<times> u32) eio) \<Rightarrow> path_buf \<Rightarrow> string
   \<Rightarrow> 'w store_daemon \<Rightarrow> ((io_kind + usize) \<times> 'w store_daemon) option" where
  "open_file fs_read metadata real_path scheme_path d =
     (case bindS (fs_read real_path) (\<lambda>data. bindS (metadata real_path) (\<lambda>meta. ret (data, meta))) (sd_world d) of
        (Inl e, w) \<Rightarrow> Some (Inl e, d\<lparr>sd_world := w\<rparr>)
      | (Inr (data, (sz, mode)), w) \<Rightarrow>
          map_option (\<lambda>(hid, d'). (Inr hid, d'))
            (store_open (SFile \<lparr>sf_content = Some data, sf_real_path = real_path, sf_scheme_path = scheme_path,
                                sf_size = sz, sf_executable = (mode AND 0x49 \<noteq> 0)\<rparr>) (d\<lparr>sd_world := w\<rparr>)))"

definition open_dir ::
  "(path_buf \<Rightarrow> 'w \<Rightarrow> bool) \<Rightarrow> path_buf \<Rightarrow> string \<Rightarrow> 'w store_daemon \<Rightarrow> ((io_kind + usize) \<times> 'w store_daemon) option" where
  "open_dir exists_dir real_path scheme_path d =
     (if \<not> exists_dir real_path (sd_world d) then Some (Inl NotFound, d)
      else map_option (\<lambda>(hid, d'). (Inr hid, d')) (open_dir_unchecked real_path scheme_path d))"

definition open_control :: "string \<Rightarrow> 'w store_daemon \<Rightarrow> (usize \<times> 'w store_daemon) option" where
  "open_control scheme_path = store_open (SControl \<lparr>sc_buffer = [], sc_scheme_path = scheme_path\<rparr>)"

definition serve_content :: "bytes \<Rightarrow> u64 \<Rightarrow> usize \<Rightarrow> bytes" where
  "serve_content content offset buf_len =
     (let start = unat offset in
      if length content \<le> start then []
      else take (min (length (drop start content)) (unat buf_len)) (drop start content))"

text \<open>\<open>preload\<close> reads a whole file, through the I/O worker or directly.\<close>

definition table_read ::
  "(path_buf \<Rightarrow> ('w, io_kind, bytes) eio) \<Rightarrow> usize \<Rightarrow> usize \<Rightarrow> u64 \<Rightarrow> ('w store_daemon, io_kind, bytes) eio" where
  "table_read preload hid buf_len offset = (\<lambda>d.
     case sd_handles d hid of
       Some (SFile fh) \<Rightarrow>
         (case sf_content fh of
            Some content \<Rightarrow> (Inr (serve_content content offset buf_len), d)
          | None \<Rightarrow>
              (case preload (sf_real_path fh) (sd_world d) of
                 (Inl e, w) \<Rightarrow> (Inl e, d\<lparr>sd_world := w\<rparr>)
               | (Inr data, w) \<Rightarrow>
                   (Inr (serve_content data offset buf_len),
                    store_put hid (SFile (fh\<lparr>sf_size := of_nat (length data), sf_content := Some data\<rparr>))
                      (d\<lparr>sd_world := w\<rparr>))))
     | Some _ \<Rightarrow> (Inl InvalidInput, d)
     | None \<Rightarrow> (Inl NotFound, d))"

definition file_size :: "'w store_daemon \<Rightarrow> usize \<Rightarrow> io_kind + u64" where
  "file_size d hid =
     (case sd_handles d hid of
        Some (SFile fh) \<Rightarrow> Inr (sf_size fh)
      | Some _ \<Rightarrow> Inr 0
      | None \<Rightarrow> Inl NotFound)"

fun handle_path :: "store_handle \<Rightarrow> string" where
  "handle_path (SFile fh) = sf_scheme_path fh"
| "handle_path (SDir dh) = sd_scheme_path dh"
| "handle_path (SControl ch) = sc_scheme_path ch"

definition scheme_path :: "'w store_daemon \<Rightarrow> usize \<Rightarrow> string option" where
  "scheme_path d hid = map_option handle_path (sd_handles d hid)"

definition is_dir :: "'w store_daemon \<Rightarrow> usize \<Rightarrow> bool option" where
  "is_dir d hid =
     (case sd_handles d hid of
        Some (SDir _) \<Rightarrow> Some True
      | Some _ \<Rightarrow> Some False
      | None \<Rightarrow> None)"

definition table_write :: "usize \<Rightarrow> bytes \<Rightarrow> ('w store_daemon, io_kind, usize) eio" where
  "table_write hid buf = (\<lambda>d.
     case sd_handles d hid of
       Some (SControl ch) \<Rightarrow>
         (Inr (of_nat (length buf)), store_put hid (SControl (ch\<lparr>sc_buffer := sc_buffer ch @ buf\<rparr>)) d)
     | Some _ \<Rightarrow> (Inl PermissionDenied, d)
     | None \<Rightarrow> (Inl NotFound, d))"

definition close :: "usize \<Rightarrow> 'w store_daemon \<Rightarrow> store_handle option \<times> 'w store_daemon" where
  "close hid d = (sd_handles d hid, d\<lparr>sd_handles := (sd_handles d)(hid := None)\<rparr>)"

section \<open>Registered paths and manifests\<close>

definition is_registered_path :: "'w store_daemon \<Rightarrow> string \<Rightarrow> bool" where
  "is_registered_path d name \<longleftrightarrow> bt_get (registered_paths d) name \<noteq> None"

definition expected_nar_hash :: "'w store_daemon \<Rightarrow> string \<Rightarrow> string option" where
  "expected_nar_hash d name = bt_get (nar_hashes d) name"

definition remember_store_path :: "string \<Rightarrow> 'w store_daemon \<Rightarrow> 'w store_daemon" where
  "remember_store_path name d = d\<lparr>registered_paths := bt_insert name () (registered_paths d)\<rparr>"

definition remember_nar_hash :: "string \<Rightarrow> string \<Rightarrow> 'w store_daemon \<Rightarrow> 'w store_daemon" where
  "remember_nar_hash name nar_hash d =
     (let d1 = remember_store_path name d in d1\<lparr>nar_hashes := bt_insert name nar_hash (nar_hashes d1)\<rparr>)"

definition insert_manifest :: "string \<Rightarrow> manifest_entry list \<Rightarrow> 'w store_daemon \<Rightarrow> 'w store_daemon" where
  "insert_manifest name files d = d\<lparr>manifests := bt_insert name files (manifests d)\<rparr>"

definition list_registered_path_names :: "'w store_daemon \<Rightarrow> string list" where
  "list_registered_path_names d = bt_keys (registered_paths d)"

text \<open>
  Start-up: \<open>db_list\<close> and \<open>db_get\<close> are the database's \<^verbatim>\<open>list_paths\<close> and \<^verbatim>\<open>get\<close>
  (\<open>None\<close>: an error or a missing record).
\<close>

definition load_path ::
  "(string \<Rightarrow> path_info option) \<Rightarrow> string \<Rightarrow> 'w store_daemon \<Rightarrow> 'w store_daemon" where
  "load_path db_get p d =
     (let name = (case strip_prefix p (store_dir (sd_config d) @ ''/'') of Some r \<Rightarrow> r | None \<Rightarrow> p);
          d1 = remember_store_path name d
      in (case db_get p of
            None \<Rightarrow> d1
          | Some info \<Rightarrow>
              let d2 = d1\<lparr>nar_hashes := bt_insert name (pi_nar_hash info) (nar_hashes d1)\<rparr>
              in if pi_files info \<noteq> [] then insert_manifest name (pi_files info) d2 else d2))"

definition new_daemon ::
  "string list option \<Rightarrow> (string \<Rightarrow> path_info option) \<Rightarrow> stored_config \<Rightarrow> 'w \<Rightarrow> 'w store_daemon" where
  "new_daemon db_list db_get config w =
     fold (load_path db_get) (case db_list of Some ps \<Rightarrow> ps | None \<Rightarrow> [])
       \<lparr>sd_next_id = 1, sd_handles = Map.empty, sd_extracting = [], sd_config = config, sd_root_fd = None,
        registered_paths = [], nar_hashes = [], manifests = [], sd_world = w\<rparr>"

definition load_manifest ::
  "(string \<Rightarrow> path_info option) \<Rightarrow> string \<Rightarrow> 'w store_daemon \<Rightarrow> 'w store_daemon" where
  "load_manifest db_get name d =
     (let d1 = remember_store_path name d in
      case db_get (store_dir (sd_config d1) @ ''/'' @ name) of
        None \<Rightarrow> d1
      | Some info \<Rightarrow> if pi_files info \<noteq> [] then insert_manifest name (pi_files info) d1 else d1)"

text \<open>
  Loading on demand: \<open>path_hash\<close> is \<^verbatim>\<open>pathinfo::store_path_hash\<close>, \<open>db_dir\<close> the database directory
  and \<open>parse_info\<close> the JSON decoder.
\<close>

definition load_manifest_via_worker ::
  "(path_buf \<Rightarrow> ('w, io_kind, bytes) eio) \<Rightarrow> (string \<Rightarrow> string option) \<Rightarrow> path_buf
   \<Rightarrow> (bytes \<Rightarrow> path_info option) \<Rightarrow> string \<Rightarrow> 'w store_daemon \<Rightarrow> bool \<times> 'w store_daemon" where
  "load_manifest_via_worker preload path_hash db_dir parse_info name d =
     (let d1 = remember_store_path name d in
      if bt_get (manifests d1) name \<noteq> None then (True, d1)
      else (case path_hash (store_dir (sd_config d1) @ ''/'' @ name) of
        None \<Rightarrow> (False, d1)
      | Some hash \<Rightarrow>
          (case preload (path_join db_dir (hash @ ''.json'')) (sd_world d1) of
             (Inl _, w) \<Rightarrow> (False, d1\<lparr>sd_world := w\<rparr>)
           | (Inr data, w) \<Rightarrow>
               (case parse_info data of
                  None \<Rightarrow> (False, d1\<lparr>sd_world := w\<rparr>)
                | Some info \<Rightarrow>
                    if pi_files info \<noteq> []
                    then (True, insert_manifest name (pi_files info) (d1\<lparr>sd_world := w\<rparr>))
                    else (False, d1\<lparr>sd_world := w\<rparr>)))))"

definition manifest_contains_path :: "'w store_daemon \<Rightarrow> string \<Rightarrow> string \<Rightarrow> bool option" where
  "manifest_contains_path d name subpath0 =
     (case bt_get (manifests d) name of
        None \<Rightarrow> None
      | Some manifest \<Rightarrow>
          let subpath = trim_matches slash subpath0 in
          if subpath = [] then Some True
          else if list_ex (\<lambda>e. me_path e = subpath) manifest then Some True
          else if list_ex (\<lambda>e. starts_with (me_path e) (subpath @ ''/'')) manifest then Some True
          else Some False)"

definition is_directory_in_manifest :: "'w store_daemon \<Rightarrow> string \<Rightarrow> string \<Rightarrow> bool" where
  "is_directory_in_manifest d name subpath0 =
     (case bt_get (manifests d) name of
        None \<Rightarrow> True
      | Some manifest \<Rightarrow>
          let subpath = trim_matches slash subpath0 in
          list_ex (\<lambda>e. me_path e = subpath \<and> me_type e = ''dir'') manifest
          \<or> list_ex (\<lambda>e. starts_with (me_path e) (subpath @ ''/'')) manifest)"

definition file_metadata_from_manifest :: "'w store_daemon \<Rightarrow> string \<Rightarrow> string \<Rightarrow> u64 \<times> bool" where
  "file_metadata_from_manifest d name subpath0 =
     (case bt_get (manifests d) name of
        None \<Rightarrow> (0, False)
      | Some manifest \<Rightarrow>
          (case find (\<lambda>e. me_path e = trim_matches slash subpath0) manifest of
             Some e \<Rightarrow> (me_size e, me_executable e)
           | None \<Rightarrow> (0, False)))"

record manifest_dir_entry =
  md_name :: string
  md_is_dir :: bool
  md_is_symlink :: bool
  md_size :: u64
  md_executable :: bool

definition manifest_step ::
  "string \<Rightarrow> manifest_entry \<Rightarrow> (string, manifest_dir_entry) btree \<Rightarrow> (string, manifest_dir_entry) btree" where
  "manifest_step pre e m =
     (case rel_below pre (me_path e) of
        None \<Rightarrow> m
      | Some rel \<Rightarrow>
          (case find_char slash rel of
             Some slash_pos \<Rightarrow>
               let dir_name = take slash_pos rel in
               bt_or_insert dir_name \<lparr>md_name = dir_name, md_is_dir = True, md_is_symlink = False,
                 md_size = 0, md_executable = False\<rparr> m
           | None \<Rightarrow>
               if rel \<noteq> [] then
                 bt_insert rel \<lparr>md_name = rel, md_is_dir = (me_type e = ''dir''),
                   md_is_symlink = (me_type e = ''symlink''), md_size = me_size e,
                   md_executable = me_executable e\<rparr> m
               else m))"

definition list_manifest :: "manifest_entry list \<Rightarrow> string \<Rightarrow> manifest_dir_entry list" where
  "list_manifest manifest subpath =
     sort_key md_name (bt_values (fold (manifest_step (dir_prefix subpath)) manifest []))"

definition list_from_manifest :: "'w store_daemon \<Rightarrow> string \<Rightarrow> string \<Rightarrow> manifest_dir_entry list option" where
  "list_from_manifest d name subpath =
     map_option (\<lambda>manifest. list_manifest manifest subpath) (bt_get (manifests d) name)"

interpretation ml: child_listing manifest_step me_path
  "\<lambda>e n. \<lparr>md_name = n, md_is_dir = True, md_is_symlink = False, md_size = 0, md_executable = False\<rparr>"
  "\<lambda>e n. \<lparr>md_name = n, md_is_dir = (me_type e = ''dir''), md_is_symlink = (me_type e = ''symlink''),
     md_size = me_size e, md_executable = me_executable e\<rparr>"
  md_name
  by unfold_locales (auto simp: manifest_step_def child_of_def Let_def split: option.split)


section \<open>Resolution stays in the store\<close>

lemma piece_contained: "w \<in> set (split_char c s) \<Longrightarrow> contains_str s w"
proof -
  assume "w \<in> set (split_char c s)"
  then obtain as bs where sp: "split_char c s = as @ w # bs" by (meson split_list)
  have "\<exists>a b. join_char c (as @ w # bs) = a @ w @ b"
  proof (induction as)
    case Nil
    then show ?case by (cases bs) (auto intro: exI[of _ "[]"])
  next
    case (Cons v as)
    then obtain a b where "join_char c (as @ w # bs) = a @ w @ b" by blast
    moreover have "join_char c ((v # as) @ w # bs) = v @ c # join_char c (as @ w # bs)"
      by (cases as) auto
    ultimately show ?case by (metis append.assoc append_Cons)
  qed
  then show ?thesis using join_split_char[of c s] sp by (auto simp: contains_str_iff)
qed

lemma contains_mono: "contains_str t p \<Longrightarrow> contains_str (a @ t @ b) p"
  by (auto simp: contains_str_iff) (metis append.assoc)

lemma no_up_of_contains: "\<not> contains_str s ''..'' \<Longrightarrow> no_up s"
  using piece_contained by (auto simp: no_up_def)

lemma validate_ok:
  assumes "validate_store_path_name name = Some (Inr ())"
  shows "34 \<le> length name" "list_all is_nixbase32 (take 32 name)" "name ! 32 = CHR ''-''"
  using assms by (auto simp: validate_store_path_name_def slice_to_def split: if_splits option.splits)

fun resolved_name :: "resolved_path \<Rightarrow> string option" where
  "resolved_name Root = None"
| "resolved_name (StorePathRoot n) = Some n"
| "resolved_name (SubPath n s) = Some n"

lemma parse_parts:
  assumes "parse_scheme_path p = Some (Inr r)" "r \<noteq> Root"
  obtains name where "resolved_name r = Some name" "validate_store_path_name name = Some (Inr ())"
    "valid_name name" "\<not> contains_str (trim_matches slash p) ''..''"
    "r = StorePathRoot name \<or> (\<exists>sub. r = SubPath name sub \<and> sub \<noteq> [] \<and> trim_matches slash p = name @ slash # sub)"
proof -
  let ?p = "trim_matches slash p"
  have ne: "?p \<noteq> []" and nd: "\<not> contains_str ?p ''..''"
    using assms by (auto simp: parse_scheme_path_def Let_def split: if_splits)
  have vn: "valid_name n" if v: "validate_store_path_name n = Some (Inr ())" and "slash \<notin> set n" for n
    using validate_ok(1)[OF v] that(2) by (auto simp: valid_name_def)
  show thesis
  proof (cases "find_char slash ?p")
    case None
    then have sl: "slash \<notin> set ?p" by (simp add: find_char_None_iff)
    from None assms ne nd have "validate_store_path_name ?p = Some (Inr ())" "r = StorePathRoot ?p"
      by (auto simp: parse_scheme_path_def Let_def split: option.splits sum.splits)
    with that vn sl nd show ?thesis by auto
  next
    case (Some pos)
    have sp: "?p = take pos ?p @ slash # drop (Suc pos) ?p" by (rule find_char_split[OF Some])
    have sl: "slash \<notin> set (take pos ?p)" using find_char_SomeD[OF Some] by blast
    from Some assms ne nd have v: "validate_store_path_name (take pos ?p) = Some (Inr ())"
      and r: "r = (if drop (Suc pos) ?p = [] then StorePathRoot (take pos ?p) else SubPath (take pos ?p) (drop (Suc pos) ?p))"
      by (auto simp: parse_scheme_path_def Let_def split: option.splits sum.splits if_splits)
    from that[of "take pos ?p"] v r vn[OF v sl] nd sp show ?thesis by (auto split: if_splits)
  qed
qed

section \<open>Listings agree with the archive\<close>

lemma Union_child_join:
  assumes "names_ok ns" "\<forall>x\<in>set T. names_ok (fst x)"
  shows "(\<Union>x\<in>set T. child_name (child_of (dir_prefix (join_char slash ns)) (join_char slash (fst x))))
    = {n. \<exists>r t. (ns @ n # r, t) \<in> set T}"
proof -
  have "child_name (child_of (dir_prefix (join_char slash ns)) (join_char slash (fst x)))
      = {n. \<exists>r. fst x = ns @ n # r}" if "x \<in> set T" for x
  proof (cases "prefix ns (fst x) \<and> fst x \<noteq> ns")
    case True
    then obtain n r where nr: "fst x = ns @ n # r" by (auto simp: prefix_def neq_Nil_conv)
    have "names_ok (fst x)" using assms(2) that by blast
    then show ?thesis using child_of_join[OF assms(1), of n r] nr by (auto split: if_splits)
  next
    case False
    then have "{n. \<exists>r. fst x = ns @ n # r} = {}" by auto
    then show ?thesis using child_of_other[OF assms(1), of "fst x"] False assms(2) that by auto
  qed
  then show ?thesis by force
qed

lemma tree_names_ok:
  "readable_tree node \<Longrightarrow> names_ok ns \<Longrightarrow> x \<in> set (tree_paths node ns) \<Longrightarrow> names_ok (fst x)"
  "readable_entries es \<Longrightarrow> names_ok ns \<Longrightarrow> x \<in> set (entries_paths es ns) \<Longrightarrow> names_ok (fst x)"
  by (induction node ns and es ns rule: tree_paths_entries_paths.induct) (auto split: if_splits)

lemma subtree_append:
  "subtree node (ns @ ms) = (case subtree node ns of None \<Rightarrow> None | Some m \<Rightarrow> subtree m ms)"
  by (induction node ns rule: subtree.induct) (auto split: option.split)

lemma map_kind_paths: "map kind_at man = map entry_at T \<Longrightarrow>
  (\<Union>e\<in>set man. f (me_path e)) = (\<Union>x\<in>set T. f (join_char slash (fst x)))"
proof -
  assume eq: "map kind_at man = map entry_at T"
  have "me_path ` set man = fst ` set (map kind_at man)" by (simp add: image_image kind_at_def)
  also have "\<dots> = (\<lambda>x. join_char slash (fst x)) ` set T" unfolding eq by (simp add: image_image entry_at_def)
  finally have "(\<Union>p\<in>me_path ` set man. f p) = (\<Union>p\<in>(\<lambda>x. join_char slash (fst x)) ` set T. f p)"
    by (rule arg_cong)
  then show ?thesis by (simp only: UN_simps image_image)
qed

lemma dir_children_of_tree:
  assumes "distinct_tree node" "subtree node ns = Some (NarDirectory es err)"
  shows "{n. \<exists>r t. (ns @ n # r, t) \<in> set (tree_paths node [])} = fst ` set es"
proof (intro equalityI subsetI)
  fix n assume "n \<in> {n. \<exists>r t. (ns @ n # r, t) \<in> set (tree_paths node [])}"
  then obtain r t m where "subtree node (ns @ n # r) = Some m"
    using tree_paths_subtree(1)[OF assms(1), of _ "[]"] by auto
  then show "n \<in> fst ` set es"
    using assms(2) map_of_SomeD[of es n] by (auto simp: subtree_append image_iff split: option.splits) force
next
  fix n assume "n \<in> fst ` set es"
  then obtain c where "map_of es n = Some c" by (metis image_iff map_of_eq_None_iff not_None_eq)
  then have "subtree node (ns @ [n]) = Some c" using assms(2) by (simp add: subtree_append)
  then have "(ns @ [n], node_type c) \<in> set (tree_paths node [])"
    using tree_paths_subtree(1)[OF assms(1), of _ "[]"] by auto
  then show "n \<in> {n. \<exists>r t. (ns @ n # r, t) \<in> set (tree_paths node [])}" by blast
qed

lemma list_manifest_of_tree:
  assumes "map kind_at man = map entry_at (tree_paths node [])" "readable_tree node" "distinct_tree node"
    and "subtree node ns = Some (NarDirectory es err)" "names_ok ns"
  shows "map md_name (list_manifest man (join_char slash ns)) = sorted_list_of_set (fst ` set es)"
proof -
  have "map md_name (list_manifest man (join_char slash ns))
      = sorted_list_of_set (\<Union>e\<in>set man. child_name (child_of (dir_prefix (join_char slash ns)) (me_path e)))"
    unfolding list_manifest_def by (rule ml.listing_names)
  also have "(\<Union>e\<in>set man. child_name (child_of (dir_prefix (join_char slash ns)) (me_path e)))
      = {n. \<exists>r t. (ns @ n # r, t) \<in> set (tree_paths node [])}"
    unfolding map_kind_paths[OF assms(1), of "\<lambda>p. child_name (child_of (dir_prefix (join_char slash ns)) p)"]
    by (rule Union_child_join[OF assms(5)]) (use tree_names_ok(1)[OF assms(2), of "[]"] in auto)
  finally show ?thesis using dir_children_of_tree[OF assms(3,4)] by simp
qed


section \<open>The invariant of the daemon's tables\<close>

definition daemon_inv :: "'w store_daemon \<Rightarrow> bool" where
  "daemon_inv d \<longleftrightarrow> bt_inv (registered_paths d) \<and> bt_inv (nar_hashes d) \<and> bt_inv (manifests d)
     \<and> dom (bt_get (nar_hashes d)) \<subseteq> dom (bt_get (registered_paths d))
     \<and> dom (bt_get (manifests d)) \<subseteq> dom (bt_get (registered_paths d))"

lemma inv_remember: "daemon_inv d \<Longrightarrow> daemon_inv (remember_store_path n d)"
  by (auto simp: daemon_inv_def remember_store_path_def bt_simps)

lemma registered_remember: "bt_get (registered_paths (remember_store_path n d)) n = Some ()"
  by (simp add: remember_store_path_def bt_simps)

lemma inv_insert_hash:
  "daemon_inv d \<Longrightarrow> bt_get (registered_paths d) n = Some () \<Longrightarrow> daemon_inv (d\<lparr>nar_hashes := bt_insert n h (nar_hashes d)\<rparr>)"
  by (auto simp: daemon_inv_def bt_simps)

lemma inv_insert_manifest:
  "daemon_inv d \<Longrightarrow> bt_get (registered_paths d) n = Some () \<Longrightarrow> daemon_inv (insert_manifest n files d)"
  by (auto simp: daemon_inv_def insert_manifest_def bt_simps)

lemma inv_world [simp]: "daemon_inv (d\<lparr>sd_world := w\<rparr>) = daemon_inv d"
  "daemon_inv (d\<lparr>sd_handles := hs\<rparr>) = daemon_inv d" "daemon_inv (d\<lparr>sd_next_id := n\<rparr>) = daemon_inv d"
  "daemon_inv (d\<lparr>sd_extracting := ex\<rparr>) = daemon_inv d"
  by (simp_all add: daemon_inv_def)

lemma inv_remember_hash: "daemon_inv d \<Longrightarrow> daemon_inv (remember_nar_hash n h d)"
  unfolding remember_nar_hash_def Let_def
  by (rule inv_insert_hash) (simp_all add: inv_remember registered_remember)

lemma inv_load_path: "daemon_inv d \<Longrightarrow> daemon_inv (load_path db_get p d)"
  by (auto simp: load_path_def Let_def inv_remember registered_remember
      intro!: inv_insert_hash inv_insert_manifest split: option.split)

lemma inv_load_manifest: "daemon_inv d \<Longrightarrow> daemon_inv (load_manifest db_get n d)"
  by (auto simp: load_manifest_def Let_def inv_remember registered_remember
      intro!: inv_insert_manifest split: option.split)

lemma inv_load_via_worker:
  "daemon_inv d \<Longrightarrow> daemon_inv (snd (load_manifest_via_worker preload path_hash db_dir parse_info n d))"
  by (auto simp: load_manifest_via_worker_def Let_def inv_remember registered_remember
      intro!: inv_insert_manifest split: option.split prod.split sum.split)

lemma inv_new: "daemon_inv (new_daemon db_list db_get config w)"
proof -
  have "daemon_inv d \<Longrightarrow> daemon_inv (fold (load_path db_get) ps d)" for ps and d :: "'a store_daemon"
    by (induction ps arbitrary: d) (auto intro: inv_load_path)
  moreover have "daemon_inv \<lparr>sd_next_id = 1, sd_handles = Map.empty, sd_extracting = [], sd_config = config,
      sd_root_fd = None, registered_paths = [], nar_hashes = [], manifests = [], sd_world = w\<rparr>"
    by (simp add: daemon_inv_def)
  ultimately show ?thesis unfolding new_daemon_def by blast
qed

section \<open>Reading a file in pieces\<close>

text \<open>A client that reads with a buffer of \<open>n\<close> bytes until it gets nothing; fuel bounds the calls.\<close>

fun read_chunks ::
  "(path_buf \<Rightarrow> ('w, io_kind, bytes) eio) \<Rightarrow> usize \<Rightarrow> usize \<Rightarrow> nat \<Rightarrow> nat \<Rightarrow> 'w store_daemon \<Rightarrow> (io_kind + bytes) option" where
  "read_chunks preload hid n 0 off d = None"
| "read_chunks preload hid n (Suc fuel) off d =
     (case table_read preload hid n (of_nat off) d of
        (Inl e, d') \<Rightarrow> Some (Inl e)
      | (Inr [], d') \<Rightarrow> Some (Inr [])
      | (Inr chunk, d') \<Rightarrow> map_option (map_sum id ((@) chunk)) (read_chunks preload hid n fuel (off + length chunk) d'))"

lemma serve_content_eq: "serve_content c off n = take (unat n) (drop (unat off) c)"
  by (auto simp: serve_content_def Let_def min_def)

lemma read_chunks_cached:
  assumes "sd_handles d hid = Some (SFile fh)" "sf_content fh = Some c" "0 < n" "length c < 2 ^ 64"
    and "off \<le> length c" "length c - off < fuel"
  shows "read_chunks preload hid n fuel off d = Some (Inr (drop off c))"
  using assms(5,6)
proof (induction fuel arbitrary: off)
  case (Suc fuel)
  let ?ch = "take (unat n) (drop off c)"
  have uo: "unat (of_nat off :: u64) = off" using Suc.prems(1) assms(4) by (simp add: unat_of_nat)
  have tr: "table_read preload hid n (of_nat off) d = (Inr ?ch, d)"
    using assms(1,2) uo by (simp add: table_read_def serve_content_eq)
  show ?case
  proof (cases "off = length c")
    case True
    then show ?thesis using tr by simp
  next
    case False
    then have ne: "?ch \<noteq> []" using Suc.prems(1) assms(3) by (simp add: word_less_nat_alt)
    then obtain a as where ch: "?ch = a # as" by (cases ?ch) auto
    have len: "off + length ?ch \<le> length c" "0 < length ?ch"
      using Suc.prems(1) ne by (simp, metis length_greater_0_conv)
    then have "read_chunks preload hid n fuel (off + length ?ch) d = Some (Inr (drop (off + length ?ch) c))"
      using Suc.prems len by (intro Suc.IH) linarith+
    moreover have "?ch @ drop (off + length ?ch) c = drop off c"
      by (metis add.commute append_take_drop_id drop_drop drop_all length_drop length_take min.cobounded2 min_def nat_le_linear take_all)
    ultimately show ?thesis using tr ch by (auto simp: ch)
  qed
qed simp

lemma table_read_loads:
  assumes "sd_handles d hid = Some (SFile fh)" "sf_content fh = None" "preload (sf_real_path fh) (sd_world d) = (Inr c, w)"
  shows "table_read preload hid n off d = (Inr (serve_content c off n),
    store_put hid (SFile (fh\<lparr>sf_size := of_nat (length c), sf_content := Some c\<rparr>)) (d\<lparr>sd_world := w\<rparr>))"
  using assms by (simp add: table_read_def)


section \<open>Properties\<close>

text \<open>
  C27: resolution stays in the store. If a scheme path resolves and contains no empty component,
  the filesystem path is the store directory followed by proper names, none of them \<^verbatim>\<open>..\<close>, and
  the first one, if any, is a name with a 32-character base-32 hash and a dash.
\<close>

theorem resolve_confined:
  assumes "parse_scheme_path p = Some (Inr r)" "\<not> contains_str (trim_matches slash p) ''//''" "dir \<noteq> []"
  shows "\<exists>ns q. to_filesystem_path r dir = Some q \<and> components q = components dir @ map Normal ns \<and> names_ok ns
    \<and> (r \<noteq> Root \<longrightarrow> ns \<noteq> [] \<and> resolved_name r = Some (hd ns) \<and> list_all is_nixbase32 (take 32 (hd ns))
        \<and> hd ns ! 32 = CHR ''-'')"
proof (cases "r = Root")
  case True
  then show ?thesis by (intro exI[of _ "[]"] exI[of _ dir]) simp
next
  case False
  obtain name where n: "resolved_name r = Some name" "validate_store_path_name name = Some (Inr ())"
    "valid_name name" "\<not> contains_str (trim_matches slash p) ''..''"
    "r = StorePathRoot name \<or> (\<exists>sub. r = SubPath name sub \<and> sub \<noteq> [] \<and> trim_matches slash p = name @ slash # sub)"
    by (rule parse_parts[OF assms(1) False])
  note fmt = validate_ok[OF n(2)]
  have base: "components (path_join dir name) = components dir @ [Normal name]"
    by (rule components_join_name[OF assms(3) n(3)])
  from n(5) show ?thesis
  proof (elim disjE exE conjE)
    assume "r = StorePathRoot name"
    then show ?thesis using base n(3) fmt by (intro exI[of _ "[name]"] exI[of _ "path_join dir name"]) simp
  next
    fix sub assume r: "r = SubPath name sub" "sub \<noteq> []" and t: "trim_matches slash p = name @ slash # sub"
    have "hd sub \<noteq> slash"
    proof
      assume "hd sub = slash"
      then obtain s' where "sub = slash # s'" using r(2) by (cases sub) auto
      then have "trim_matches slash p = name @ ''//'' @ s'" using t by simp
      with assms(2) show False by (auto simp: contains_str_iff)
    qed
    moreover have "\<not> contains_str sub ''..''"
      using n(4) contains_mono[of sub "''..''" "name @ [slash]" "[]"] t by auto
    then have nu: "no_up sub" by (rule no_up_of_contains)
    moreover obtain ms where ms: "concat (map seg_components (split_char slash sub)) = map Normal ms"
      using seg_no_up nu unfolding no_up_def by blast
    moreover have "path_join dir name \<noteq> []" using base by (auto simp: components_def seg_components_def junk_def)
    ultimately have c: "components (path_join (path_join dir name) sub) = components dir @ map Normal (name # ms)"
      using components_join_pieces[of "path_join dir name" sub] base by simp
    have "\<forall>m\<in>set ms. valid_name m"
      using c components_Normal_valid[of _ "path_join (path_join dir name) sub"] by auto
    then show ?thesis
      using r c n(3) fmt by (intro exI[of _ "name # ms"] exI[of _ "path_join (path_join dir name) sub"])
        (simp add: names_ok_def)
  qed
qed

definition sample_name :: string where
  "sample_name = ''1b9jydsiygi6jhlz2dxbrxi6b4m1rn4r-rg''"

theorem resolve_confined_witness:
  "parse_scheme_path (sample_name @ ''/bin/rg'') = Some (Inr (SubPath sample_name ''bin/rg''))
   \<and> (\<exists>ns q. to_filesystem_path (SubPath sample_name ''bin/rg'') ''/nix/store'' = Some q
        \<and> components q = components ''/nix/store'' @ map Normal ns \<and> names_ok ns)"
proof -
  have p: "parse_scheme_path (sample_name @ ''/bin/rg'') = Some (Inr (SubPath sample_name ''bin/rg''))"
    by code_simp
  have "\<not> contains_str (trim_matches slash (sample_name @ ''/bin/rg'')) ''//''" by code_simp
  from resolve_confined[OF p this, of "''/nix/store''"] p show ?thesis by blast
qed

text \<open>
  An empty component replaces the path. A scheme path with two slashes after the store path
  name leaves a subpath that starts with a slash; the manifest lookup trims it and finds the
  entry, while the filesystem path is the subpath taken from the root: the daemon serves
  \<^verbatim>\<open>/bin/rg\<close> for \<^verbatim>\<open><name>//bin/rg\<close>.
\<close>

theorem double_slash_leaves_store:
  "parse_scheme_path (sample_name @ ''//bin/rg'') = Some (Inr (SubPath sample_name ''/bin/rg''))
   \<and> to_filesystem_path (SubPath sample_name ''/bin/rg'') ''/nix/store'' = Some ''/bin/rg''
   \<and> manifest_contains_path (insert_manifest sample_name
        [\<lparr>me_path = ''bin/rg'', me_type = ''file'', me_size = 3, me_executable = True\<rparr>]
        (new_daemon None (\<lambda>_. None) default_config ())) sample_name ''/bin/rg'' = Some True
   \<and> \<not> is_directory_in_manifest (insert_manifest sample_name
        [\<lparr>me_path = ''bin/rg'', me_type = ''file'', me_size = 3, me_executable = True\<rparr>]
        (new_daemon None (\<lambda>_. None) default_config ())) sample_name ''/bin/rg''"
  by (intro conjI; code_simp)

text \<open>
  When validation panics. Checking a store path name panics exactly when the name has at
  least 34 bytes and byte 32 is inside a character, and valid UTF-8 paths with that property
  exist: the slice is taken before the byte after it is looked at.
\<close>

theorem validate_panics_iff:
  "(validate_store_path_name name = None \<longleftrightarrow> 34 \<le> length name \<and> is_cont (name ! 32))
   \<and> (\<exists>p. utf8_valid p \<and> parse_scheme_path p = None)"
proof -
  have "validate_store_path_name name = None \<longleftrightarrow> 34 \<le> length name \<and> is_cont (name ! 32)"
    by (auto simp: validate_store_path_name_def slice_to_def is_char_boundary_def)
  moreover have "utf8_valid (replicate 31 CHR ''a'' @ [CHR 0xC3, CHR 0xA9] @ ''xyz'')
      \<and> parse_scheme_path (replicate 31 CHR ''a'' @ [CHR 0xC3, CHR 0xA9] @ ''xyz'') = None"
    by code_simp
  ultimately show ?thesis by blast
qed

text \<open>
  C28: the daemon lists what the archive contains. For a manifest that describes an archive with
  well-formed and distinct names, the listing of any directory of the archive has exactly the
  names of that directory's entries, each once, in byte order.
\<close>

theorem list_manifest_matches_archive:
  assumes "sink_accepts sink" "readable_tree node" "distinct_tree node"
    and "extract_with_manifest sink (Inr node) dest s = (Inr man, s')"
    and "subtree node ns = Some (NarDirectory es err)" "names_ok ns"
    and "bt_get (manifests d) name = Some man"
  shows "map_option (map md_name) (list_from_manifest d name (join_char slash ns))
    = Some (sorted_list_of_set (fst ` set es))"
proof -
  obtain s1 man1 where x: "extract_node_with_sink sink node dest (join_char slash []) (s, []) = (Inr (), (s1, [] @ man1))"
    "map kind_at man1 = map entry_at (tree_paths node [])"
    using extract_tree(1)[OF assms(1,2), of "[]" dest s "[]"] by blast
  then have "man = man1" using assms(4) by (simp add: extract_with_manifest_def)
  then show ?thesis
    using list_manifest_of_tree[OF x(2) assms(2,3,5,6)] assms(7) by (simp add: list_from_manifest_def)
qed

theorem list_manifest_matches_archive_witness:
  "\<exists>man. map_option (map md_name) (list_from_manifest (insert_manifest sample_name man
      (new_daemon None (\<lambda>_. None) default_config ())) sample_name ''bin'') = Some [''rg'']"
proof -
  obtain man s' where x: "extract_with_manifest null_sink (Inr sample_tree) ''/nix/store/x'' () = (Inr man, s')"
    by (simp add: sample_tree_def extract_with_manifest_def null_sink_def bindS_def on_sink_def push_entry_def
        ret_def byte_of_def child_rel_def)
  let ?d = "insert_manifest sample_name man (new_daemon None (\<lambda>_. None) default_config ())"
  have st: "subtree sample_tree [''bin''] = Some (NarDirectory [(''rg'', NarFile True ([1, 2, 3], None))] None)"
    and dt: "distinct_tree sample_tree"
    by (simp_all add: sample_tree_def)
  have "bt_get (manifests ?d) sample_name = Some man" by (simp add: insert_manifest_def bt_simps)
  from list_manifest_matches_archive[OF sample_tree_ok(2,1) dt x st _ this]
  show ?thesis by (intro exI[of _ man]) (simp add: valid_name_def)
qed

text \<open>
  Reading in pieces returns the file. A client that reads an open file from the start with any
  non-empty buffer until it gets nothing receives exactly the bytes that the first access
  loaded, within \<open>length + 1\<close> reads; the file is loaded once.
\<close>

theorem read_file_complete:
  assumes "sd_handles d hid = Some (SFile fh)" "sf_content fh = None"
    and "preload (sf_real_path fh) (sd_world d) = (Inr c, w)" "0 < n" "length c < 2 ^ 64"
  shows "read_chunks preload hid n (length c + 1) 0 d = Some (Inr c)"
proof -
  let ?fh = "fh\<lparr>sf_size := of_nat (length c), sf_content := Some c\<rparr>"
  let ?d = "store_put hid (SFile ?fh) (d\<lparr>sd_world := w\<rparr>)"
  have h: "sd_handles ?d hid = Some (SFile ?fh)" by (simp add: store_put_def)
  have tr: "table_read preload hid n 0 d = (Inr (take (unat n) c), ?d)"
    using table_read_loads[of d hid fh preload c w n 0] assms(1-3) by (simp add: serve_content_eq)
  have "read_chunks preload hid n (length c + 1) 0 ?d = Some (Inr (drop 0 c))"
    by (rule read_chunks_cached[OF h _ assms(4,5)]) simp_all
  moreover have "table_read preload hid n 0 ?d = (Inr (take (unat n) c), ?d)"
    using h by (simp add: table_read_def serve_content_eq)
  ultimately show ?thesis using tr by simp
qed

definition sample_open_file :: "unit store_daemon" where
  "sample_open_file = store_put 1 (SFile \<lparr>sf_content = None, sf_real_path = ''/nix/store/x/f'',
     sf_scheme_path = ''x/f'', sf_size = 0, sf_executable = False\<rparr>) (new_daemon None (\<lambda>_. None) default_config ())"

theorem read_file_complete_witness:
  "read_chunks (\<lambda>p w. (Inr [7, 8, 9], w)) 1 2 (length [7, 8, 9 :: 8 word] + 1) 0 sample_open_file
   = Some (Inr [7, 8, 9])"
  by (rule read_file_complete[where w = "()"], simp add: sample_open_file_def store_put_def) simp_all

end
