(* ===== verification/Store_Lazy.thy ===== *)
theory Store_Lazy
  imports Store_Daemon
begin

text \<open>
  Lazy extraction of store paths (\<^verbatim>\<open>stored/lazy.rs\<close>). The system calls, the parsing of narinfo files,
  the decompressors and the digest are parameters. A stream is what the decompressor delivers: the
  archive the NAR reader sees in it and the hexadecimal digest of the bytes that were read.
  The mutex around the set of running extractions is never poisoned in this model.
\<close>

datatype extract_error =
    ENotRegistered
  | ENarNotFound string
  | EHashMismatch string string string
  | EIoError

record extraction_outcome =
  extracted_now :: bool
  eo_manifest :: "manifest_entry list option"

definition default_outcome :: extraction_outcome where
  "default_outcome = \<lparr>extracted_now = False, eo_manifest = None\<rparr>"

text \<open>
  \<open>le_cache_key\<close> parses an absolute store path and encodes its digest, \<open>le_narinfo_url\<close> parses a narinfo
  text, \<open>le_stream\<close> sets up the decompressor chosen by the file extension.
\<close>

record 'w lazy_env =
  le_kernel :: "'w kernel"
  le_fs :: "'w std_fs"
  le_abi :: abi
  O_STAT :: usize
  le_exists :: "path_buf \<Rightarrow> 'w \<Rightarrow> bool"
  le_remove_dir_all :: "path_buf \<Rightarrow> ('w, io_kind, unit) eio"
  le_open :: "path_buf \<Rightarrow> ('w, io_kind, usize) eio"
  le_read_to_string :: "usize \<Rightarrow> ('w, io_kind, string) eio"
  le_cache_key :: "string \<Rightarrow> string option"
  le_narinfo_url :: "string \<Rightarrow> string option"
  le_stream :: "string option \<Rightarrow> usize \<Rightarrow> ('w, io_kind, (io_kind + nar_node) \<times> string) eio"
  le_sleep :: "'w \<Rightarrow> 'w"

type_synonym ('w, 'a) lazy = "('w, extract_error, 'a) eio"

definition lazy_raw_openat :: "'w lazy_env \<Rightarrow> path_buf \<Rightarrow> usize \<Rightarrow> usize \<Rightarrow> ('w, io_kind, usize) eio" where
  "lazy_raw_openat env p rfd flags =
     map_err (\<lambda>_. NotFound) (k_openat (le_kernel env) rfd (trim_start_matches slash p) flags)"

definition path_exists :: "'w lazy_env \<Rightarrow> path_buf \<Rightarrow> usize option \<Rightarrow> ('w, bool) lazy" where
  "path_exists env p root = (\<lambda>w.
     case root of
       Some rfd \<Rightarrow>
         (case lazy_raw_openat env p rfd (O_STAT env) w of
            (Inr fd, w') \<Rightarrow> (Inr True, snd (k_close (le_kernel env) fd w'))
          | (Inl _, w') \<Rightarrow> (Inr False, w'))
     | None \<Rightarrow> (Inr (le_exists env p w), w))"

text \<open>The walk ends at the first directory that cannot be created.\<close>

definition lazy_raw_mkdir_p :: "'w lazy_env \<Rightarrow> path_buf \<Rightarrow> usize \<Rightarrow> ('w, io_kind, unit) eio" where
  "lazy_raw_mkdir_p env p rfd =
     mkdir_strict (le_kernel env) rfd [] (split_char slash (trim_start_matches slash p))"

definition ensure_dir_exists :: "'w lazy_env \<Rightarrow> path_buf \<Rightarrow> usize option \<Rightarrow> ('w, io_kind, unit) eio" where
  "ensure_dir_exists env p root =
     (case root of
        Some rfd \<Rightarrow> lazy_raw_mkdir_p env p rfd
      | None \<Rightarrow> fs_create_dir_all (le_fs env) p)"

definition read_cached_narinfo :: "'w lazy_env \<Rightarrow> string \<Rightarrow> string \<Rightarrow> usize option \<Rightarrow> ('w, string) lazy" where
  "read_cached_narinfo env cache hash root =
     (let narinfo_path = path_join cache (hash @ ''.narinfo'') in
      bindS (case root of
          Some rfd \<Rightarrow>
            bindS (map_err (\<lambda>_. ENarNotFound narinfo_path) (lazy_raw_openat env narinfo_path rfd O_RDONLY)) (\<lambda>fd.
            owning (le_fs env) fd (map_err (\<lambda>_. EIoError) (le_read_to_string env fd)))
        | None \<Rightarrow>
            map_err (\<lambda>_. ENarNotFound narinfo_path)
              (bindS (le_open env narinfo_path) (\<lambda>fd. owning (le_fs env) fd (le_read_to_string env fd))))
        (\<lambda>body. ok_or (le_narinfo_url env body) EIoError))"

definition open_cached_nar ::
  "'w lazy_env \<Rightarrow> string \<Rightarrow> string \<Rightarrow> usize option \<Rightarrow> ('w, path_buf \<times> usize) lazy" where
  "open_cached_nar env cache hash root =
     bindS (read_cached_narinfo env cache hash root) (\<lambda>url.
     let nar_path = path_join cache url in
     case root of
       Some rfd \<Rightarrow>
         bindS (map_err (\<lambda>_. ENarNotFound nar_path) (lazy_raw_openat env nar_path rfd O_RDONLY))
           (\<lambda>fd. ret (nar_path, fd))
     | None \<Rightarrow> bindS (map_err (\<lambda>_. EIoError) (le_open env nar_path)) (\<lambda>fd. ret (nar_path, fd)))"

definition find_nar_file :: "(path_buf \<Rightarrow> bool) \<Rightarrow> string \<Rightarrow> string \<Rightarrow> path_buf option" where
  "find_nar_file exists cache hash =
     find exists (map (\<lambda>ext. path_join cache (hash @ ''.'' @ ext)) [''nar.zst'', ''nar.xz'', ''nar.bz2'', ''nar''])"

definition normalize_hash :: "string \<Rightarrow> string" where
  "normalize_hash hash = (case strip_prefix hash ''sha256:'' of Some hex \<Rightarrow> hex | None \<Rightarrow> hash)"

definition removal_flags :: "abi \<Rightarrow> manifest_entry \<Rightarrow> usize" where
  "removal_flags a e = (if me_type e = ''dir'' then AT_REMOVEDIR a else 0)"

fun unlink_each :: "'w kernel \<Rightarrow> usize \<Rightarrow> (string \<times> usize) list \<Rightarrow> 'w \<Rightarrow> 'w" where
  "unlink_each k rfd [] w = w"
| "unlink_each k rfd ((p, fl) # ps) w = unlink_each k rfd ps (snd (k_unlinkat k rfd p fl w))"

definition removals :: "abi \<Rightarrow> string \<Rightarrow> manifest_entry list \<Rightarrow> (string \<times> usize) list" where
  "removals a abs_store_path manifest =
     map (\<lambda>e. (trim_start_matches slash (path_join abs_store_path (me_path e)), removal_flags a e)) (rev manifest)
     @ [(trim_start_matches slash abs_store_path, AT_REMOVEDIR a)]"

definition remove_tree_via_manifest ::
  "'w lazy_env \<Rightarrow> string \<Rightarrow> manifest_entry list \<Rightarrow> usize \<Rightarrow> 'w \<Rightarrow> 'w" where
  "remove_tree_via_manifest env abs_store_path manifest rfd =
     unlink_each (le_kernel env) rfd (removals (le_abi env) abs_store_path manifest)"

definition cleanup_failed_extraction ::
  "'w lazy_env \<Rightarrow> string \<Rightarrow> manifest_entry list \<Rightarrow> usize option \<Rightarrow> 'w \<Rightarrow> 'w" where
  "cleanup_failed_extraction env abs_store_path manifest root w =
     (case root of
        Some rfd \<Rightarrow> remove_tree_via_manifest env abs_store_path manifest rfd w
      | None \<Rightarrow> snd (le_remove_dir_all env abs_store_path w))"

text \<open>The extension of the last component, which selects the decompressor.\<close>

definition path_extension :: "path_buf \<Rightarrow> string option" where
  "path_extension p =
     (case path_file_name p of
        None \<Rightarrow> None
      | Some name \<Rightarrow>
          (case split_char CHR ''.'' name of
             ws \<Rightarrow> if length ws < 2 \<or> (length ws = 2 \<and> hd ws = []) then None else Some (last ws)))"

definition extraction_sink :: "'w lazy_env \<Rightarrow> usize option \<Rightarrow> 'w extract_sink" where
  "extraction_sink env root =
     (case root of
        Some rfd \<Rightarrow> root_fd_sink (le_kernel env) (le_fs env) (le_abi env) rfd
      | None \<Rightarrow> std_fs_sink (le_fs env))"

text \<open>
  The descriptor of the archive is owned by the reader and closed before the digests are
  compared. Nothing is removed when the extraction itself fails.
\<close>

definition unpack_stream ::
  "'w lazy_env \<Rightarrow> string \<Rightarrow> string \<Rightarrow> path_buf \<times> usize \<Rightarrow> usize option
   \<Rightarrow> ('w, manifest_entry list \<times> string) lazy" where
  "unpack_stream env dir abs_store_path nar root = (case nar of (nar_path, fd) \<Rightarrow>
     owning (le_fs env) fd (
       bindS (map_err (\<lambda>_. EIoError) (le_stream env (path_extension nar_path) fd)) (\<lambda>(archive, digest).
       bindS (map_err (\<lambda>_. EIoError) (ensure_dir_exists env dir root)) (\<lambda>_.
       bindS (map_err (\<lambda>_. EIoError) (extract_with_manifest (extraction_sink env root) archive abs_store_path))
         (\<lambda>manifest. ret (manifest, digest))))))"

definition do_extraction ::
  "'w lazy_env \<Rightarrow> string \<Rightarrow> string \<Rightarrow> string \<Rightarrow> string \<Rightarrow> usize option \<Rightarrow> ('w, manifest_entry list) lazy" where
  "do_extraction env name dir cache expected root =
     (let abs_store_path = dir @ ''/'' @ name in
      bindS (ok_or (le_cache_key env abs_store_path) ENotRegistered) (\<lambda>key.
      bindS (open_cached_nar env cache key root) (\<lambda>nar.
      bindS (unpack_stream env dir abs_store_path nar root) (\<lambda>(manifest, digest).
      if digest \<noteq> normalize_hash expected
      then (\<lambda>w. (Inl (EHashMismatch abs_store_path (normalize_hash expected) digest),
                 cleanup_failed_extraction env abs_store_path manifest root w))
      else ret manifest))))"

fun wait_rounds :: "'w lazy_env \<Rightarrow> path_buf \<Rightarrow> usize option \<Rightarrow> nat \<Rightarrow> ('w, unit) lazy" where
  "wait_rounds env dest root 0 = fail EIoError"
| "wait_rounds env dest root (Suc n) =
     bindS (path_exists env dest root) (\<lambda>there.
       if there then ret () else (\<lambda>w. wait_rounds env dest root n (le_sleep env w)))"

definition wait_for_extraction :: "'w lazy_env \<Rightarrow> path_buf \<Rightarrow> usize option \<Rightarrow> ('w, unit) lazy" where
  "wait_for_extraction env dest root = wait_rounds env dest root 6000"

definition on_world :: "('w, 'e, 'a) eio \<Rightarrow> ('w \<times> string list, 'e, 'a) eio" where
  "on_world f = (\<lambda>(w, ex). case f w of (r, w') \<Rightarrow> (r, (w', ex)))"

text \<open>The state is the world and the set of store paths being extracted.\<close>

definition ensure_extracted ::
  "'w lazy_env \<Rightarrow> string \<Rightarrow> string \<Rightarrow> string \<Rightarrow> string \<Rightarrow> usize option
   \<Rightarrow> ('w \<times> string list, extract_error, extraction_outcome) eio" where
  "ensure_extracted env name dir cache expected root =
     (let dest = path_join dir name in
      bindS (on_world (path_exists env dest root)) (\<lambda>there.
      if there then ret default_outcome
      else (\<lambda>(w, ex).
        if name \<in> set ex then
          bindS (on_world (wait_for_extraction env dest root)) (\<lambda>_. ret default_outcome) (w, ex)
        else
          (case do_extraction env name dir cache expected root w of
             (result, w') \<Rightarrow>
               (map_sum id (\<lambda>manifest. \<lparr>extracted_now = True, eo_manifest = Some manifest\<rparr>) result,
                (w', removeAll name (name # ex)))))))"

section \<open>What a verified extraction guarantees\<close>

lemma owning_InrE:
  assumes "owning fs fd m w = (Inr x, w')"
  obtains w1 where "m w = (Inr x, w1)" "w' = fs_drop fs fd w1"
  using assms by (auto simp: owning_def split: prod.splits)

text \<open>A manifest and its digest come from one stream, extracted completely.\<close>

definition extracted_from ::
  "'w lazy_env \<Rightarrow> usize option \<Rightarrow> path_buf \<Rightarrow> string \<Rightarrow> manifest_entry list \<Rightarrow> bool" where
  "extracted_from env root dest digest manifest \<longleftrightarrow>
     (\<exists>ext fd w1 archive w2 w3 w4. le_stream env ext fd w1 = (Inr (archive, digest), w2)
        \<and> extract_with_manifest (extraction_sink env root) archive dest w3 = (Inr manifest, w4))"

lemma unpack_InrD:
  assumes "unpack_stream env dir dest nar root w = (Inr (manifest, digest), w')"
  shows "extracted_from env root dest digest manifest"
proof -
  obtain nar_path fd where nar: "nar = (nar_path, fd)" by (cases nar)
  obtain archive w1 w3 w4 where "le_stream env (path_extension nar_path) fd w = (Inr (archive, digest), w1)"
    "extract_with_manifest (extraction_sink env root) archive dest w3 = (Inr manifest, w4)"
    using assms unfolding unpack_stream_def nar by (auto simp: ret_def elim!: owning_InrE bindS_InrE map_err_InrE)
  then show ?thesis unfolding extracted_from_def by blast
qed

lemma do_extraction_verified:
  assumes "do_extraction env name dir cache expected root w = (Inr manifest, w')"
  shows "extracted_from env root (dir @ ''/'' @ name) (normalize_hash expected) manifest"
proof -
  obtain nar w1 md w2 where up: "unpack_stream env dir (dir @ ''/'' @ name) nar root w1 = (Inr md, w2)"
    and rest: "(case md of (m, digest) \<Rightarrow> if digest \<noteq> normalize_hash expected
      then (\<lambda>w. (Inl (EHashMismatch (dir @ ''/'' @ name) (normalize_hash expected) digest),
                 cleanup_failed_extraction env (dir @ ''/'' @ name) m root w))
      else ret m) w2 = (Inr manifest, w')"
    using assms unfolding do_extraction_def Let_def by (elim bindS_InrE)
  obtain m dg where md: "md = (m, dg)" by (cases md)
  from rest have "dg = normalize_hash expected" "m = manifest"
    unfolding md by (auto simp: ret_def split: if_splits)
  with unpack_InrD[OF up[unfolded md]] show ?thesis by simp
qed

lemma path_exists_Inr: "\<exists>b w1. path_exists env p root w = (Inr b, w1)"
  by (auto simp: path_exists_def split: option.split prod.split sum.split)

lemma ensure_extracted_cases:
  assumes "ensure_extracted env name dir cache expected root (w, ex) = (r, (w', ex'))"
  obtains (present) w1 where "path_exists env (path_join dir name) root w = (Inr True, w1)"
      "r = Inr default_outcome" "ex' = ex"
  | (waited) "name \<in> set ex" "r = Inr default_outcome \<or> r = Inl EIoError" "ex' = ex"
  | (extracted) w1 result where "name \<notin> set ex" "path_exists env (path_join dir name) root w = (Inr False, w1)"
      "do_extraction env name dir cache expected root w1 = (result, w')" "ex' = ex"
      "r = map_sum id (\<lambda>manifest. \<lparr>extracted_now = True, eo_manifest = Some manifest\<rparr>) result"
proof -
  obtain b w1 where pe: "path_exists env (path_join dir name) root w = (Inr b, w1)"
    using path_exists_Inr[of env "path_join dir name" root w] by (elim exE)
  have wait: "fst (wait_rounds env d root n v) = Inr () \<or> fst (wait_rounds env d root n v) = Inl EIoError" for d n v
  proof (induction n arbitrary: v)
    case (Suc n)
    then show ?case by (auto simp: bindS_def ret_def path_exists_def split: option.splits prod.splits sum.splits)
  qed (simp add: fail_def)
  show thesis
  proof (cases b)
    case True
    with pe assms show ?thesis
      by (intro present[of w1]) (auto simp: ensure_extracted_def Let_def bindS_def on_world_def ret_def)
  next
    case False
    show ?thesis
    proof (cases "name \<in> set ex")
      case True
      with pe False assms wait[of "path_join dir name" 6000 w1] show ?thesis
        by (intro waited) (auto simp: ensure_extracted_def Let_def bindS_def on_world_def ret_def
            wait_for_extraction_def split: prod.splits sum.splits)
    next
      case nin: False
      with pe False assms show ?thesis
        by (intro extracted[of w1 "fst (do_extraction env name dir cache expected root w1)"])
          (auto simp: ensure_extracted_def Let_def bindS_def on_world_def ret_def split: prod.splits)
    qed
  qed
qed

section \<open>Removing a rejected tree\<close>

text \<open>
  A directory tree as a map from the names below the root to whether they are directories.
  \<open>unlinks_empty\<close> is the documented effect of \<^verbatim>\<open>unlinkat\<close>: it removes a file, or with
  \<^verbatim>\<open>AT_REMOVEDIR\<close> a directory without entries, and does nothing else.
\<close>

type_synonym fs_tree = "string list \<rightharpoonup> bool"

definition unlink_node :: "string list \<Rightarrow> bool \<Rightarrow> fs_tree \<Rightarrow> fs_tree" where
  "unlink_node p d t = (if t p = Some d \<and> (\<forall>q. strict_prefix p q \<longrightarrow> t q = None) then t(p := None) else t)"

definition unlinks_empty :: "abi \<Rightarrow> fs_tree kernel \<Rightarrow> usize \<Rightarrow> bool" where
  "unlinks_empty a k rfd \<longleftrightarrow> (\<forall>p fl t. names_ok p \<longrightarrow> p \<noteq> [] \<longrightarrow>
     snd (k_unlinkat k rfd (join_char slash p) fl t) = unlink_node p (fl = AT_REMOVEDIR a) t)"

definition unlink_args :: "abi \<Rightarrow> string list \<times> bool \<Rightarrow> string \<times> usize" where
  "unlink_args a x = (join_char slash (fst x), if snd x then AT_REMOVEDIR a else 0)"

lemma unlink_children_first:
  assumes "unlinks_empty a k rfd" "AT_REMOVEDIR a \<noteq> 0"
    and "sorted_wrt (\<lambda>x y. \<not> prefix (fst x) (fst y)) L" "\<forall>x\<in>set L. names_ok (fst x) \<and> fst x \<noteq> [] \<and> t (fst x) = Some (snd x)"
    and "\<forall>x\<in>set L. \<forall>q. prefix (fst x) q \<longrightarrow> t q \<noteq> None \<longrightarrow> q \<in> fst ` set L"
  shows "unlink_each k rfd (map (unlink_args a) L) t = t |` (- fst ` set L)"
  using assms(3-5)
proof (induction L arbitrary: t)
  case Nil
  then show ?case by simp
next
  case (Cons x L)
  obtain p d where x: "x = (p, d)" by (cases x)
  have np: "\<not> prefix p q" if "q \<in> fst ` set L" for q using Cons.prems(1) that x by auto
  have "t q = None" if "strict_prefix p q" for q
    using Cons.prems(3) np[of q] that x unfolding strict_prefix_def by fastforce
  then have "unlink_node p d t = t(p := None)"
    using Cons.prems(2) x by (auto simp: unlink_node_def)
  then have step: "snd (k_unlinkat k rfd (fst (unlink_args a x)) (snd (unlink_args a x)) t) = t(p := None)"
    using assms(1,2) Cons.prems(2) x by (auto simp: unlinks_empty_def unlink_args_def)
  have notin: "p \<notin> fst ` set L" using np by blast
  have "unlink_each k rfd (map (unlink_args a) L) (t(p := None)) = (t(p := None)) |` (- fst ` set L)"
  proof (rule Cons.IH)
    show "sorted_wrt (\<lambda>x y. \<not> prefix (fst x) (fst y)) L" using Cons.prems(1) by simp
    show "\<forall>x\<in>set L. names_ok (fst x) \<and> fst x \<noteq> [] \<and> (t(p := None)) (fst x) = Some (snd x)"
      using Cons.prems(2) notin by force
    show "\<forall>x\<in>set L. \<forall>q. prefix (fst x) q \<longrightarrow> (t(p := None)) q \<noteq> None \<longrightarrow> q \<in> fst ` set L"
      using Cons.prems(3) x by (fastforce split: if_splits)
  qed
  moreover have "(t(p := None)) |` (- fst ` set L) = t |` (- fst ` set (x # L))"
    using x by (auto simp: restrict_map_def fun_eq_iff)
  ultimately show ?case using step by (cases "unlink_args a x") simp
qed

text \<open>A walk in pre-order never meets a path below which it has been.\<close>

lemma paths_below:
  "x \<in> set (tree_paths node ns) \<Longrightarrow> prefix ns (fst x)"
  "x \<in> set (entries_paths es ns) \<Longrightarrow> \<exists>n\<in>fst ` set es. prefix (ns @ [n]) (fst x)"
  by (induction node ns and es ns rule: tree_paths_entries_paths.induct)
    (auto split: if_splits intro: append_prefixD)

lemma tree_preorder:
  "distinct_tree node \<Longrightarrow> sorted_wrt (\<lambda>x y. \<not> prefix (fst y) (fst x)) (tree_paths node ns)"
  "distinct_entries es \<Longrightarrow> distinct (map fst es) \<Longrightarrow>
     sorted_wrt (\<lambda>x y. \<not> prefix (fst y) (fst x)) (entries_paths es ns)"
proof (induction node ns and es ns rule: tree_paths_entries_paths.induct)
  case (3 entries err ns)
  have "\<not> prefix (fst y) ns" if "y \<in> set (entries_paths entries ns)" for y
    using paths_below(2)[OF that] by (auto dest!: prefix_length_le)
  with 3 show ?case by auto
next
  case (5 name node entries ns)
  have "\<not> prefix (fst y) (fst x)"
    if x: "x \<in> set (tree_paths node (ns @ [name]))" and y: "y \<in> set (entries_paths entries ns)" for x y
  proof
    assume yx: "prefix (fst y) (fst x)"
    obtain n where n: "n \<in> fst ` set entries" "prefix (ns @ [n]) (fst y)" using paths_below(2)[OF y] by blast
    have "prefix (ns @ [n]) (fst x)" using n(2) yx by (rule prefix_order.trans)
    with paths_below(1)[OF x] have "n = name" by (auto simp: prefix_def)
    with n(1) 5(4) show False by auto
  qed
  with 5 show ?case by (auto simp: sorted_wrt_append)
qed auto

definition removal_list :: "string list \<Rightarrow> nar_node \<Rightarrow> (string list \<times> bool) list" where
  "removal_list at node = map (\<lambda>x. (at @ fst x, snd x = ''dir'')) (rev (tree_paths node [])) @ [(at, True)]"

lemma removal_list_order:
  assumes "distinct_tree (NarDirectory es err)"
  shows "sorted_wrt (\<lambda>x y. \<not> prefix (fst x) (fst y)) (removal_list at (NarDirectory es err))"
proof -
  have "sorted_wrt (\<lambda>x y. \<not> prefix (fst x) (fst y)) (rev (tree_paths (NarDirectory es err) []))"
    using tree_preorder(1)[OF assms, of "[]"] by (simp only: sorted_wrt_rev)
  then have "sorted_wrt (\<lambda>x y. \<not> prefix (fst x) (fst y))
      (map (\<lambda>x. (at @ fst x, snd x = ''dir'')) (rev (tree_paths (NarDirectory es err) [])))"
    by (simp add: sorted_wrt_map)
  moreover have "fst x \<noteq> []" if "x \<in> set (tree_paths (NarDirectory es err) [])" for x
    using paths_below(2)[of x es "[]"] that by auto
  ultimately show ?thesis by (auto simp: removal_list_def sorted_wrt_append prefix_def)
qed

lemma removal_path:
  assumes "names_ok at" "at \<noteq> []" "names_ok ns" "ns \<noteq> []"
  shows "trim_start_matches slash (path_join (slash # join_char slash at) (join_char slash ns)) = join_char slash (at @ ns)"
    and "trim_start_matches slash (slash # join_char slash at) = join_char slash at"
proof -
  have v: "\<forall>w\<in>set at. valid_name w" "\<forall>w\<in>set ns. valid_name w" using assms by (simp_all add: names_ok_def)
  have h: "hd (join_char slash ms) \<noteq> slash \<and> join_char slash ms \<noteq> []" if "names_ok ms" "ms \<noteq> []" for ms
  proof -
    have "valid_name (hd ms)" using that by (cases ms) simp_all
    then have "hd ms \<noteq> []" "slash \<notin> set (hd ms)" by (simp_all add: valid_name_def)
    then show ?thesis using join_char_hd[OF that(2)] join_char_ne[OF that(2)] by (metis list.set_sel(1))
  qed
  have t: "trim_start_matches slash (slash # s) = trim_start_matches slash s" for s
    by (simp add: trim_start_matches_def)
  show "trim_start_matches slash (slash # join_char slash at) = join_char slash at"
    using h[OF assms(1,2)] by (simp add: t trim_start_id)
  have "path_join (slash # join_char slash at) (join_char slash ns) = slash # join_char slash (at @ ns)"
    using h[OF assms(3,4)] h[OF assms(1,2)] join_char_last(2)[OF assms(2) v(1)] assms(2,4)
    by (auto simp: path_join_def join_append)
  then show "trim_start_matches slash (path_join (slash # join_char slash at) (join_char slash ns)) = join_char slash (at @ ns)"
    using h[of "at @ ns"] assms by (simp add: t trim_start_id)
qed

lemma removals_of_tree:
  assumes "map kind_at man = map entry_at (tree_paths (NarDirectory es err) [])" "readable_tree (NarDirectory es err)"
    and "names_ok at" "at \<noteq> []"
  shows "removals a (slash # join_char slash at) man = map (unlink_args a) (removal_list at (NarDirectory es err))"
proof -
  let ?T = "tree_paths (NarDirectory es err) []"
  let ?f = "\<lambda>k. (trim_start_matches slash (path_join (slash # join_char slash at) (fst k)),
      if snd k = ''dir'' then AT_REMOVEDIR a else 0)"
  have "map (\<lambda>e. (trim_start_matches slash (path_join (slash # join_char slash at) (me_path e)), removal_flags a e)) man
      = map ?f (map kind_at man)"
    by (simp add: kind_at_def removal_flags_def)
  also have "\<dots> = map (\<lambda>x. unlink_args a (at @ fst x, snd x = ''dir'')) ?T"
  proof -
    have "?f (entry_at x) = unlink_args a (at @ fst x, snd x = ''dir'')" if "x \<in> set ?T" for x
    proof -
      have "names_ok (fst x)" "fst x \<noteq> []"
        using tree_names_ok(1)[OF assms(2) _ that] paths_below(2)[of x es "[]"] that by auto
      then show ?thesis using removal_path(1)[OF assms(3,4)] by (simp add: entry_at_def unlink_args_def)
    qed
    then show ?thesis unfolding assms(1) map_map by (intro map_cong) (auto simp del: tree_paths.simps)
  qed
  finally show ?thesis
    using removal_path(2)[OF assms(3,4) assms(3,4)]
    by (simp add: removals_def removal_list_def unlink_args_def o_def del: tree_paths.simps flip: rev_map)
qed

section \<open>Properties\<close>

text \<open>
  C10: nothing unverified is reported as extracted. When a call succeeds, either the store path was
  there already or another extraction of it was running (no manifest is returned), or this call
  extracted a stream completely, the digest of that stream is the expected one, and the manifest
  returned is the manifest of that extraction. In every case, success or error, the set of
  running extractions is as before the call.
\<close>

theorem ensure_extracted_verified:
  assumes "ensure_extracted env name dir cache expected root (w, ex) = (r, (w', ex'))"
  shows "ex' = ex \<and> (\<forall>outcome. r = Inr outcome \<longrightarrow>
    (outcome = default_outcome \<and>
       (name \<in> set ex \<or> fst (path_exists env (path_join dir name) root w) = Inr True))
    \<or> (extracted_now outcome \<and> (\<exists>manifest. eo_manifest outcome = Some manifest
        \<and> extracted_from env root (dir @ ''/'' @ name) (normalize_hash expected) manifest)))"
  using assms
proof (cases rule: ensure_extracted_cases)
  case (extracted w1 result)
  then show ?thesis
    by (cases result) (auto dest: do_extraction_verified)
qed auto

text \<open>A host whose state is the list of paths that exist; the cache holds one archive.\<close>

definition idle_kernel :: "'w kernel" where
  "idle_kernel =
     \<lparr>k_openat = (\<lambda>_ _ _. fail ENOENT), k_dup = (\<lambda>_. fail ENOENT), k_close = (\<lambda>_. ret ()),
      k_fstat = (\<lambda>_. fail EBADF), k_fpath = (\<lambda>_. fail EBADF), k_fchmod = (\<lambda>_ _. fail EBADF),
      k_unlinkat = (\<lambda>_ _ _. fail ENOENT), k_frename = (\<lambda>_ _. fail EBADF), k_flink = (\<lambda>_ _. fail EBADF),
      k_fmap = (\<lambda>_ _ _ _. fail EBADF), k_funmap = (\<lambda>_ _. fail EINVAL), k_anon_map = (\<lambda>_. fail ENOMEM),
      k_anon_unmap = (\<lambda>_ _. fail EINVAL), k_fill = (\<lambda>_ _ _ _. fail EBADF), k_getdents = (\<lambda>_ _ _. fail EBADF),
      dirent_iter = (\<lambda>_. []), dirent_kind_of = (\<lambda>_. None), f_seek_start = (\<lambda>_ _. fail EBADF),
      f_seek_end = (\<lambda>_. fail EBADF), f_read = (\<lambda>_ _. fail EBADF), f_write = (\<lambda>_ _. fail EBADF),
      f_set_len = (\<lambda>_ _. fail EBADF)\<rparr>"

definition add_path :: "path_buf \<Rightarrow> (path_buf list, io_kind, unit) eio" where
  "add_path p = (\<lambda>w. (Inr (), p # w))"

definition host_fs :: "path_buf list std_fs" where
  "host_fs = \<lparr>fs_create_dir_all = add_path, fs_create = (\<lambda>p w. (Inr 5, p # w)),
     fs_copy = (\<lambda>data fd. ret (of_nat (length (fst data)))), fs_write_all = (\<lambda>_ _. ret ()),
     fs_set_permissions = (\<lambda>_ _. ret ()), fs_symlink = (\<lambda>_ p. add_path p), fs_drop = (\<lambda>_ w. w)\<rparr>"

definition host_env :: "nar_node \<Rightarrow> string \<Rightarrow> path_buf list lazy_env" where
  "host_env node digest =
     \<lparr>le_kernel = idle_kernel, le_fs = host_fs, le_abi = sample_abi, O_STAT = 0x20000000,
      le_exists = (\<lambda>p w. p \<in> set w), le_remove_dir_all = (\<lambda>p w. (Inr (), filter (\<lambda>q. \<not> prefix p q) w)),
      le_open = (\<lambda>p. ret 4), le_read_to_string = (\<lambda>fd. ret ''URL: nar/x.nar''),
      le_cache_key = (\<lambda>_. Some ''x''), le_narinfo_url = (\<lambda>_. Some ''nar/x.nar''),
      le_stream = (\<lambda>_ _. ret (Inr node, digest)), le_sleep = (\<lambda>w. w)\<rparr>"

lemmas host_defs = host_env_def host_fs_def add_path_def idle_kernel_def

lemma host_extracts:
  "ensure_extracted (host_env sample_tree ''ab'') ''p'' ''/s'' ''/c'' ''sha256:ab'' None ([], []) =
     (Inr \<lparr>extracted_now = True, eo_manifest = Some
       [\<lparr>me_path = ''bin'', me_type = ''dir'', me_size = 0, me_executable = False\<rparr>,
        \<lparr>me_path = ''bin/rg'', me_type = ''file'', me_size = 3, me_executable = True\<rparr>,
        \<lparr>me_path = ''link'', me_type = ''symlink'', me_size = 0, me_executable = False\<rparr>]\<rparr>,
      ([''/s/p/link'', ''/s/p/bin/rg'', ''/s/p/bin'', ''/s/p'', ''/s''], []))"
  by code_simp

theorem ensure_extracted_verified_witness:
  "\<exists>manifest. extracted_from (host_env sample_tree ''ab'') None ''/s/p'' ''ab'' manifest \<and> length manifest = 3"
  using ensure_extracted_verified[OF host_extracts]
  by (auto simp: default_outcome_def normalize_hash_def strip_prefix_def)

text \<open>
  A rejected tree is removed completely. If the digest of a readable archive of a directory does not
  match, cleaning up through the root descriptor unlinks every entry the manifest lists, children
  before the directory that holds them, with the flag its type needs, and at last the store
  path itself; from a tree that contains the extracted archive it leaves exactly the rest.
\<close>

theorem cleanup_removes_tree:
  assumes "unlinks_empty a k rfd" "AT_REMOVEDIR a \<noteq> 0" "le_kernel env = k" "le_abi env = a"
    and "sink_accepts sink" "readable_tree (NarDirectory es err)" "distinct_tree (NarDirectory es err)"
    and "extract_with_manifest sink (Inr (NarDirectory es err)) dest s = (Inr man, s')"
    and "names_ok at" "at \<noteq> []"
    and "\<forall>x\<in>set (tree_paths (NarDirectory es err) []). t (at @ fst x) = Some (snd x = ''dir'')" "t at = Some True"
    and "\<forall>q. prefix at q \<longrightarrow> t q \<noteq> None \<longrightarrow> q = at \<or> q \<in> (\<lambda>x. at @ fst x) ` set (tree_paths (NarDirectory es err) [])"
  shows "cleanup_failed_extraction env (slash # join_char slash at) man (Some rfd) t = t |` {q. \<not> prefix at q}"
proof -
  let ?node = "NarDirectory es err" and ?L = "removal_list at (NarDirectory es err)"
  have man: "map kind_at man = map entry_at (tree_paths ?node [])"
    using extract_tree(1)[OF assms(5,6), of "[]" dest s "[]"] assms(8)
    by (auto simp: extract_with_manifest_def simp del: tree_paths.simps)
  have L: "set ?L = insert (at, True) ((\<lambda>y. (at @ fst y, snd y = ''dir'')) ` set (tree_paths ?node []))"
    by (simp add: removal_list_def del: tree_paths.simps)
  have fstL: "fst ` set ?L = insert at ((\<lambda>x. at @ fst x) ` set (tree_paths ?node []))"
    by (simp add: removal_list_def image_image del: tree_paths.simps)
  have nodes: "\<forall>x\<in>set ?L. names_ok (fst x) \<and> fst x \<noteq> [] \<and> t (fst x) = Some (snd x)"
    using assms(9,10,11,12) tree_names_ok(1)[OF assms(6), of "[]"] unfolding L by (auto simp del: tree_paths.simps)
  have "prefix at q" if "x \<in> set ?L" "prefix (fst x) q" for x q
    using that unfolding L by (auto simp del: tree_paths.simps intro: append_prefixD)
  then have closed: "\<forall>x\<in>set ?L. \<forall>q. prefix (fst x) q \<longrightarrow> t q \<noteq> None \<longrightarrow> q \<in> fst ` set ?L"
    using assms(13) unfolding fstL by blast
  have "unlink_each k rfd (map (unlink_args a) ?L) t = t |` (- fst ` set ?L)"
    by (rule unlink_children_first[OF assms(1,2) removal_list_order[OF assms(7)] nodes closed])
  also have "\<dots> = t |` {q. \<not> prefix at q}"
  proof
    fix q
    show "(t |` (- fst ` set ?L)) q = (t |` {q. \<not> prefix at q}) q"
      using assms(13) unfolding fstL by (cases "t q") (auto simp: restrict_map_def simp del: tree_paths.simps)
  qed
  finally show ?thesis
    using removals_of_tree[OF man assms(6,9,10)] assms(3,4)
    by (simp add: cleanup_failed_extraction_def remove_tree_via_manifest_def)
qed

definition tree_kernel :: "fs_tree kernel" where
  "tree_kernel = idle_kernel\<lparr>k_unlinkat := (\<lambda>_ s fl t. (Inr (), unlink_node (split_char slash s) (fl = 0x200) t))\<rparr>"

definition tree_env :: "fs_tree lazy_env" where
  "tree_env =
     \<lparr>le_kernel = tree_kernel, le_fs =
        \<lparr>fs_create_dir_all = (\<lambda>_. fail NotFound), fs_create = (\<lambda>_. fail NotFound), fs_copy = (\<lambda>_ _. fail NotFound),
         fs_write_all = (\<lambda>_ _. fail NotFound), fs_set_permissions = (\<lambda>_ _. fail NotFound),
         fs_symlink = (\<lambda>_ _. fail NotFound), fs_drop = (\<lambda>_ w. w)\<rparr>,
      le_abi = sample_abi, O_STAT = 0x20000000,
      le_exists = (\<lambda>p t. t (split_char slash p) \<noteq> None), le_remove_dir_all = (\<lambda>_. fail NotFound),
      le_open = (\<lambda>p. fail NotFound), le_read_to_string = (\<lambda>fd. fail NotFound),
      le_cache_key = (\<lambda>_. None), le_narinfo_url = (\<lambda>_. None),
      le_stream = (\<lambda>_ _. fail NotFound), le_sleep = (\<lambda>w. w)\<rparr>"

definition sample_fs :: fs_tree where
  "sample_fs = [[''p''] \<mapsto> True, [''p'', ''bin''] \<mapsto> True, [''p'', ''bin'', ''rg''] \<mapsto> False,
     [''p'', ''link''] \<mapsto> False, [''q''] \<mapsto> False]"

lemma tree_kernel_unlinks: "unlinks_empty sample_abi tree_kernel rfd"
  unfolding unlinks_empty_def
  by (auto simp: tree_kernel_def sample_abi_def split_join_char names_ok_no_slash)

theorem cleanup_removes_tree_witness:
  "\<exists>man. cleanup_failed_extraction tree_env ''/p'' man (Some 3) sample_fs = [[''q''] \<mapsto> False]"
proof -
  obtain man s' where x: "extract_with_manifest null_sink (Inr sample_tree) ''/p'' () = (Inr man, s')"
    by (simp add: sample_tree_def extract_with_manifest_def null_sink_def bindS_def on_sink_def push_entry_def
        ret_def byte_of_def child_rel_def)
  have "cleanup_failed_extraction tree_env (slash # join_char slash [''p'']) man (Some 3) sample_fs
      = sample_fs |` {q. \<not> prefix [''p''] q}"
    by (rule cleanup_removes_tree[OF tree_kernel_unlinks _ _ _ sample_tree_ok(2) sample_tree_ok(1)[unfolded sample_tree_def]
          _ x[unfolded sample_tree_def]])
      (auto simp: tree_env_def sample_abi_def sample_fs_def valid_name_def split: if_splits)
  moreover have "sample_fs |` {q. \<not> prefix [''p''] q} = [[''q''] \<mapsto> False]"
    by (auto simp: sample_fs_def restrict_map_def fun_eq_iff)
  ultimately show ?thesis by auto
qed

text \<open>
  A broken archive is served after all. If extraction fails part of the way (here the archive
  ends inside the top directory), the error is reported but what was written stays; the next request
  finds the directory and succeeds, although no digest was ever compared. Only a digest mismatch
  removes the tree.
\<close>

theorem partial_extraction_served:
  "\<exists>w. ensure_extracted (host_env (NarDirectory [(''a'', NarFile False ([1], None))] (Some InvalidData)) ''bad'')
         ''p'' ''/s'' ''/c'' ''sha256:ab'' None ([], []) = (Inl EIoError, (w, []))
     \<and> w = [''/s/p/a'', ''/s/p'', ''/s'']
     \<and> ensure_extracted (host_env (NarDirectory [(''a'', NarFile False ([1], None))] (Some InvalidData)) ''bad'')
         ''p'' ''/s'' ''/c'' ''sha256:ab'' None (w, []) = (Inr default_outcome, (w, []))"
  by (intro exI[of _ "[''/s/p/a'', ''/s/p'', ''/s'']"] conjI; code_simp)

end
