(* ===== verification/Store_Scheme.thy ===== *)
theory Store_Scheme
  imports Store_Lazy
begin

text \<open>
  The scheme front end of the store daemon (\<^verbatim>\<open>stored/scheme.rs\<close>): every request handler of
  \<^verbatim>\<open>StoreSchemeHandler\<close> over the daemon's state. A handler that does not return, because a path
  makes the parser panic or no handle number is free, is \<open>None\<close>. An opened handle is its number; all
  of them are positioned. The JSON decoders, the file reads and the extraction environment are
  parameters.
\<close>

record control_msg =
  cm_store_path :: "string option"
  cm_nar_hash :: "string option"
  cm_files :: "manifest_entry list option option"

text \<open>
  \<open>se_parse_control\<close> decodes a control command: \<open>None\<close> is a text that is not JSON; a \<^verbatim>\<open>files\<close> member
  that is not a list of entries is \<open>Some None\<close>.
\<close>

record 'w store_env =
  se_lazy :: "'w lazy_env"
  se_preload :: "path_buf \<Rightarrow> ('w, io_kind, bytes) eio"
  se_path_hash :: "string \<Rightarrow> string option"
  se_db_dir :: path_buf
  se_parse_info :: "bytes \<Rightarrow> path_info option"
  se_parse_control :: "bytes \<Rightarrow> control_msg option"

section \<open>Opening\<close>

definition opened :: "(usize \<times> 'w store_daemon) option \<Rightarrow> (usize res \<times> 'w store_daemon) option" where
  "opened r = map_option (\<lambda>(hid, d). (Inr hid, d)) r"

definition store_scheme_root :: "('w store_daemon, usize) pio" where
  "store_scheme_root d = opened (open_dir_unchecked (store_dir (sd_config d)) [] d)"

definition extract_for_open :: "'w store_env \<Rightarrow> string \<Rightarrow> string \<Rightarrow> ('w store_daemon, unit) io" where
  "extract_for_open env name expected = (\<lambda>d.
     case ensure_extracted (se_lazy env) name (store_dir (sd_config d)) (cache_path (sd_config d)) expected
            (sd_root_fd d) (sd_world d, sd_extracting d) of
       (r, (w, ex)) \<Rightarrow>
         let d1 = d\<lparr>sd_world := w, sd_extracting := ex\<rparr> in
         (case r of
            Inr outcome \<Rightarrow>
              (Inr (), case eo_manifest outcome of Some m \<Rightarrow> insert_manifest name m d1 | None \<Rightarrow> d1)
          | Inl ENotRegistered \<Rightarrow> (Inl ENOENT, d1)
          | Inl _ \<Rightarrow> (Inl EIO, d1)))"

definition load_for_open :: "'w store_env \<Rightarrow> string \<Rightarrow> ('w store_daemon, unit) io" where
  "load_for_open env name = (\<lambda>d.
     (Inr (), if bt_get (manifests d) name = None
              then snd (load_manifest_via_worker (se_preload env) (se_path_hash env) (se_db_dir env)
                          (se_parse_info env) name d)
              else d))"

definition prepare_path :: "'w store_env \<Rightarrow> string \<Rightarrow> ('w store_daemon, unit) io" where
  "prepare_path env name = (\<lambda>d.
     if \<not> is_registered_path d name then (Inl ENOENT, d)
     else bindS (case expected_nar_hash d name of
                   Some expected \<Rightarrow> extract_for_open env name expected
                 | None \<Rightarrow> ret ())
            (\<lambda>_. load_for_open env name) d)"

fun missing_in_manifest :: "'w store_daemon \<Rightarrow> resolved_path \<Rightarrow> bool" where
  "missing_in_manifest d (SubPath name subpath) = (manifest_contains_path d name subpath = Some False)"
| "missing_in_manifest d _ = False"

fun open_as_dir :: "'w store_daemon \<Rightarrow> usize \<Rightarrow> resolved_path \<Rightarrow> bool" where
  "open_as_dir d flags (StorePathRoot name) = True"
| "open_as_dir d flags (SubPath name subpath) =
     (if flags AND O_DIRECTORY \<noteq> 0 then True else is_directory_in_manifest d name subpath)"
| "open_as_dir d flags Root = (flags AND O_DIRECTORY \<noteq> 0)"

fun lazy_metadata :: "'w store_daemon \<Rightarrow> resolved_path \<Rightarrow> u64 \<times> bool" where
  "lazy_metadata d (SubPath name subpath) = file_metadata_from_manifest d name subpath"
| "lazy_metadata d _ = (0, False)"

definition open_resolved :: "string \<Rightarrow> usize \<Rightarrow> resolved_path \<Rightarrow> ('w store_daemon, usize) pio" where
  "open_resolved path flags resolved d =
     (if missing_in_manifest d resolved then Some (Inl ENOENT, d)
      else (case to_filesystem_path resolved (store_dir (sd_config d)) of
        None \<Rightarrow> Some (Inl ENOENT, d)
      | Some fs_path \<Rightarrow>
          if open_as_dir d flags resolved then opened (open_dir_unchecked fs_path path d)
          else case lazy_metadata d resolved of (sz, exec) \<Rightarrow> opened (open_file_lazy fs_path path sz exec d)))"

definition open_registered ::
  "'w store_env \<Rightarrow> string \<Rightarrow> usize \<Rightarrow> resolved_path \<Rightarrow> string \<Rightarrow> ('w store_daemon, usize) pio" where
  "open_registered env path flags resolved name d =
     (case prepare_path env name d of
        (Inl e, d1) \<Rightarrow> Some (Inl e, d1)
      | (Inr _, d1) \<Rightarrow> open_resolved path flags resolved d1)"

definition store_openat :: "'w store_env \<Rightarrow> string \<Rightarrow> usize \<Rightarrow> ('w store_daemon, usize) pio" where
  "store_openat env path0 flags d =
     (let path = trim_matches slash path0 in
      if path = ''.control'' then opened (open_control ''.control'' d)
      else (case parse_scheme_path path of
        None \<Rightarrow> None
      | Some (Inl _) \<Rightarrow> Some (Inl ENOENT, d)
      | Some (Inr Root) \<Rightarrow> opened (open_dir_unchecked (store_dir (sd_config d)) [] d)
      | Some (Inr (StorePathRoot name)) \<Rightarrow> open_registered env path flags (StorePathRoot name) name d
      | Some (Inr (SubPath name sub)) \<Rightarrow> open_registered env path flags (SubPath name sub) name d))"

section \<open>Reading, writing and metadata\<close>

definition store_read :: "'w store_env \<Rightarrow> usize \<Rightarrow> usize \<Rightarrow> u64 \<Rightarrow> ('w store_daemon, bytes) io" where
  "store_read env hid buf_len offset = map_err (\<lambda>_. EBADF) (table_read (se_preload env) hid buf_len offset)"

definition store_write :: "usize \<Rightarrow> bytes \<Rightarrow> ('w store_daemon, usize) io" where
  "store_write hid buf = map_err (\<lambda>_. EACCES) (table_write hid buf)"

definition store_fsize :: "usize \<Rightarrow> ('w store_daemon, u64) io" where
  "store_fsize hid = (\<lambda>d. (case file_size d hid of Inl _ \<Rightarrow> Inl EBADF | Inr n \<Rightarrow> Inr n, d))"

definition store_fpath :: "usize \<Rightarrow> usize \<Rightarrow> ('w store_daemon, string) io" where
  "store_fpath hid buf_len = (\<lambda>d.
     case scheme_path d hid of
       None \<Rightarrow> (Inl EBADF, d)
     | Some p \<Rightarrow>
         let full = (if p = [] then ''/scheme/store'' else ''/scheme/store/'' @ p)
         in (Inr (take (min (length full) (unat buf_len)) full), d))"

definition store_fevent :: "usize \<Rightarrow> ('w store_daemon, event_flags) io" where
  "store_fevent hid = (\<lambda>d.
     case sd_handles d hid of
       Some (SFile _) \<Rightarrow> (Inr \<lparr>EVENT_READ = True, EVENT_WRITE = False\<rparr>, d)
     | Some (SDir _) \<Rightarrow> (Inr \<lparr>EVENT_READ = True, EVENT_WRITE = False\<rparr>, d)
     | Some (SControl _) \<Rightarrow> (Inr \<lparr>EVENT_READ = False, EVENT_WRITE = True\<rparr>, d)
     | None \<Rightarrow> (Inl EBADF, d))"

text \<open>The modes are \<^verbatim>\<open>0o040555\<close>, \<^verbatim>\<open>0o100555\<close>, \<^verbatim>\<open>0o100444\<close> and \<^verbatim>\<open>0o100222\<close>.\<close>

definition store_fstat :: "usize \<Rightarrow> stat \<Rightarrow> ('w store_daemon, stat) io" where
  "store_fstat hid st = (\<lambda>d.
     case sd_handles d hid of
       Some (SDir _) \<Rightarrow> (Inr (st\<lparr>st_mode := 0x416D, st_size := 0, st_nlink := 2\<rparr>), d)
     | Some (SFile fh) \<Rightarrow>
         (Inr (st\<lparr>st_size := sf_size fh, st_mode := (if sf_executable fh then 0x816D else 0x8124), st_nlink := 1\<rparr>), d)
     | Some (SControl _) \<Rightarrow> (Inr (st\<lparr>st_mode := 0x8092, st_size := 0, st_nlink := 1\<rparr>), d)
     | None \<Rightarrow> (Inl EBADF, d))"

definition entry_kind :: "manifest_dir_entry \<Rightarrow> string \<times> dirent_kind" where
  "entry_kind e = (md_name e, if md_is_dir e then Directory else if md_is_symlink e then Symlink else Regular)"

definition list_dir :: "'w store_daemon \<Rightarrow> string \<Rightarrow> string \<Rightarrow> (string \<times> dirent_kind) list res" where
  "list_dir d name subpath =
     (case list_from_manifest d name subpath of
        Some entries \<Rightarrow> Inr (map entry_kind entries)
      | None \<Rightarrow> Inl ENOENT)"

definition store_getdents ::
  "('b \<Rightarrow> dirent \<Rightarrow> 'b option) \<Rightarrow> usize \<Rightarrow> 'b \<Rightarrow> u64 \<Rightarrow> ('w store_daemon, 'b) pio" where
  "store_getdents push hid buf opaque_offset d =
     (case is_dir d hid of
        None \<Rightarrow> Some (Inl EBADF, d)
      | Some False \<Rightarrow> Some (Inl ENOTDIR, d)
      | Some True \<Rightarrow>
          let path = (case scheme_path d hid of Some p \<Rightarrow> p | None \<Rightarrow> []);
              serve = (\<lambda>r. (case r of Inl e \<Rightarrow> Inl e | Inr es \<Rightarrow> Inr (list_entries push buf opaque_offset es), d)) in
          if path = [] then Some (serve (Inr (map (\<lambda>n. (n, Directory)) (list_registered_path_names d))))
          else (case parse_scheme_path path of
            None \<Rightarrow> None
          | Some (Inl _) \<Rightarrow> Some (Inl ENOENT, d)
          | Some (Inr Root) \<Rightarrow> Some (Inr buf, d)
          | Some (Inr (StorePathRoot name)) \<Rightarrow> Some (serve (list_dir d name []))
          | Some (Inr (SubPath name sub)) \<Rightarrow> Some (serve (list_dir d name sub))))"

section \<open>Control commands\<close>

definition control_name :: "control_msg \<Rightarrow> 'w store_daemon \<Rightarrow> string" where
  "control_name m d =
     (let store_path = (case cm_store_path m of Some s \<Rightarrow> s | None \<Rightarrow> [])
      in (case strip_prefix store_path (store_dir (sd_config d) @ ''/'') of Some r \<Rightarrow> r | None \<Rightarrow> store_path))"

definition register_control :: "control_msg \<Rightarrow> 'w store_daemon \<Rightarrow> 'w store_daemon" where
  "register_control m d =
     (case cm_nar_hash m of
        Some h \<Rightarrow> remember_nar_hash (control_name m d) h d
      | None \<Rightarrow> remember_store_path (control_name m d) d)"

definition apply_control :: "control_msg \<Rightarrow> 'w store_daemon \<Rightarrow> 'w store_daemon" where
  "apply_control m d =
     (case cm_files m of
        Some (Some files) \<Rightarrow>
          if files \<noteq> [] then insert_manifest (control_name m d) files (register_control m d)
          else register_control m d
      | _ \<Rightarrow> register_control m d)"

definition store_on_close :: "'w store_env \<Rightarrow> usize \<Rightarrow> 'w store_daemon \<Rightarrow> 'w store_daemon" where
  "store_on_close env hid d =
     (case close hid d of
        (Some (SControl ch), d1) \<Rightarrow>
          if sc_buffer ch \<noteq> []
          then (case se_parse_control env (sc_buffer ch) of Some m \<Rightarrow> apply_control m d1 | None \<Rightarrow> d1)
          else d1
      | (_, d1) \<Rightarrow> d1)"

section \<open>Sessions\<close>

text \<open>The requests of the event loop that reach a handler; every other request is skipped there.\<close>

datatype store_call =
    CRoot
  | COpen string usize
  | CRead usize usize u64
  | CWrite usize bytes
  | CSize usize
  | CPath usize usize
  | CEvent usize
  | CStat usize stat
  | CDents usize u64
  | CClose usize

definition after :: "('a res \<times> 'w store_daemon) option \<Rightarrow> 'w store_daemon option" where
  "after r = map_option snd r"

text \<open>The state after a request, for a directory buffer of any kind.\<close>

fun store_call_step ::
  "'w store_env \<Rightarrow> ('b \<Rightarrow> dirent \<Rightarrow> 'b option) \<Rightarrow> 'b \<Rightarrow> store_call \<Rightarrow> 'w store_daemon \<Rightarrow> 'w store_daemon option" where
  "store_call_step env push buf CRoot d = after (store_scheme_root d)"
| "store_call_step env push buf (COpen path flags) d = after (store_openat env path flags d)"
| "store_call_step env push buf (CRead hid n off) d = Some (snd (store_read env hid n off d))"
| "store_call_step env push buf (CWrite hid bs) d = Some (snd (store_write hid bs d))"
| "store_call_step env push buf (CSize hid) d = Some (snd (store_fsize hid d))"
| "store_call_step env push buf (CPath hid n) d = Some (snd (store_fpath hid n d))"
| "store_call_step env push buf (CEvent hid) d = Some (snd (store_fevent hid d))"
| "store_call_step env push buf (CStat hid st) d = Some (snd (store_fstat hid st d))"
| "store_call_step env push buf (CDents hid off) d = after (store_getdents push hid buf off d)"
| "store_call_step env push buf (CClose hid) d = Some (store_on_close env hid d)"

fun store_session ::
  "'w store_env \<Rightarrow> ('b \<Rightarrow> dirent \<Rightarrow> 'b option) \<Rightarrow> 'b \<Rightarrow> store_call list \<Rightarrow> 'w store_daemon \<Rightarrow> 'w store_daemon option" where
  "store_session env push buf [] d = Some d"
| "store_session env push buf (c # cs) d =
     (case store_call_step env push buf c d of None \<Rightarrow> None | Some d' \<Rightarrow> store_session env push buf cs d')"

text \<open>Start-up: the tables are filled, then the descriptor of the file system's root is recorded.\<close>

definition start_daemon ::
  "string list option \<Rightarrow> (string \<Rightarrow> path_info option) \<Rightarrow> stored_config \<Rightarrow> usize \<Rightarrow> 'w \<Rightarrow> 'w store_daemon" where
  "start_daemon db_list db_get config rfd w = (new_daemon db_list db_get config w)\<lparr>sd_root_fd := Some rfd\<rparr>"

section \<open>The invariant of a session\<close>

text \<open>
  Every open file or directory is the daemon's root or was resolved from its scheme path, and
  belongs to a registered store path.
\<close>

definition resolved_to :: "'w store_daemon \<Rightarrow> string \<Rightarrow> path_buf \<Rightarrow> bool" where
  "resolved_to d p q \<longleftrightarrow> (\<exists>r name. parse_scheme_path p = Some (Inr r) \<and> resolved_name r = Some name
     \<and> is_registered_path d name \<and> to_filesystem_path r (store_dir (sd_config d)) = Some q)"

fun store_handle_ok :: "'w store_daemon \<Rightarrow> store_handle \<Rightarrow> bool" where
  "store_handle_ok d (SControl ch) = True"
| "store_handle_ok d (SDir dh) = (sd_scheme_path dh = [] \<and> sd_real_path dh = store_dir (sd_config d)
     \<or> resolved_to d (sd_scheme_path dh) (sd_real_path dh))"
| "store_handle_ok d (SFile fh) = resolved_to d (sf_scheme_path fh) (sf_real_path fh)"

definition store_inv :: "'w store_daemon \<Rightarrow> bool" where
  "store_inv d \<longleftrightarrow> daemon_inv d \<and> (\<forall>hid h. sd_handles d hid = Some h \<longrightarrow> store_handle_ok d h)"

text \<open>What the operations on the tables keep: configuration, handles, registered paths.\<close>

definition grows :: "'w store_daemon \<Rightarrow> 'w store_daemon \<Rightarrow> bool" where
  "grows d d' \<longleftrightarrow> sd_config d' = sd_config d \<and> sd_handles d' = sd_handles d
     \<and> (\<forall>n. is_registered_path d n \<longrightarrow> is_registered_path d' n)"

named_theorems grows_rules \<open>operations that only add to the tables\<close>

lemma grows_refl [grows_rules]: "grows d d"
  by (simp add: grows_def)

lemma grows_trans: "grows d d' \<Longrightarrow> grows d' d'' \<Longrightarrow> grows d d''"
  by (simp add: grows_def)

lemma registered_iff: "is_registered_path d n \<longleftrightarrow> bt_get (registered_paths d) n = Some ()"
  by (cases "bt_get (registered_paths d) n") (simp_all add: is_registered_path_def)

lemma grows_remember: "daemon_inv d \<Longrightarrow> grows d (remember_store_path n d)"
  by (simp add: grows_def remember_store_path_def is_registered_path_def daemon_inv_def bt_simps)

lemma grows_insert_manifest [grows_rules]: "grows d (insert_manifest n m d)"
  by (simp add: grows_def insert_manifest_def is_registered_path_def)

lemma grows_load_via_worker:
  "daemon_inv d \<Longrightarrow> grows d (snd (load_manifest_via_worker preload path_hash db_dir parse_info n d))"
  using grows_remember[of d n]
  by (auto simp: load_manifest_via_worker_def Let_def grows_def insert_manifest_def is_registered_path_def
      split: option.split prod.split sum.split)

lemma store_handle_ok_mono: "grows d d' \<Longrightarrow> store_handle_ok d h \<Longrightarrow> store_handle_ok d' h"
  by (cases h) (auto simp: grows_def resolved_to_def)

lemma store_inv_grows: "store_inv d \<Longrightarrow> grows d d' \<Longrightarrow> daemon_inv d' \<Longrightarrow> store_inv d'"
  unfolding store_inv_def by (auto simp: grows_def intro: store_handle_ok_mono)

lemma store_inv_put:
  assumes "store_inv d" "store_open x d = Some (hid, d')" "store_handle_ok d x"
  shows "store_inv d'"
proof -
  obtain d1 where a: "store_alloc_id d = Some (hid, d1)" and d': "d' = store_put hid x d1"
    using assms(2) by (auto simp: store_open_def)
  obtain n where d1: "d1 = d\<lparr>sd_next_id := n\<rparr>" using a by (auto simp: store_alloc_id_def)
  have "store_handle_ok d' h = store_handle_ok d h" for h
    by (cases h) (simp_all add: d' d1 store_put_def resolved_to_def is_registered_path_def)
  then show ?thesis
    using assms(1,3) d' d1 by (auto simp: store_inv_def store_put_def split: if_splits)
qed

lemma opened_inv:
  "store_inv d \<Longrightarrow> store_handle_ok d x \<Longrightarrow> opened (store_open x d) = Some (r, d') \<Longrightarrow> store_inv d'"
  by (auto simp: opened_def intro: store_inv_put)

lemma extract_for_open_inv:
  assumes "store_inv d" "is_registered_path d name"
  shows "store_inv (snd (extract_for_open env name expected d))" "grows d (snd (extract_for_open env name expected d))"
proof -
  let ?d' = "snd (extract_for_open env name expected d)"
  obtain r w ex where r: "ensure_extracted (se_lazy env) name (store_dir (sd_config d)) (cache_path (sd_config d))
      expected (sd_root_fd d) (sd_world d, sd_extracting d) = (r, (w, ex))" by (metis surj_pair)
  have "?d' = d\<lparr>sd_world := w, sd_extracting := ex\<rparr>
      \<or> (\<exists>m. ?d' = insert_manifest name m (d\<lparr>sd_world := w, sd_extracting := ex\<rparr>))"
    by (auto simp: extract_for_open_def r Let_def split: sum.split option.split extract_error.split)
  moreover have "daemon_inv d" "bt_get (registered_paths d) name = Some ()"
    using assms by (simp_all add: store_inv_def registered_iff)
  then have "daemon_inv (insert_manifest name m (d\<lparr>sd_world := w, sd_extracting := ex\<rparr>))" for m
    by (intro inv_insert_manifest) simp_all
  moreover have "grows d (d\<lparr>sd_world := w, sd_extracting := ex\<rparr>)"
    by (simp add: grows_def is_registered_path_def)
  then have "grows d (insert_manifest name m (d\<lparr>sd_world := w, sd_extracting := ex\<rparr>))" for m
    using grows_insert_manifest by (rule grows_trans)
  ultimately have "daemon_inv ?d' \<and> grows d ?d'"
    using \<open>daemon_inv d\<close> \<open>grows d (d\<lparr>sd_world := w, sd_extracting := ex\<rparr>)\<close> by (elim disjE exE) simp_all
  then show "store_inv ?d'" "grows d ?d'" using assms(1) store_inv_grows by blast+
qed

lemma prepare_path_inv:
  assumes "store_inv d" "prepare_path env name d = (r, d')"
  shows "store_inv d'" "r = Inr () \<Longrightarrow> is_registered_path d' name" "grows d d'"
proof -
  have load: "store_inv (snd (load_for_open env name e)) \<and> grows e (snd (load_for_open env name e))
      \<and> fst (load_for_open env name e) = Inr ()" if "store_inv e" for e
  proof -
    have inv: "daemon_inv e" using that by (simp add: store_inv_def)
    note ld = grows_load_via_worker[OF inv] inv_load_via_worker[OF inv]
    show ?thesis using that ld store_inv_grows[OF that ld] by (simp add: load_for_open_def grows_refl)
  qed
  have "store_inv d' \<and> grows d d' \<and> (r = Inr () \<longrightarrow> is_registered_path d' name)"
  proof (cases "is_registered_path d name")
    case False
    then show ?thesis using assms by (auto simp: prepare_path_def grows_refl)
  next
    case True
    let ?m = "case expected_nar_hash d name of Some expected \<Rightarrow> extract_for_open env name expected | None \<Rightarrow> ret ()"
    have m: "store_inv (snd (?m d))" "grows d (snd (?m d))"
      using extract_for_open_inv[OF assms(1) True] assms(1)
      by (auto simp: ret_def grows_refl split: option.split)
    have "d' = snd (?m d) \<or> d' = snd (load_for_open env name (snd (?m d)))"
      using assms(2) True by (auto simp: prepare_path_def bindS_def split: prod.splits sum.splits)
    then have "store_inv d' \<and> grows d d'" using m load grows_trans by blast
    then show ?thesis using True by (auto simp: grows_def)
  qed
  then show "store_inv d'" "r = Inr () \<Longrightarrow> is_registered_path d' name" "grows d d'" by blast+
qed

lemma open_resolved_inv:
  assumes "store_inv d" "open_resolved path flags res d = Some (r, d')"
    and "parse_scheme_path path = Some (Inr res)" "resolved_name res = Some name" "is_registered_path d name"
  shows "store_inv d'"
proof -
  have ok: "store_handle_ok d (SDir \<lparr>sd_real_path = q, sd_scheme_path = path, sd_entries = None\<rparr>)"
    "store_handle_ok d (SFile \<lparr>sf_content = None, sf_real_path = q, sf_scheme_path = path, sf_size = sz, sf_executable = ex\<rparr>)"
    if "to_filesystem_path res (store_dir (sd_config d)) = Some q" for q sz ex
    using that assms(3-5) by (auto simp: resolved_to_def)
  show ?thesis
    using assms(1,2) opened_inv[OF assms(1) ok(1)] opened_inv[OF assms(1) ok(2)]
    by (auto simp: open_resolved_def open_dir_unchecked_def open_file_lazy_def
        split: if_splits option.splits prod.splits)
qed

lemma parse_trim: "parse_scheme_path (trim_matches slash p) = parse_scheme_path p"
  by (simp add: parse_scheme_path_def)

lemma open_registered_inv:
  assumes "store_inv d" "open_registered env path flags res name d = Some (r, d')"
    and "parse_scheme_path path = Some (Inr res)" "resolved_name res = Some name"
  shows "store_inv d'"
proof (cases "prepare_path env name d")
  case (Pair a d1)
  show ?thesis
  proof (cases a)
    case (Inl e)
    then show ?thesis using assms(2) Pair prepare_path_inv(1)[OF assms(1) Pair] by (simp add: open_registered_def)
  next
    case (Inr u)
    then show ?thesis
      using assms(2) Pair prepare_path_inv[OF assms(1) Pair] open_resolved_inv[OF _ _ assms(3,4)]
      by (simp add: open_registered_def)
  qed
qed

lemma openat_inv:
  assumes "store_inv d" "store_openat env p flags d = Some (r, d')"
  shows "store_inv d'"
proof -
  let ?p = "trim_matches slash p"
  have dir: "store_handle_ok d (SDir \<lparr>sd_real_path = store_dir (sd_config d), sd_scheme_path = [], sd_entries = None\<rparr>)"
    and ctl: "store_handle_ok d (SControl ch)" for ch by simp_all
  show ?thesis
  proof (cases "?p = ''.control''")
    case True
    then show ?thesis using assms opened_inv[OF assms(1) ctl] by (auto simp: store_openat_def open_control_def)
  next
    case False
    then obtain x where x: "parse_scheme_path ?p = Some x" using assms(2) by (auto simp: store_openat_def Let_def split: option.splits)
    show ?thesis
    proof (cases x)
      case (Inl e)
      then show ?thesis using assms x False by (simp add: store_openat_def)
    next
      case (Inr res)
      then show ?thesis
        using assms x False opened_inv[OF assms(1) dir] open_registered_inv[OF assms(1)]
        by (cases res) (auto simp: store_openat_def open_dir_unchecked_def)
    qed
  qed
qed

lemma store_put_inv:
  assumes "store_inv d" "store_handle_ok d x"
  shows "store_inv (store_put hid x d)"
proof -
  have "store_handle_ok (store_put hid x d) h = store_handle_ok d h" for h
    by (cases h) (simp_all add: store_put_def resolved_to_def is_registered_path_def)
  then show ?thesis using assms by (auto simp: store_inv_def store_put_def split: if_splits)
qed

lemma world_inv: "store_inv d \<Longrightarrow> store_inv (d\<lparr>sd_world := w\<rparr>)"
  using store_inv_grows[of d "d\<lparr>sd_world := w\<rparr>"] by (auto simp: grows_def is_registered_path_def store_inv_def)

lemma store_handle_ok_world: "store_handle_ok (d\<lparr>sd_world := w\<rparr>) h = store_handle_ok d h"
  by (cases h) (simp_all add: resolved_to_def is_registered_path_def)

lemma read_inv: "store_inv d \<Longrightarrow> store_inv (snd (store_read env hid n off d))"
proof -
  assume inv: "store_inv d"
  have "store_handle_ok d (SFile fh) \<Longrightarrow> store_handle_ok d (SFile (fh\<lparr>sf_size := a, sf_content := b\<rparr>))" for fh a b by simp
  moreover have "sd_handles d hid = Some h \<Longrightarrow> store_handle_ok d h" for h using inv by (simp add: store_inv_def)
  ultimately show ?thesis
    using inv by (auto simp: store_read_def map_err_def table_read_def world_inv store_handle_ok_world
        simp del: store_handle_ok.simps
        intro!: store_put_inv split: option.split store_handle.split prod.split sum.split)
qed

lemma write_inv: "store_inv d \<Longrightarrow> store_inv (snd (store_write hid bs d))"
  by (auto simp: store_write_def map_err_def table_write_def intro!: store_put_inv
      split: option.split store_handle.split)

lemma apply_control_inv: "store_inv d \<Longrightarrow> store_inv (apply_control m d)"
proof -
  assume inv: "store_inv d"
  then have di: "daemon_inv d" by (simp add: store_inv_def)
  let ?d1 = "register_control m d" and ?name = "control_name m d"
  have "daemon_inv ?d1" "bt_get (registered_paths ?d1) ?name = Some ()"
    using di by (auto simp: register_control_def inv_remember inv_remember_hash registered_remember
        remember_nar_hash_def Let_def split: option.split intro!: inv_insert_hash)
  moreover have "grows d ?d1"
    using grows_remember[OF di, of ?name]
    by (auto simp: register_control_def grows_def remember_nar_hash_def Let_def is_registered_path_def split: option.split)
  ultimately have "daemon_inv (apply_control m d) \<and> grows d (apply_control m d)"
    using inv_insert_manifest grows_trans[OF _ grows_insert_manifest]
    by (auto simp: apply_control_def split: option.split)
  then show ?thesis using inv store_inv_grows by blast
qed

lemma close_inv: "store_inv d \<Longrightarrow> store_inv (snd (close hid d))"
proof -
  assume inv: "store_inv d"
  have "store_handle_ok (d\<lparr>sd_handles := hs\<rparr>) h = store_handle_ok d h" for h hs
    by (cases h) (simp_all add: resolved_to_def is_registered_path_def)
  with inv show ?thesis by (auto simp: close_def store_inv_def)
qed

lemma on_close_inv: "store_inv d \<Longrightarrow> store_inv (store_on_close env hid d)"
  using close_inv[of d hid] apply_control_inv
  by (auto simp: store_on_close_def split: prod.split option.split store_handle.split)

lemma store_getdents_state: "store_getdents push hid buf off d = Some (r, d') \<Longrightarrow> d' = d"
  by (auto simp: store_getdents_def Let_def split: option.splits bool.splits sum.splits resolved_path.splits if_splits)

lemma store_step_inv:
  assumes "store_inv d" "store_call_step env push buf c d = Some d'"
  shows "store_inv d'"
proof (cases c)
  case CRoot
  then show ?thesis
    using assms opened_inv[OF assms(1), of "SDir \<lparr>sd_real_path = store_dir (sd_config d), sd_scheme_path = [], sd_entries = None\<rparr>"]
    by (auto simp: after_def store_scheme_root_def open_dir_unchecked_def)
next
  case (COpen path flags)
  then show ?thesis using assms openat_inv by (fastforce simp: after_def)
next
  case (CDents hid off)
  then show ?thesis using assms by (auto simp: after_def dest!: store_getdents_state)
qed (use assms in \<open>auto simp: read_inv write_inv on_close_inv store_fsize_def store_fpath_def store_fevent_def
      store_fstat_def Let_def split: option.split store_handle.split\<close>)

lemma store_session_inv:
  "store_inv d \<Longrightarrow> store_session env push buf cs d = Some d' \<Longrightarrow> store_inv d'"
  by (induction cs arbitrary: d) (auto split: option.splits dest: store_step_inv)

lemma start_inv: "store_inv (start_daemon db_list db_get config rfd w)"
proof -
  have h: "sd_handles (fold (load_path db_get) ps d) = sd_handles d" for ps and d :: "'a store_daemon"
    by (induction ps arbitrary: d)
      (simp_all add: load_path_def Let_def remember_store_path_def insert_manifest_def split: option.split)
  have "daemon_inv (start_daemon db_list db_get config rfd w)"
    using inv_new[of db_list db_get config w] by (simp add: start_daemon_def daemon_inv_def)
  then show ?thesis by (simp add: store_inv_def start_daemon_def new_daemon_def h)
qed

section \<open>Opening a registered path\<close>

lemma valid_name_trim: "slash \<notin> set name \<Longrightarrow> trim_matches slash name = name"
  by (intro trim_matches_id) (metis last_in_set list.set_sel(1))

lemma parse_name:
  assumes "slash \<notin> set name" "name \<noteq> []" "\<not> contains_str name ''..''"
  shows "parse_scheme_path name = (case validate_store_path_name name of None \<Rightarrow> None
    | Some (Inl e) \<Rightarrow> Some (Inl e) | Some (Inr _) \<Rightarrow> Some (Inr (StorePathRoot name)))"
  using assms find_char_None_iff[of slash name] by (simp add: parse_scheme_path_def valid_name_trim split: option.split sum.split)

lemma resolved_not_control:
  assumes "parse_scheme_path p = Some (Inr r)" "resolved_name r = Some name"
  shows "trim_matches slash p \<noteq> ''.control''"
proof
  assume t: "trim_matches slash p = ''.control''"
  have "parse_scheme_path ''.control'' = Some (Inl (InvalidHash ''.control''))" by code_simp
  then show False using assms(1) parse_trim[of p] t by simp
qed

lemma store_open_total:
  assumes "card (dom (sd_handles d)) < unat MAX_HANDLE_ID"
  obtains hid d1 where "opened (store_open x d) = Some (Inr hid, store_put hid x d1)" "store_alloc_id d = Some (hid, d1)"
  using sh.alloc_total[OF assms] by (auto simp: opened_def store_open_def)

lemma store_alloc_frame:
  "store_alloc_id d = Some (hid, d1) \<Longrightarrow> \<exists>n. d1 = d\<lparr>sd_next_id := n\<rparr>"
  by (auto simp: store_alloc_id_def)

text \<open>
  A registered path without an expected digest and with a manifest is opened from memory: as a
  directory, and its listing is the listing of the manifest's top level.
\<close>

lemma open_from_manifest:
  assumes "is_registered_path d name" "expected_nar_hash d name = None" "bt_get (manifests d) name = Some man"
    and "validate_store_path_name name = Some (Inr ())" "slash \<notin> set name" "\<not> contains_str name ''..''"
    and "card (dom (sd_handles d)) < unat MAX_HANDLE_ID"
  obtains hid d' where "store_openat env name flags d = Some (Inr hid, d')"
    "sd_handles d' hid = Some (SDir \<lparr>sd_real_path = path_join (store_dir (sd_config d)) name,
       sd_scheme_path = name, sd_entries = None\<rparr>)"
    "\<forall>off. store_getdents push hid buf off d'
       = Some (Inr (list_entries push buf off (map entry_kind (list_manifest man []))), d')"
    "sd_world d' = sd_world d"
proof -
  have ne: "name \<noteq> []" using validate_ok(1)[OF assms(4)] by auto
  have p: "parse_scheme_path name = Some (Inr (StorePathRoot name))"
    using parse_name[OF assms(5) ne assms(6)] assms(4) by simp
  let ?x = "SDir \<lparr>sd_real_path = path_join (store_dir (sd_config d)) name, sd_scheme_path = name, sd_entries = None\<rparr>"
  obtain hid d1 where o: "opened (store_open ?x d) = Some (Inr hid, store_put hid ?x d1)"
    and al: "store_alloc_id d = Some (hid, d1)" by (rule store_open_total[OF assms(7)])
  obtain n where d1: "d1 = d\<lparr>sd_next_id := n\<rparr>" using store_alloc_frame[OF al] by blast
  have op: "store_openat env name flags d = Some (Inr hid, store_put hid ?x d1)"
    using p o assms(1-3) resolved_not_control[OF p] valid_name_trim[OF assms(5)]
    by (simp add: store_openat_def open_registered_def prepare_path_def load_for_open_def
        bindS_def ret_def open_resolved_def open_dir_unchecked_def)
  have h: "sd_handles (store_put hid ?x d1) hid = Some ?x" by (simp add: store_put_def)
  have "store_getdents push hid buf off (store_put hid ?x d1)
      = Some (Inr (list_entries push buf off (map entry_kind (list_manifest man []))), store_put hid ?x d1)"
    for off
    using h p ne assms(3)
    by (simp add: store_getdents_def is_dir_def scheme_path_def list_dir_def list_from_manifest_def d1 store_put_def)
  with that op h show thesis by (auto simp: d1 store_put_def)
qed

section \<open>Properties\<close>


definition sample_store_env :: "path_buf list store_env" where
  "sample_store_env =
     \<lparr>se_lazy = host_env sample_tree ''ab'', se_preload = (\<lambda>_. fail NotFound), se_path_hash = (\<lambda>_. None),
      se_db_dir = ''/nix/var/db'', se_parse_info = (\<lambda>_. None),
      se_parse_control = (\<lambda>bs. Some \<lparr>cm_store_path = Some (''/nix/store/'' @ sample_name), cm_nar_hash = None,
        cm_files = Some (Some [\<lparr>me_path = ''bin'', me_type = ''dir'', me_size = 0, me_executable = False\<rparr>])\<rparr>)\<rparr>"

definition sample_store_run :: "store_call list \<Rightarrow> path_buf list store_daemon option" where
  "sample_store_run cs = store_session sample_store_env (\<lambda>b x. Some (b @ [x])) [] cs
     (start_daemon None (\<lambda>_. None) default_config 3 [])"


text \<open>
  Requests that are refused. A path that does not parse, or whose store path is not registered,
  is \<^verbatim>\<open>ENOENT\<close>; writing to anything but a control handle is \<^verbatim>\<open>EACCES\<close>; and reading anything but a file is
  \<^verbatim>\<open>EBADF\<close>. None of these changes the daemon's state: in particular nothing is extracted for an
  unregistered path.
\<close>

theorem store_refusals:
  "(parse_scheme_path p = Some (Inl e) \<and> trim_matches slash p \<noteq> ''.control''
      \<longrightarrow> store_openat env p flags d = Some (Inl ENOENT, d))
   \<and> (parse_scheme_path p = Some (Inr r) \<and> resolved_name r = Some name \<and> \<not> is_registered_path d name
      \<longrightarrow> store_openat env p flags d = Some (Inl ENOENT, d))
   \<and> ((\<nexists>ch. sd_handles d hid = Some (SControl ch)) \<longrightarrow> store_write hid bs d = (Inl EACCES, d))
   \<and> ((\<nexists>fh. sd_handles d hid = Some (SFile fh)) \<longrightarrow> store_read env hid n off d = (Inl EBADF, d))"
proof (intro conjI impI)
  assume "parse_scheme_path p = Some (Inl e) \<and> trim_matches slash p \<noteq> ''.control''"
  then show "store_openat env p flags d = Some (Inl ENOENT, d)" by (simp add: store_openat_def parse_trim)
next
  assume a: "parse_scheme_path p = Some (Inr r) \<and> resolved_name r = Some name \<and> \<not> is_registered_path d name"
  then show "store_openat env p flags d = Some (Inl ENOENT, d)"
    using resolved_not_control[of p r name]
    by (cases r) (auto simp: store_openat_def parse_trim open_registered_def prepare_path_def)
next
  assume "\<nexists>ch. sd_handles d hid = Some (SControl ch)"
  then show "store_write hid bs d = (Inl EACCES, d)"
    by (auto simp: store_write_def map_err_def table_write_def split: option.split store_handle.split)
next
  assume "\<nexists>fh. sd_handles d hid = Some (SFile fh)"
  then show "store_read env hid n off d = (Inl EBADF, d)"
    by (auto simp: store_read_def map_err_def table_read_def split: option.split store_handle.split)
qed

theorem store_refusals_witness:
  "store_openat sample_store_env sample_name 0 (start_daemon None (\<lambda>_. None) default_config 3 [])
     = Some (Inl ENOENT, start_daemon None (\<lambda>_. None) default_config 3 [])
   \<and> store_write 7 [1] (start_daemon None (\<lambda>_. None) default_config 3 [])
     = (Inl EACCES, start_daemon None (\<lambda>_. None) default_config 3 ([] :: path_buf list))"
proof -
  let ?d = "start_daemon None (\<lambda>_. None) default_config 3 ([] :: path_buf list)"
  have "parse_scheme_path sample_name = Some (Inr (StorePathRoot sample_name))" by code_simp
  moreover have "\<not> is_registered_path ?d sample_name" "\<nexists>ch. sd_handles ?d 7 = Some (SControl ch)"
    by (simp_all add: start_daemon_def new_daemon_def is_registered_path_def)
  ultimately show ?thesis
    using store_refusals[of sample_name _ sample_store_env 0 ?d "StorePathRoot sample_name" sample_name 7 "[1]"] by simp
qed

text \<open>
  An installed package becomes visible. When the installer closes a control handle whose message names
  a store path and carries the manifest of an extracted archive, the store path opens as a directory, for
  any flags and without touching the file system, and its listing has exactly the names of the
  archive's top level, in byte order.
\<close>

theorem control_then_list:
  assumes "sd_handles d hid = Some (SControl ch)" "sc_buffer ch \<noteq> []"
    and "se_parse_control env (sc_buffer ch) = Some m" "cm_store_path m = Some (store_dir (sd_config d) @ ''/'' @ name)"
    and "cm_nar_hash m = None" "expected_nar_hash d name = None" "cm_files m = Some (Some man)" "man \<noteq> []"
    and "validate_store_path_name name = Some (Inr ())" "slash \<notin> set name" "\<not> contains_str name ''..''"
    and "card (dom (sd_handles d)) < unat MAX_HANDLE_ID"
    and "sink_accepts sink" "readable_tree (NarDirectory es err)" "distinct_tree (NarDirectory es err)"
    and "extract_with_manifest sink (Inr (NarDirectory es err)) dest s = (Inr man, s')"
  shows "\<exists>hid' d' entries. store_openat env name flags (store_on_close env hid d) = Some (Inr hid', d')
    \<and> (\<forall>off. store_getdents push hid' buf off d' = Some (Inr (list_entries push buf off entries), d'))
    \<and> map fst entries = sorted_list_of_set (fst ` set es)
    \<and> sd_world d' = sd_world d"
proof -
  let ?d = "store_on_close env hid d"
  let ?c = "d\<lparr>sd_handles := (sd_handles d)(hid := None)\<rparr>"
  have nm: "control_name m ?c = name"
    using assms(4) by (simp add: control_name_def strip_prefix_def)
  have d: "?d = insert_manifest name man (remember_store_path name ?c)"
    using assms(1-3,5,7,8) nm by (simp add: store_on_close_def close_def apply_control_def register_control_def)
  have "card (dom (sd_handles ?d)) \<le> card (dom (sd_handles d))"
    unfolding d by (intro card_mono) (auto simp: insert_manifest_def remember_store_path_def)
  then have card: "card (dom (sd_handles ?d)) < unat MAX_HANDLE_ID" using assms(12) by simp
  have pre: "is_registered_path ?d name" "expected_nar_hash ?d name = None" "bt_get (manifests ?d) name = Some man"
    using assms(6) by (simp_all add: d insert_manifest_def remember_store_path_def
        is_registered_path_def expected_nar_hash_def bt_simps)
  obtain hid' d' where o: "store_openat env name flags ?d = Some (Inr hid', d')"
    "\<forall>off. store_getdents push hid' buf off d'
       = Some (Inr (list_entries push buf off (map entry_kind (list_manifest man []))), d')" "sd_world d' = sd_world ?d"
    by (rule open_from_manifest[OF pre assms(9-11) card])
  have "map kind_at man = map entry_at (tree_paths (NarDirectory es err) [])"
    using extract_tree(1)[OF assms(13,14), of "[]" dest s "[]"] assms(16)
    by (auto simp: extract_with_manifest_def simp del: tree_paths.simps)
  from list_manifest_of_tree[OF this assms(14,15), of "[]"]
  have "map fst (map entry_kind (list_manifest man [])) = sorted_list_of_set (fst ` set es)"
    by (simp add: entry_kind_def comp_def)
  with o show ?thesis
    by (intro exI[of _ hid'] exI[of _ d'] exI[of _ "map entry_kind (list_manifest man [])"])
      (simp add: d insert_manifest_def remember_store_path_def)
qed

lemma sample_path_ok:
  "validate_store_path_name sample_name = Some (Inr ())" "slash \<notin> set sample_name" "\<not> contains_str sample_name ''..''"
  by code_simp+

theorem control_then_list_witness:
  "\<exists>hid d entries. store_openat sample_store_env sample_name 0
      (store_on_close sample_store_env 1 (store_put 1 (SControl \<lparr>sc_buffer = [123, 125], sc_scheme_path = ''.control''\<rparr>)
        (start_daemon None (\<lambda>_. None) default_config 3 []))) = Some (Inr hid, d)
    \<and> map fst entries = [''bin'']
    \<and> (\<forall>off. store_getdents (\<lambda>b x. Some (b @ [x])) hid [] off d
        = Some (Inr (list_entries (\<lambda>b x. Some (b @ [x])) [] off entries), d))"
proof -
  let ?d = "store_put 1 (SControl \<lparr>sc_buffer = [123, 125], sc_scheme_path = ''.control''\<rparr>)
      (start_daemon None (\<lambda>_. None) default_config 3 ([] :: path_buf list))"
  let ?man = "[\<lparr>me_path = ''bin'', me_type = ''dir'', me_size = 0, me_executable = False\<rparr>]"
  let ?es = "[(''bin'', NarDirectory [] None)]"
  have x: "extract_with_manifest null_sink (Inr (NarDirectory ?es None)) ''/x'' () = (Inr ?man, ())"
    by (simp add: extract_with_manifest_def null_sink_def bindS_def on_sink_def push_entry_def
        ret_def byte_of_def child_rel_def)
  have h: "sd_handles ?d = [1 \<mapsto> SControl \<lparr>sc_buffer = [123, 125], sc_scheme_path = ''.control''\<rparr>]"
    by (simp add: store_put_def start_daemon_def new_daemon_def)
  have hash: "expected_nar_hash ?d sample_name = None"
    by (simp add: store_put_def start_daemon_def new_daemon_def expected_nar_hash_def)
  have "\<exists>hid d entries. store_openat sample_store_env sample_name 0 (store_on_close sample_store_env 1 ?d) = Some (Inr hid, d)
    \<and> (\<forall>off. store_getdents (\<lambda>b x. Some (b @ [x])) hid [] off d
        = Some (Inr (list_entries (\<lambda>b x. Some (b @ [x])) [] off entries), d))
    \<and> map fst entries = sorted_list_of_set (fst ` set ?es) \<and> sd_world d = sd_world ?d"
    by (rule control_then_list[OF _ _ _ _ _ hash _ _ sample_path_ok _ sample_tree_ok(2) _ _ x])
      (simp_all add: h sample_store_env_def store_put_def start_daemon_def new_daemon_def default_config_def
        valid_name_def byte_of_def MAX_HANDLE_ID_def, simp_all)
  moreover have "sorted_list_of_set (fst ` set ?es) = [''bin'']" by simp
  ultimately show ?thesis by metis
qed

text \<open>
  A store path that is a single file cannot be read. An archive whose root is a file gives a manifest
  with one entry for the empty path. The store path is opened as a directory all the same,
  its listing is empty, and reading the handle fails.
\<close>

theorem single_file_unreadable:
  assumes "is_registered_path d name" "expected_nar_hash d name = None"
    and "extract_with_manifest sink (Inr (NarFile exec data)) dest s = (Inr man, s')" "bt_get (manifests d) name = Some man"
    and "validate_store_path_name name = Some (Inr ())" "slash \<notin> set name" "\<not> contains_str name ''..''"
    and "card (dom (sd_handles d)) < unat MAX_HANDLE_ID"
  shows "\<exists>hid d'. store_openat env name flags d = Some (Inr hid, d')
    \<and> (\<forall>off. store_getdents push hid buf off d' = Some (Inr buf, d'))
    \<and> (\<forall>n off. store_read env hid n off d' = (Inl EBADF, d'))"
proof -
  obtain z where man: "man = [\<lparr>me_path = [], me_type = ''file'', me_size = z, me_executable = exec\<rparr>]"
    using assms(3) by (auto simp: extract_with_manifest_def bindS_def on_sink_def push_entry_def split: prod.splits sum.splits)
  have empty: "list_manifest man [] = []"
    by (simp add: man list_manifest_def manifest_step_def dir_prefix_def rel_below_def bt_values_def)
  obtain hid d' where o: "store_openat env name flags d = Some (Inr hid, d')"
    "sd_handles d' hid = Some (SDir \<lparr>sd_real_path = path_join (store_dir (sd_config d)) name,
       sd_scheme_path = name, sd_entries = None\<rparr>)"
    "\<forall>off. store_getdents push hid buf off d'
       = Some (Inr (list_entries push buf off (map entry_kind (list_manifest man []))), d')"
    by (rule open_from_manifest[OF assms(1,2,4-8)])
  then show ?thesis
    by (intro exI[of _ hid] exI[of _ d']) (simp add: empty list_entries_def store_read_def map_err_def table_read_def)
qed

theorem single_file_unreadable_witness:
  "\<exists>man hid d'. store_openat sample_store_env sample_name 0
      (insert_manifest sample_name man (remember_store_path sample_name (start_daemon None (\<lambda>_. None) default_config 3 [])))
      = Some (Inr hid, d') \<and> store_read sample_store_env hid 10 0 d' = (Inl EBADF, d')"
proof -
  obtain man s' where x: "extract_with_manifest null_sink (Inr (NarFile False ([104, 105], None))) ''/x'' () = (Inr man, s')"
    by (simp add: extract_with_manifest_def null_sink_def bindS_def on_sink_def push_entry_def ret_def)
  let ?d = "insert_manifest sample_name man (remember_store_path sample_name
      (start_daemon None (\<lambda>_. None) default_config 3 ([] :: path_buf list)))"
  have "is_registered_path ?d sample_name" "expected_nar_hash ?d sample_name = None"
    "bt_get (manifests ?d) sample_name = Some man" "card (dom (sd_handles ?d)) < unat MAX_HANDLE_ID"
    by (simp_all add: insert_manifest_def remember_store_path_def start_daemon_def new_daemon_def
        is_registered_path_def expected_nar_hash_def bt_get_def MAX_HANDLE_ID_def)
  from single_file_unreadable[OF this(1,2) x this(3) sample_path_ok this(4), of sample_store_env 0 "\<lambda>b x. Some (b @ [x])" "[]"]
  show ?thesis by blast
qed

text \<open>
  Control messages are not validated. Whatever name a message carries is registered; a name that is
  not of the store path format then appears in the listing of the root, and opening it fails.
\<close>

theorem control_registers_anything:
  assumes "cm_store_path m = Some name" "strip_prefix name (store_dir (sd_config d) @ ''/'') = None"
    and "validate_store_path_name name = Some (Inl e)" "slash \<notin> set name" "name \<noteq> []" "name \<noteq> ''.control''"
  shows "name \<in> set (list_registered_path_names (apply_control m d))
    \<and> store_openat env name flags (apply_control m d) = Some (Inl ENOENT, apply_control m d)"
proof
  have "control_name m d = name" using assms(1,2) by (simp add: control_name_def)
  then show "name \<in> set (list_registered_path_names (apply_control m d))"
    by (auto simp: list_registered_path_names_def bt_keys_dom apply_control_def register_control_def insert_manifest_def
        remember_nar_hash_def remember_store_path_def Let_def bt_simps split: option.split)
  have "\<exists>e'. parse_scheme_path name = Some (Inl e')"
  proof (cases "contains_str name ''..''")
    case True
    then show ?thesis using assms(5) by (simp add: parse_scheme_path_def valid_name_trim[OF assms(4)])
  next
    case False
    then show ?thesis using parse_name[OF assms(4,5)] assms(3) by simp
  qed
  then show "store_openat env name flags (apply_control m d) = Some (Inl ENOENT, apply_control m d)"
    using assms(6) by (auto simp: store_openat_def valid_name_trim[OF assms(4)])
qed

theorem control_registers_anything_witness:
  "''foo'' \<in> set (list_registered_path_names (apply_control \<lparr>cm_store_path = Some ''foo'', cm_nar_hash = None, cm_files = None\<rparr>
     (start_daemon None (\<lambda>_. None) default_config 3 ([] :: path_buf list))))"
  using control_registers_anything[of "\<lparr>cm_store_path = Some ''foo'', cm_nar_hash = None, cm_files = None\<rparr>" "''foo''"
      "start_daemon None (\<lambda>_. None) default_config 3 ([] :: path_buf list)" "InvalidHash ''foo''"]
  by (simp add: validate_store_path_name_def start_daemon_def new_daemon_def default_config_def strip_prefix_def)

end
