(* ===== verification/Profile_Mapping.thy ===== *)
theory Profile_Mapping
  imports Manifest_View
begin

text \<open>
  The mapping table of the profile daemon (\<^verbatim>\<open>profiled/mapping.rs\<close>): what a profile contains, the
  union views over its packages, and the store of all profiles with its persistence and control
  commands. File system calls, the clock and the JSON codecs are parameters.
\<close>

section \<open>One profile\<close>

record profile_entry =
  pe_name :: string
  pe_store_path :: string
  pe_installed_at :: u64

record profile_mapping =
  pm_version :: u32
  pm_packages :: "profile_entry list"

record resolved_file =
  rf_package_name :: string
  rf_store_path :: string
  rf_full_path :: path_buf

record union_entry =
  ue_name :: string
  ue_is_dir :: bool
  ue_is_symlink :: bool
  ue_from_package :: string

definition pm_add :: "u64 \<Rightarrow> string \<Rightarrow> string \<Rightarrow> profile_mapping \<Rightarrow> profile_mapping" where
  "pm_add now name store_path pm =
     pm\<lparr>pm_packages := filter (\<lambda>p. pe_name p \<noteq> name) (pm_packages pm)
          @ [\<lparr>pe_name = name, pe_store_path = store_path, pe_installed_at = now\<rparr>]\<rparr>"

definition pm_remove :: "string \<Rightarrow> profile_mapping \<Rightarrow> bool \<times> profile_mapping" where
  "pm_remove name pm =
     (let before = length (pm_packages pm);
          kept = filter (\<lambda>p. pe_name p \<noteq> name) (pm_packages pm)
      in (length kept < before, pm\<lparr>pm_packages := kept\<rparr>))"

definition pm_get :: "string \<Rightarrow> profile_mapping \<Rightarrow> profile_entry option" where
  "pm_get name pm = find (\<lambda>p. pe_name p = name) (pm_packages pm)"

text \<open>The package that provides a file, by looking at the file system.\<close>

definition pm_resolve_path :: "(path_buf \<Rightarrow> bool) \<Rightarrow> string \<Rightarrow> profile_mapping \<Rightarrow> resolved_file option" where
  "pm_resolve_path exists subpath pm =
     map_option (\<lambda>e. \<lparr>rf_package_name = pe_name e, rf_store_path = pe_store_path e,
                      rf_full_path = path_join (pe_store_path e) subpath\<rparr>)
       (find (\<lambda>e. exists (path_join (pe_store_path e) subpath)) (rev (pm_packages pm)))"

text \<open>
  \<open>listing\<close> is the readable part of \<^verbatim>\<open>read_dir\<close> of a directory, with the type of each entry;
  \<open>None\<close> if the path is not a directory or cannot be read. (The code panics if the type of an entry cannot
  be read twice in a row; the listing only has entries whose type can.)
\<close>

definition union_fs_step ::
  "(path_buf \<Rightarrow> (string \<times> bool \<times> bool) list option) \<Rightarrow> string \<Rightarrow> profile_entry
   \<Rightarrow> (string, union_entry) btree \<Rightarrow> (string, union_entry) btree" where
  "union_fs_step listing subpath pkg seen =
     (case listing (path_join (pe_store_path pkg) subpath) of
        None \<Rightarrow> seen
      | Some es \<Rightarrow>
          fold (\<lambda>(name, dir, sym). bt_insert name \<lparr>ue_name = name, ue_is_dir = dir, ue_is_symlink = sym,
            ue_from_package = pe_name pkg\<rparr>) es seen)"

definition list_union ::
  "(path_buf \<Rightarrow> (string \<times> bool \<times> bool) list option) \<Rightarrow> string \<Rightarrow> profile_mapping \<Rightarrow> union_entry list" where
  "list_union listing subpath pm =
     sort_key ue_name (bt_values (fold (union_fs_step listing subpath) (pm_packages pm) []))"

type_synonym manifest_cache = "(string, manifest_entry list) btree"

definition union_step ::
  "string \<Rightarrow> profile_entry \<times> manifest_entry \<Rightarrow> (string, union_entry) btree \<Rightarrow> (string, union_entry) btree" where
  "union_step pre x seen = (case x of (pkg, e) \<Rightarrow>
     (case rel_below pre (me_path e) of
        None \<Rightarrow> seen
      | Some rel \<Rightarrow>
          (case find_char slash rel of
             Some slash_pos \<Rightarrow>
               let dir_name = take slash_pos rel in
               bt_or_insert dir_name \<lparr>ue_name = dir_name, ue_is_dir = True, ue_is_symlink = False,
                 ue_from_package = pe_name pkg\<rparr> seen
           | None \<Rightarrow>
               if rel \<noteq> [] then
                 bt_insert rel \<lparr>ue_name = rel, ue_is_dir = (me_type e = ''dir''),
                   ue_is_symlink = (me_type e = ''symlink''), ue_from_package = pe_name pkg\<rparr> seen
               else seen)))"

definition union_pkg ::
  "string \<Rightarrow> manifest_cache \<Rightarrow> profile_entry \<Rightarrow> (string, union_entry) btree \<Rightarrow> (string, union_entry) btree" where
  "union_pkg pre manifests pkg seen =
     (case bt_get manifests (pe_store_path pkg) of
        None \<Rightarrow> seen
      | Some manifest \<Rightarrow> fold (\<lambda>e. union_step pre (pkg, e)) manifest seen)"

definition list_union_from_manifests :: "string \<Rightarrow> manifest_cache \<Rightarrow> profile_mapping \<Rightarrow> union_entry list" where
  "list_union_from_manifests subpath manifests pm =
     sort_key ue_name (bt_values (fold (union_pkg (dir_prefix subpath) manifests) (pm_packages pm) []))"

interpretation ul: child_listing union_step "\<lambda>x. me_path (snd x)"
  "\<lambda>x n. \<lparr>ue_name = n, ue_is_dir = True, ue_is_symlink = False, ue_from_package = pe_name (fst x)\<rparr>"
  "\<lambda>x n. \<lparr>ue_name = n, ue_is_dir = (me_type (snd x) = ''dir''), ue_is_symlink = (me_type (snd x) = ''symlink''),
     ue_from_package = pe_name (fst x)\<rparr>"
  ue_name
  by unfold_locales (auto simp: union_step_def child_of_def Let_def split: option.split)

text \<open>All manifest entries of a profile, in installation order.\<close>

definition profile_files :: "manifest_cache \<Rightarrow> profile_entry list \<Rightarrow> (profile_entry \<times> manifest_entry) list" where
  "profile_files manifests pkgs =
     concat (map (\<lambda>pkg. map (Pair pkg) (case bt_get manifests (pe_store_path pkg) of Some m \<Rightarrow> m | None \<Rightarrow> [])) pkgs)"

lemma union_walk:
  "fold (union_pkg pre manifests) pkgs seen = fold (union_step pre) (profile_files manifests pkgs) seen"
proof (induction pkgs arbitrary: seen)
  case (Cons pkg pkgs)
  have "fold (\<lambda>e. union_step pre (pkg, e)) m seen = fold (union_step pre) (map (Pair pkg) m) seen" for m
    by (simp add: fold_map comp_def)
  then have "union_pkg pre manifests pkg seen = fold (union_step pre)
      (map (Pair pkg) (case bt_get manifests (pe_store_path pkg) of Some m \<Rightarrow> m | None \<Rightarrow> [])) seen"
    by (simp add: union_pkg_def split: option.split)
  with Cons show ?case by (simp add: profile_files_def)
qed (simp add: profile_files_def)

section \<open>All profiles\<close>

datatype profile_error =
    PIo io_kind
  | PParse
  | PNoProfile string
  | PNoStorePath
  | PUnknownAction string

record control_command =
  cc_action :: string
  cc_name :: string
  cc_store_path :: "string option"
  cc_files :: "manifest_entry list"

text \<open>
  \<open>pf_read_dir\<close> delivers each entry or the error of reading it, with the result of asking for its type;
  \<open>pf_decode_install\<close> the packages of an install manifest in key order with their store paths.
\<close>

record 'w profile_fs =
  pf_is_dir :: "path_buf \<Rightarrow> 'w \<Rightarrow> bool"
  pf_exists :: "path_buf \<Rightarrow> 'w \<Rightarrow> bool"
  pf_read_dir :: "path_buf \<Rightarrow> ('w, io_kind, (io_kind + string \<times> (io_kind + bool)) list) eio"
  pf_read_to_string :: "path_buf \<Rightarrow> ('w, io_kind, string) eio"
  pf_create_dir_all :: "path_buf \<Rightarrow> ('w, io_kind, unit) eio"
  pf_write :: "path_buf \<Rightarrow> string \<Rightarrow> ('w, io_kind, unit) eio"
  pf_rename :: "path_buf \<Rightarrow> path_buf \<Rightarrow> ('w, io_kind, unit) eio"
  pf_now :: "'w \<Rightarrow> u64"
  pf_encode :: "profile_mapping \<Rightarrow> string"
  pf_decode :: "string \<Rightarrow> profile_mapping option"
  pf_decode_install :: "string \<Rightarrow> (string \<times> string) list option"
  pf_decode_command :: "string \<Rightarrow> control_command option"
  pf_encode_opt :: "profile_mapping option \<Rightarrow> string"

record 'w profile_store =
  ps_profiles :: "(string, profile_mapping) btree"
  ps_dir :: string
  ps_world :: 'w

definition empty_mapping :: profile_mapping where
  "empty_mapping = \<lparr>pm_version = 1, pm_packages = []\<rparr>"

definition get_or_create :: "string \<Rightarrow> 'w profile_store \<Rightarrow> profile_mapping \<times> 'w profile_store" where
  "get_or_create name ps =
     (let profiles = bt_or_insert name empty_mapping (ps_profiles ps)
      in (case bt_get profiles name of Some pm \<Rightarrow> pm | None \<Rightarrow> empty_mapping, ps\<lparr>ps_profiles := profiles\<rparr>))"

definition ps_get :: "string \<Rightarrow> 'w profile_store \<Rightarrow> profile_mapping option" where
  "ps_get name ps = bt_get (ps_profiles ps) name"

definition list_profiles :: "'w profile_store \<Rightarrow> string list" where
  "list_profiles ps = bt_keys (ps_profiles ps)"

definition put_profile :: "string \<Rightarrow> profile_mapping \<Rightarrow> 'w profile_store \<Rightarrow> 'w profile_store" where
  "put_profile name pm ps = ps\<lparr>ps_profiles := bt_insert name pm (ps_profiles ps)\<rparr>"

definition on_ps_world :: "('w, io_kind, 'a) eio \<Rightarrow> ('w profile_store, profile_error, 'a) eio" where
  "on_ps_world f = (\<lambda>ps. case f (ps_world ps) of (r, w) \<Rightarrow> (map_sum PIo id r, ps\<lparr>ps_world := w\<rparr>))"

definition persist :: "'w profile_fs \<Rightarrow> string \<Rightarrow> ('w profile_store, profile_error, unit) eio" where
  "persist fs profile = (\<lambda>ps.
     bindS (ok_or (ps_get profile ps) (PNoProfile profile)) (\<lambda>pm.
     let dir = path_join (ps_dir ps) profile;
         json = pf_encode fs pm;
         tmp_path = path_join dir ''mapping.json.tmp'';
         final_path = path_join dir ''mapping.json'' in
     bindS (on_ps_world (pf_create_dir_all fs dir)) (\<lambda>_.
     bindS (on_ps_world (pf_write fs tmp_path json)) (\<lambda>_.
     on_ps_world (pf_rename fs tmp_path final_path)))) ps)"

definition add_package ::
  "'w profile_fs \<Rightarrow> string \<Rightarrow> string \<Rightarrow> string \<Rightarrow> ('w profile_store, profile_error, unit) eio" where
  "add_package fs profile name store_path = (\<lambda>ps.
     case get_or_create profile ps of (pm, ps1) \<Rightarrow>
       persist fs profile (put_profile profile (pm_add (pf_now fs (ps_world ps)) name store_path pm) ps1))"

definition remove_package ::
  "'w profile_fs \<Rightarrow> string \<Rightarrow> string \<Rightarrow> ('w profile_store, profile_error, bool) eio" where
  "remove_package fs profile name = (\<lambda>ps.
     case bt_get (ps_profiles ps) profile of
       None \<Rightarrow> (Inr False, ps)
     | Some pm \<Rightarrow>
         (case pm_remove name pm of (removed, pm') \<Rightarrow>
            (if removed then bindS (persist fs profile) (\<lambda>_. ret removed) else ret removed)
              (put_profile profile pm' ps)))"

definition process_control ::
  "'w profile_fs \<Rightarrow> string \<Rightarrow> string
   \<Rightarrow> ('w profile_store, profile_error, string \<times> (string \<times> manifest_entry list) option) eio" where
  "process_control fs profile command_json =
     bindS (ok_or (pf_decode_command fs command_json) PParse) (\<lambda>cmd.
     if cc_action cmd = ''add'' then
       bindS (ok_or (cc_store_path cmd) PNoStorePath) (\<lambda>store_path.
       bindS (add_package fs profile (cc_name cmd) store_path) (\<lambda>_.
       ret (''added '' @ cc_name cmd @ '' to profile '' @ profile,
            if cc_files cmd = [] then None else Some (store_path, cc_files cmd))))
     else if cc_action cmd = ''remove'' then
       bindS (remove_package fs profile (cc_name cmd)) (\<lambda>removed.
       ret (if removed then ''removed '' @ cc_name cmd @ '' from profile '' @ profile
            else cc_name cmd @ '' not found in profile '' @ profile, None))
     else if cc_action cmd = ''list'' then (\<lambda>ps. (Inr (pf_encode_opt fs (ps_get profile ps), None), ps))
     else fail (PUnknownAction (cc_action cmd)))"

subsection \<open>Loading\<close>

definition bootstrap_from_manifest :: "'w profile_fs \<Rightarrow> path_buf \<Rightarrow> ('w, profile_error, profile_mapping) eio" where
  "bootstrap_from_manifest fs manifest_path =
     bindS (map_err PIo (pf_read_to_string fs manifest_path)) (\<lambda>content.
     bindS (ok_or (pf_decode_install fs content) PParse) (\<lambda>packages. (\<lambda>w.
       (Inr \<lparr>pm_version = 1, pm_packages = map (\<lambda>(key, store_path).
          \<lparr>pe_name = key, pe_store_path = store_path, pe_installed_at = pf_now fs w\<rparr>) packages\<rparr>, w))))"

definition load_profile ::
  "'w profile_fs \<Rightarrow> path_buf \<Rightarrow> string \<Rightarrow> (string, profile_mapping) btree
   \<Rightarrow> ('w, profile_error, (string, profile_mapping) btree) eio" where
  "load_profile fs dir name profiles = (\<lambda>w.
     let entry_path = path_join dir name;
         mapping_path = path_join entry_path ''mapping.json'';
         manifest_path = path_join entry_path ''manifest.json'' in
     if pf_exists fs mapping_path w then
       bindS (map_err PIo (pf_read_to_string fs mapping_path)) (\<lambda>content.
       bindS (ok_or (pf_decode fs content) PParse) (\<lambda>pm. ret (bt_insert name pm profiles))) w
     else if pf_exists fs manifest_path w then
       bindS (attempt (bootstrap_from_manifest fs manifest_path)) (\<lambda>r.
         case r of Inr pm \<Rightarrow> ret (bt_insert name pm profiles) | Inl _ \<Rightarrow> ret profiles) w
     else ret profiles w)"

fun load_entries ::
  "'w profile_fs \<Rightarrow> path_buf \<Rightarrow> (io_kind + string \<times> (io_kind + bool)) list \<Rightarrow> (string, profile_mapping) btree
   \<Rightarrow> ('w, profile_error, (string, profile_mapping) btree) eio" where
  "load_entries fs dir [] profiles = ret profiles"
| "load_entries fs dir (Inl e # es) profiles = fail (PIo e)"
| "load_entries fs dir (Inr (name, Inl e) # es) profiles = fail (PIo e)"
| "load_entries fs dir (Inr (name, Inr is_dir) # es) profiles =
     bindS (if is_dir then load_profile fs dir name profiles else ret profiles) (load_entries fs dir es)"

fun persist_missing :: "'w profile_fs \<Rightarrow> string list \<Rightarrow> 'w profile_store \<Rightarrow> 'w profile_store" where
  "persist_missing fs [] ps = ps"
| "persist_missing fs (name # names) ps =
     persist_missing fs names
       (if pf_exists fs (path_join (path_join (ps_dir ps) name) ''mapping.json'') (ps_world ps) then ps
        else snd (persist fs name ps))"

definition load_profiles :: "'w profile_fs \<Rightarrow> string \<Rightarrow> 'w \<Rightarrow> profile_error + 'w profile_store" where
  "load_profiles fs profiles_dir w =
     (case (if pf_is_dir fs profiles_dir w
            then bindS (map_err PIo (pf_read_dir fs profiles_dir)) (\<lambda>es. load_entries fs profiles_dir es []) w
            else (Inr [], w)) of
        (Inl e, _) \<Rightarrow> Inl e
      | (Inr profiles, w') \<Rightarrow>
          let ps = \<lparr>ps_profiles = profiles, ps_dir = profiles_dir, ps_world = w'\<rparr>
          in Inr (persist_missing fs (list_profiles ps) ps))"

section \<open>Profiles as maps\<close>

text \<open>The specification: a profile maps package names to store paths, the store profile names to profiles.\<close>

definition pm_abs :: "profile_mapping \<Rightarrow> (string \<rightharpoonup> string)" where
  "pm_abs pm = (\<lambda>n. map_option pe_store_path (pm_get n pm))"

definition ps_abs :: "'w profile_store \<Rightarrow> (string \<rightharpoonup> (string \<rightharpoonup> string))" where
  "ps_abs ps = (\<lambda>profile. map_option pm_abs (ps_get profile ps))"

fun spec_control ::
  "control_command \<Rightarrow> string \<Rightarrow> (string \<rightharpoonup> (string \<rightharpoonup> string)) \<Rightarrow> (string \<rightharpoonup> (string \<rightharpoonup> string))" where
  "spec_control cmd profile A =
     (if cc_action cmd = ''add'' then
        (case cc_store_path cmd of
           None \<Rightarrow> A
         | Some p \<Rightarrow> A(profile \<mapsto> (case A profile of Some m \<Rightarrow> m | None \<Rightarrow> Map.empty)(cc_name cmd \<mapsto> p)))
      else if cc_action cmd = ''remove'' then
        (case A profile of None \<Rightarrow> A | Some m \<Rightarrow> A(profile \<mapsto> m(cc_name cmd := None)))
      else A)"

lemma find_filter_other: "(\<And>x. P x \<Longrightarrow> Q x) \<Longrightarrow> find P (filter Q xs) = find P xs"
  by (induction xs) auto

lemma find_filter_none: "(\<And>x. P x \<Longrightarrow> \<not> Q x) \<Longrightarrow> find P (filter Q xs) = None"
  by (induction xs) auto

lemma find_append: "find P (xs @ ys) = (case find P xs of Some x \<Rightarrow> Some x | None \<Rightarrow> find P ys)"
  by (induction xs) auto

lemma pm_get_add:
  "pm_get m (pm_add now n p pm) = (if m = n then Some \<lparr>pe_name = n, pe_store_path = p, pe_installed_at = now\<rparr> else pm_get m pm)"
  by (auto simp: pm_get_def pm_add_def find_append find_filter_none find_filter_other split: option.split)

lemma pm_get_remove: "pm_get m (snd (pm_remove n pm)) = (if m = n then None else pm_get m pm)"
  by (simp add: pm_get_def pm_remove_def Let_def find_filter_none find_filter_other)

lemma pm_abs_add: "pm_abs (pm_add now n p pm) = (pm_abs pm)(n \<mapsto> p)"
  by (auto simp: pm_abs_def pm_get_add)

lemma pm_abs_remove: "pm_abs (snd (pm_remove n pm)) = (pm_abs pm)(n := None)"
  by (auto simp: pm_abs_def pm_get_remove)

lemma pm_abs_empty: "pm_abs empty_mapping = Map.empty"
  by (simp add: pm_abs_def pm_get_def empty_mapping_def)

text \<open>Persisting a profile, successful or not, changes nothing but the outside world.\<close>

lemma persist_frame:
  "ps_profiles (snd (persist fs profile ps)) = ps_profiles ps \<and> ps_dir (snd (persist fs profile ps)) = ps_dir ps"
  by (auto simp: persist_def io_defs on_ps_world_def Let_def split: option.split prod.split sum.split)

lemma ps_abs_persist: "ps_abs (snd (persist fs profile ps)) = ps_abs ps"
  using persist_frame[of fs profile ps] by (simp add: ps_abs_def ps_get_def)

lemma ps_abs_put: "ps_abs (put_profile profile pm ps) = (ps_abs ps)(profile \<mapsto> pm_abs pm)"
  by (auto simp: ps_abs_def ps_get_def put_profile_def bt_simps)

lemma ps_abs_create:
  assumes "get_or_create profile ps = (pm, ps1)"
  shows "ps_abs ps1 = (ps_abs ps)(profile \<mapsto> pm_abs pm)"
    and "pm_abs pm = (case ps_abs ps profile of Some m \<Rightarrow> m | None \<Rightarrow> Map.empty)"
  using assms by (auto simp: get_or_create_def Let_def ps_abs_def ps_get_def bt_simps pm_abs_empty
      fun_eq_iff split: option.splits)

lemma ps_abs_add:
  "ps_abs (snd (add_package fs profile n p ps))
   = (ps_abs ps)(profile \<mapsto> (case ps_abs ps profile of Some m \<Rightarrow> m | None \<Rightarrow> Map.empty)(n \<mapsto> p))"
proof -
  obtain pm ps1 where gc: "get_or_create profile ps = (pm, ps1)" by (cases "get_or_create profile ps")
  show ?thesis
    using ps_abs_create[OF gc] by (simp add: add_package_def gc ps_abs_persist ps_abs_put pm_abs_add)
qed

lemma snd_bind_ret: "snd (bindS f (\<lambda>x. ret (g x)) s) = snd (f s)"
  by (simp add: bindS_def ret_def split: prod.split sum.split)

lemma ps_abs_remove:
  "ps_abs (snd (remove_package fs profile n ps))
   = (case ps_abs ps profile of None \<Rightarrow> ps_abs ps | Some m \<Rightarrow> (ps_abs ps)(profile \<mapsto> m(n := None)))"
proof (cases "bt_get (ps_profiles ps) profile")
  case None
  then show ?thesis by (simp add: remove_package_def ps_abs_def ps_get_def)
next
  case (Some pm)
  obtain b pm' where r: "pm_remove n pm = (b, pm')" by (cases "pm_remove n pm")
  have abs: "ps_abs ps profile = Some (pm_abs pm)" using Some by (simp add: ps_abs_def ps_get_def)
  have "ps_abs (snd (remove_package fs profile n ps)) = ps_abs (put_profile profile pm' ps)"
    using Some r by (simp add: remove_package_def snd_bind_ret ps_abs_persist) (simp add: ret_def)
  then show ?thesis using abs pm_abs_remove[of n pm] r by (simp add: ps_abs_put)
qed

section \<open>Persistence\<close>

text \<open>
  What the file system is documented to do: \<open>pf_write\<close> replaces one file, \<open>pf_rename\<close> moves one
  over another at once, a failing \<open>pf_rename\<close> changes nothing, and creating directories
  changes no file. \<open>content\<close> is what reading a path would give.
\<close>

definition content :: "'w profile_fs \<Rightarrow> path_buf \<Rightarrow> 'w \<Rightarrow> io_kind + string" where
  "content fs p w = fst (pf_read_to_string fs p w)"

definition file_laws :: "'w profile_fs \<Rightarrow> bool" where
  "file_laws fs \<longleftrightarrow>
     (\<forall>p q w. content fs q (snd (pf_create_dir_all fs p w)) = content fs q w)
   \<and> (\<forall>p q s w. q \<noteq> p \<longrightarrow> content fs q (snd (pf_write fs p s w)) = content fs q w)
   \<and> (\<forall>p s w. fst (pf_write fs p s w) = Inr () \<longrightarrow> content fs p (snd (pf_write fs p s w)) = Inr s)
   \<and> (\<forall>p q w. fst (pf_rename fs p q w) = Inr () \<longrightarrow> content fs q (snd (pf_rename fs p q w)) = content fs p w)
   \<and> (\<forall>p q r w e. fst (pf_rename fs p q w) = Inl e \<longrightarrow> content fs r (snd (pf_rename fs p q w)) = content fs r w)"

lemma file_lawsD:
  assumes "file_laws fs"
  shows "content fs q (snd (pf_create_dir_all fs p w)) = content fs q w"
    and "q \<noteq> p \<Longrightarrow> content fs q (snd (pf_write fs p s w)) = content fs q w"
    and "fst (pf_write fs p s w) = Inr () \<Longrightarrow> content fs p (snd (pf_write fs p s w)) = Inr s"
    and "fst (pf_rename fs p q w) = Inr () \<Longrightarrow> content fs q (snd (pf_rename fs p q w)) = content fs p w"
    and "fst (pf_rename fs p q w) = Inl e \<Longrightarrow> content fs r (snd (pf_rename fs p q w)) = content fs r w"
  using assms unfolding file_laws_def by blast+

definition mapping_file :: "'w profile_store \<Rightarrow> string \<Rightarrow> path_buf" where
  "mapping_file ps profile = path_join (path_join (ps_dir ps) profile) ''mapping.json''"

lemma tmp_differs: "path_join p ''mapping.json.tmp'' \<noteq> path_join p ''mapping.json''"
  by (simp add: path_join_def)

lemma persist_content:
  assumes "file_laws fs" "ps_get profile ps = Some pm" "persist fs profile ps = (r, ps')"
  shows "content fs (mapping_file ps profile) (ps_world ps')
    = (if r = Inr () then Inr (pf_encode fs pm) else content fs (mapping_file ps profile) (ps_world ps))"
proof -
  let ?d = "path_join (ps_dir ps) profile" and ?c = "content fs (mapping_file ps profile)"
  let ?tmp = "path_join ?d ''mapping.json.tmp''"
  note laws = file_lawsD[OF assms(1)]
  obtain r1 w1 where m: "pf_create_dir_all fs ?d (ps_world ps) = (r1, w1)" by (cases "pf_create_dir_all fs ?d (ps_world ps)")
  obtain r2 w2 where w: "pf_write fs ?tmp (pf_encode fs pm) w1 = (r2, w2)" by (cases "pf_write fs ?tmp (pf_encode fs pm) w1")
  obtain r3 w3 where n: "pf_rename fs ?tmp (mapping_file ps profile) w2 = (r3, w3)"
    by (cases "pf_rename fs ?tmp (mapping_file ps profile) w2")
  have c1: "?c w1 = ?c (ps_world ps)" using laws(1)[of _ ?d "ps_world ps"] m by simp
  have c2: "?c w2 = ?c w1" using laws(2)[of "mapping_file ps profile" ?tmp "pf_encode fs pm" w1] w tmp_differs
    by (metis mapping_file_def snd_conv)
  have t2: "r2 = Inr () \<Longrightarrow> content fs ?tmp w2 = Inr (pf_encode fs pm)"
    using laws(3)[of ?tmp "pf_encode fs pm" w1] w by simp
  have c3: "?c w3 = (if r3 = Inr () then content fs ?tmp w2 else ?c w2)"
    using laws(4)[of ?tmp "mapping_file ps profile" w2] laws(5)[of ?tmp "mapping_file ps profile" w2] n
    by (cases r3) auto
  show ?thesis
    using assms(2,3) m w n c1 c2 t2 c3
    by (cases r1; cases r2; cases r3)
      (auto simp: persist_def io_defs on_ps_world_def Let_def mapping_file_def)
qed

lemma process_control_abs:
  "ps_abs (snd (process_control fs profile json ps))
     = (case pf_decode_command fs json of None \<Rightarrow> ps_abs ps | Some cmd \<Rightarrow> spec_control cmd profile (ps_abs ps))"
proof (cases "pf_decode_command fs json")
  case None
  then show ?thesis by (simp add: process_control_def io_defs)
next
  case (Some cmd)
  have ok: "bindS (ok_or (Some x) e) f s = f x s" for x and e :: 'x and f and s :: 'y by (simp add: io_defs)
  show ?thesis
  proof (cases "cc_store_path cmd")
    case None
    then show ?thesis using Some
      by (simp add: process_control_def ok ps_abs_remove snd_bind_ret) (simp add: io_defs)
  next
    case (Some p)
    then show ?thesis using \<open>pf_decode_command fs json = Some cmd\<close>
      by (simp add: process_control_def ok ps_abs_add ps_abs_remove snd_bind_ret) (simp add: io_defs)
  qed
qed

section \<open>Properties\<close>

text \<open>
  C18: control commands implement finite maps. Whatever the file system answers, a control command acts on the
  daemon's profiles exactly as on a map from profile names to maps from package names to
  store paths: \<^verbatim>\<open>add\<close> creates the profile if needed and binds the name, \<^verbatim>\<open>remove\<close> unbinds it, and every
  other, incomplete or undecodable command changes nothing. After an \<^verbatim>\<open>add\<close> the package occurs once.
\<close>

theorem process_control_refines:
  "ps_abs (snd (process_control fs profile json ps))
     = (case pf_decode_command fs json of None \<Rightarrow> ps_abs ps | Some cmd \<Rightarrow> spec_control cmd profile (ps_abs ps))
   \<and> length (filter (\<lambda>p. pe_name p = n) (pm_packages (pm_add now n path pm))) = 1"
proof -
  have "length (filter (\<lambda>p. pe_name p = n) (pm_packages (pm_add now n path pm))) = 1"
    by (simp add: pm_add_def filter_filter conj_commute)
  with process_control_abs show ?thesis by blast
qed

text \<open>
  C24: an installation is durable or has no effect on disk. On a file system that keeps its documented
  promises and with a decoder that inverts the encoder on the new mapping, adding a package that succeeds leaves a
  mapping file that decodes to the profile with the package bound; when it fails, at whichever
  step, the mapping file still has the contents it had: it is never half written.
\<close>

theorem add_package_durable:
  assumes "file_laws fs"
    and "pm' = pm_add (pf_now fs (ps_world ps)) n path (case ps_get profile ps of Some pm \<Rightarrow> pm | None \<Rightarrow> empty_mapping)"
    and "pf_decode fs (pf_encode fs pm') = Some pm'"
    and "add_package fs profile n path ps = (r, ps')"
  shows "if r = Inr () then
      \<exists>s pm. content fs (mapping_file ps profile) (ps_world ps') = Inr s \<and> pf_decode fs s = Some pm
        \<and> pm_abs pm = (case ps_abs ps profile of Some m \<Rightarrow> m | None \<Rightarrow> Map.empty)(n \<mapsto> path)
    else content fs (mapping_file ps profile) (ps_world ps') = content fs (mapping_file ps profile) (ps_world ps)"
proof -
  obtain pm ps1 where gc: "get_or_create profile ps = (pm, ps1)" by (cases "get_or_create profile ps")
  have pm: "pm = (case ps_get profile ps of Some pm \<Rightarrow> pm | None \<Rightarrow> empty_mapping)"
    using gc by (auto simp: get_or_create_def Let_def ps_get_def bt_simps split: option.splits)
  then have pm': "pm' = pm_add (pf_now fs (ps_world ps)) n path pm" using assms(2) by simp
  let ?ps = "put_profile profile pm' ps1"
  have frame: "ps_world ?ps = ps_world ps" "mapping_file ?ps profile = mapping_file ps profile"
    using gc by (auto simp: get_or_create_def Let_def put_profile_def mapping_file_def)
  have "ps_get profile ?ps = Some pm'" by (simp add: ps_get_def put_profile_def bt_simps)
  from persist_content[OF assms(1) this, of r ps'] assms(4) frame
  have "content fs (mapping_file ps profile) (ps_world ps')
      = (if r = Inr () then Inr (pf_encode fs pm') else content fs (mapping_file ps profile) (ps_world ps))"
    by (simp add: add_package_def gc pm')
  then show ?thesis using assms(3) ps_abs_create(2)[OF gc] by (auto simp: pm' pm_abs_add)
qed

text \<open>A file system in memory, with a codec for mappings without time stamps.\<close>

definition mem_fs :: "(profile_mapping \<Rightarrow> string) \<Rightarrow> (string \<Rightarrow> profile_mapping option) \<Rightarrow> bool \<Rightarrow> (path_buf \<rightharpoonup> string) profile_fs" where
  "mem_fs enc dec writable =
     \<lparr>pf_is_dir = (\<lambda>_ _. True), pf_exists = (\<lambda>p w. w p \<noteq> None), pf_read_dir = (\<lambda>_. ret []),
      pf_read_to_string = (\<lambda>p w. (case w p of Some s \<Rightarrow> Inr s | None \<Rightarrow> Inl NotFound, w)),
      pf_create_dir_all = (\<lambda>_. if writable then ret () else fail PermissionDenied),
      pf_write = (\<lambda>p s w. if writable then (Inr (), w(p \<mapsto> s)) else (Inl PermissionDenied, w)),
      pf_rename = (\<lambda>p q w. if writable \<and> w p \<noteq> None then (Inr (), w(q := w p)) else (Inl NotFound, w)),
      pf_now = (\<lambda>_. 0), pf_encode = enc, pf_decode = dec, pf_decode_install = (\<lambda>_. None),
      pf_decode_command = (\<lambda>s. None), pf_encode_opt = (\<lambda>_. [])\<rparr>"

lemma mem_fs_laws: "file_laws (mem_fs enc dec b)"
  by (auto simp: file_laws_def mem_fs_def content_def ret_def fail_def)

definition sample_profiles :: "(path_buf \<rightharpoonup> string) profile_store" where
  "sample_profiles = \<lparr>ps_profiles = [], ps_dir = ''/p'', ps_world = Map.empty\<rparr>"

theorem add_package_durable_witness:
  "\<exists>s pm. content (mem_fs (\<lambda>_. ''m'') (\<lambda>_. Some (pm_add 0 ''rg'' ''/nix/store/x'' empty_mapping)) True) ''/p/default/mapping.json''
      (ps_world (snd (add_package (mem_fs (\<lambda>_. ''m'') (\<lambda>_. Some (pm_add 0 ''rg'' ''/nix/store/x'' empty_mapping)) True)
        ''default'' ''rg'' ''/nix/store/x'' sample_profiles))) = Inr s
    \<and> pm_abs pm = [''rg'' \<mapsto> ''/nix/store/x'']"
proof -
  let ?pm = "pm_add 0 ''rg'' ''/nix/store/x'' empty_mapping"
  let ?fs = "mem_fs (\<lambda>_. ''m'') (\<lambda>_. Some ?pm) True"
  obtain r ps' where a: "add_package ?fs ''default'' ''rg'' ''/nix/store/x'' sample_profiles = (r, ps')"
    by (cases "add_package ?fs ''default'' ''rg'' ''/nix/store/x'' sample_profiles")
  have pm: "?pm = pm_add (pf_now ?fs (ps_world sample_profiles)) ''rg'' ''/nix/store/x''
      (case ps_get ''default'' sample_profiles of Some pm \<Rightarrow> pm | None \<Rightarrow> empty_mapping)"
    by (simp add: mem_fs_def sample_profiles_def ps_get_def)
  have "r = Inr ()"
    using a by (auto simp: add_package_def get_or_create_def Let_def persist_def io_defs on_ps_world_def mem_fs_def
        sample_profiles_def ps_get_def put_profile_def bt_simps)
  moreover have "mapping_file sample_profiles ''default'' = ''/p/default/mapping.json''" "ps_abs sample_profiles ''default'' = None"
    by (simp_all add: mapping_file_def sample_profiles_def path_join_def ps_abs_def ps_get_def)
  ultimately show ?thesis
    using add_package_durable[OF mem_fs_laws pm _ a] a by (auto simp: mem_fs_def)
qed

end
