(* ===== verification/Profile_Scheme.thy ===== *)
theory Profile_Scheme
  imports Profile_Mapping Store_Daemon
begin

text \<open>
  The profile daemon: its handle table (\<^verbatim>\<open>profiled/handles.rs\<close>), its state and start-up
  (\<^verbatim>\<open>profiled/mod.rs\<close>) and the scheme handlers (\<^verbatim>\<open>profiled/scheme.rs\<close>). As for the store daemon a request
  that does not return is \<open>None\<close>, and an opened handle is its number.
\<close>

section \<open>Handles and state\<close>

record profile_file =
  ph_content :: "bytes option"
  ph_real_path :: path_buf
  ph_scheme_path :: string
  ph_size :: u64
  ph_executable :: bool

record profile_dir =
  pdh_scheme_path :: string
  pdh_profile_name :: string
  pdh_subpath :: string

record profile_control =
  pch_profile_name :: string
  pch_scheme_path :: string
  pch_buffer :: bytes

datatype profile_handle = PFile profile_file | PDir profile_dir | PControl profile_control

record profiled_config =
  profiles_dir :: string
  pc_store_dir :: string

definition default_profiled_config :: profiled_config where
  "default_profiled_config = \<lparr>profiles_dir = ''/nix/var/snix/profiles'', pc_store_dir = ''/nix/store''\<rparr>"

record 'w profile_daemon =
  pd_next_id :: usize
  pd_handles :: "usize \<rightharpoonup> profile_handle"
  pd_profiles :: "'w profile_store"
  pd_config :: profiled_config
  pd_manifests :: manifest_cache

definition profile_put :: "usize \<Rightarrow> profile_handle \<Rightarrow> 'w profile_daemon \<Rightarrow> 'w profile_daemon" where
  "profile_put i x d = d\<lparr>pd_handles := (pd_handles d)(i \<mapsto> x)\<rparr>"

definition profile_alloc_id :: "'w profile_daemon \<Rightarrow> (usize \<times> 'w profile_daemon) option" where
  "profile_alloc_id d =
     map_option (\<lambda>(hid, n). (hid, d\<lparr>pd_next_id := n\<rparr>))
       (alloc_loop (\<lambda>i. pd_handles d i \<noteq> None) (pd_next_id d))"

interpretation pfh: handle_table pd_handles pd_next_id "\<lambda>n d. d\<lparr>pd_next_id := n\<rparr>" profile_put profile_alloc_id
  by unfold_locales (simp_all add: profile_alloc_id_def profile_put_def)

definition profile_open :: "profile_handle \<Rightarrow> ('w profile_daemon, usize) pio" where
  "profile_open x d = map_option (\<lambda>(hid, d'). (Inr hid, profile_put hid x d')) (profile_alloc_id d)"

definition profile_open_file_lazy ::
  "path_buf \<Rightarrow> string \<Rightarrow> u64 \<Rightarrow> bool \<Rightarrow> ('w profile_daemon, usize) pio" where
  "profile_open_file_lazy real_path sp sz exec =
     profile_open (PFile \<lparr>ph_content = None, ph_real_path = real_path, ph_scheme_path = sp,
                          ph_size = sz, ph_executable = exec\<rparr>)"

text \<open>The eager variant reads the file first; \<open>read_file\<close> is the direct read.\<close>

definition profile_open_file ::
  "(path_buf \<Rightarrow> ('w, io_kind, bytes) eio) \<Rightarrow> path_buf \<Rightarrow> string \<Rightarrow> 'w profile_daemon
   \<Rightarrow> ((io_kind + usize) \<times> 'w profile_daemon) option" where
  "profile_open_file read_file real_path sp d =
     (case read_file real_path (ps_world (pd_profiles d)) of
        (Inl e, w) \<Rightarrow> Some (Inl e, d\<lparr>pd_profiles := (pd_profiles d)\<lparr>ps_world := w\<rparr>\<rparr>)
      | (Inr data, w) \<Rightarrow>
          map_option (\<lambda>(hid, d'). (Inr hid, profile_put hid
              (PFile \<lparr>ph_content = Some data, ph_real_path = real_path, ph_scheme_path = sp,
                      ph_size = of_nat (length data), ph_executable = False\<rparr>) d'))
            (profile_alloc_id (d\<lparr>pd_profiles := (pd_profiles d)\<lparr>ps_world := w\<rparr>\<rparr>)))"

definition profile_open_dir :: "string \<Rightarrow> string \<Rightarrow> string \<Rightarrow> ('w profile_daemon, usize) pio" where
  "profile_open_dir sp profile_name subpath =
     profile_open (PDir \<lparr>pdh_scheme_path = sp, pdh_profile_name = profile_name, pdh_subpath = subpath\<rparr>)"

definition profile_open_control :: "string \<Rightarrow> string \<Rightarrow> ('w profile_daemon, usize) pio" where
  "profile_open_control profile_name sp =
     profile_open (PControl \<lparr>pch_profile_name = profile_name, pch_scheme_path = sp, pch_buffer = []\<rparr>)"

definition profile_table_read ::
  "(path_buf \<Rightarrow> ('w, io_kind, bytes) eio) \<Rightarrow> usize \<Rightarrow> usize \<Rightarrow> u64 \<Rightarrow> ('w profile_daemon, io_kind, bytes) eio" where
  "profile_table_read preload hid buf_len offset = (\<lambda>d.
     case pd_handles d hid of
       Some (PFile fh) \<Rightarrow>
         (case ph_content fh of
            Some data \<Rightarrow> (Inr (serve_content data offset buf_len), d)
          | None \<Rightarrow>
              (case preload (ph_real_path fh) (ps_world (pd_profiles d)) of
                 (Inl e, w) \<Rightarrow> (Inl e, d\<lparr>pd_profiles := (pd_profiles d)\<lparr>ps_world := w\<rparr>\<rparr>)
               | (Inr data, w) \<Rightarrow>
                   (Inr (serve_content data offset buf_len),
                    profile_put hid (PFile (fh\<lparr>ph_size := of_nat (length data), ph_content := Some data\<rparr>))
                      (d\<lparr>pd_profiles := (pd_profiles d)\<lparr>ps_world := w\<rparr>\<rparr>))))
     | Some _ \<Rightarrow> (Inl InvalidInput, d)
     | None \<Rightarrow> (Inl NotFound, d))"

definition profile_table_write :: "usize \<Rightarrow> bytes \<Rightarrow> ('w profile_daemon, io_kind, usize) eio" where
  "profile_table_write hid data = (\<lambda>d.
     case pd_handles d hid of
       Some (PControl ch) \<Rightarrow>
         (Inr (of_nat (length data)), profile_put hid (PControl (ch\<lparr>pch_buffer := pch_buffer ch @ data\<rparr>)) d)
     | Some _ \<Rightarrow> (Inl PermissionDenied, d)
     | None \<Rightarrow> (Inl NotFound, d))"

fun profile_handle_path :: "profile_handle \<Rightarrow> string" where
  "profile_handle_path (PFile fh) = ph_scheme_path fh"
| "profile_handle_path (PDir dh) = pdh_scheme_path dh"
| "profile_handle_path (PControl ch) = pch_scheme_path ch"

definition profile_file_size :: "'w profile_daemon \<Rightarrow> usize \<Rightarrow> u64 option" where
  "profile_file_size d hid =
     (case pd_handles d hid of Some (PFile fh) \<Rightarrow> Some (ph_size fh) | Some _ \<Rightarrow> Some 0 | None \<Rightarrow> None)"

definition profile_close :: "usize \<Rightarrow> 'w profile_daemon \<Rightarrow> profile_handle option \<times> 'w profile_daemon" where
  "profile_close hid d = (pd_handles d hid, d\<lparr>pd_handles := (pd_handles d)(hid := None)\<rparr>)"

section \<open>Start-up\<close>

definition load_pkg_manifest ::
  "(string \<Rightarrow> path_info option) \<Rightarrow> profile_entry \<Rightarrow> manifest_cache \<Rightarrow> manifest_cache" where
  "load_pkg_manifest db_get pkg mc =
     (if bt_get mc (pe_store_path pkg) \<noteq> None then mc
      else (case db_get (pe_store_path pkg) of
        None \<Rightarrow> mc
      | Some info \<Rightarrow> if pi_files info \<noteq> [] then bt_insert (pe_store_path pkg) (pi_files info) mc else mc))"

definition new_profile_daemon ::
  "'w profile_fs \<Rightarrow> ('w, 'x) db_fs_scheme \<Rightarrow> profiled_config \<Rightarrow> 'w \<Rightarrow> profile_error + 'w profile_daemon" where
  "new_profile_daemon fs dbfs config w =
     (case load_profiles fs (profiles_dir config) w of
        Inl e \<Rightarrow> Inl e
      | Inr profiles \<Rightarrow>
          (case pdb_open dbfs (ps_world profiles) of
             (Inl e, _) \<Rightarrow> Inl (PIo e)
           | (Inr db, w1) \<Rightarrow>
               let known = (\<lambda>p. case pdb_get dbfs db p w1 of Inr info \<Rightarrow> info | Inl _ \<Rightarrow> None) in
               Inr \<lparr>pd_next_id = 1, pd_handles = Map.empty, pd_profiles = profiles\<lparr>ps_world := w1\<rparr>, pd_config = config,
                    pd_manifests = fold (\<lambda>name mc.
                      case ps_get name profiles of
                        None \<Rightarrow> mc
                      | Some pm \<Rightarrow> fold (load_pkg_manifest known) (pm_packages pm) mc)
                      (list_profiles profiles) []\<rparr>))"

section \<open>Requests\<close>

definition profile_parse_path :: "string \<Rightarrow> string option \<times> string" where
  "profile_parse_path path0 =
     (let path = trim_matches slash path0 in
      if path = [] then (None, [])
      else (case find_char slash path of
        Some pos \<Rightarrow> (Some (take pos path), drop (pos + 1) path)
      | None \<Rightarrow> (Some path, [])))"

definition profile_scheme_root :: "('w profile_daemon, usize) pio" where
  "profile_scheme_root = profile_open_dir [] [] []"

definition file_in_pkg :: "manifest_cache \<Rightarrow> string \<Rightarrow> profile_entry \<Rightarrow> (path_buf \<times> u64 \<times> bool) option" where
  "file_in_pkg mc subpath pkg =
     (case bt_get mc (pe_store_path pkg) of
        None \<Rightarrow> None
      | Some manifest \<Rightarrow>
          map_option (\<lambda>e. (path_join (pe_store_path pkg) subpath, me_size e, me_executable e))
            (find (\<lambda>e. me_path e = subpath \<and> me_type e = ''file'') manifest))"

fun first_some :: "('a \<Rightarrow> 'b option) \<Rightarrow> 'a list \<Rightarrow> 'b option" where
  "first_some f [] = None"
| "first_some f (x # xs) = (case f x of Some y \<Rightarrow> Some y | None \<Rightarrow> first_some f xs)"

definition profile_openat :: "string \<Rightarrow> usize \<Rightarrow> ('w profile_daemon, usize) pio" where
  "profile_openat path0 flags d =
     (let path = trim_matches slash path0 in
      case profile_parse_path path of
        (None, _) \<Rightarrow> profile_open_dir [] [] [] d
      | (Some name, subpath) \<Rightarrow>
          if subpath = ''.control'' then profile_open_control name path d
          else if subpath = [] \<or> flags AND O_DIRECTORY \<noteq> 0 then profile_open_dir path name subpath d
          else (case ps_get name (pd_profiles d) of
            None \<Rightarrow> Some (Inl ENOENT, d)
          | Some pm \<Rightarrow>
              if list_union_from_manifests subpath (pd_manifests d) pm \<noteq> [] then profile_open_dir path name subpath d
              else (case first_some (file_in_pkg (pd_manifests d) subpath) (rev (pm_packages pm)) of
                None \<Rightarrow> Some (Inl ENOENT, d)
              | Some (full_path, sz, exec) \<Rightarrow> profile_open_file_lazy full_path path sz exec d)))"

definition profile_read ::
  "(path_buf \<Rightarrow> ('w, io_kind, bytes) eio) \<Rightarrow> usize \<Rightarrow> usize \<Rightarrow> u64 \<Rightarrow> ('w profile_daemon, bytes) io" where
  "profile_read preload hid buf_len offset = map_err (\<lambda>_. EBADF) (profile_table_read preload hid buf_len offset)"

definition profile_write :: "usize \<Rightarrow> bytes \<Rightarrow> ('w profile_daemon, usize) io" where
  "profile_write hid buf = map_err (\<lambda>_. EACCES) (profile_table_write hid buf)"

definition profile_fsize :: "usize \<Rightarrow> ('w profile_daemon, u64) io" where
  "profile_fsize hid = (\<lambda>d. (case profile_file_size d hid of Some n \<Rightarrow> Inr n | None \<Rightarrow> Inl EBADF, d))"

definition profile_fpath :: "usize \<Rightarrow> usize \<Rightarrow> ('w profile_daemon, string) io" where
  "profile_fpath hid buf_len = (\<lambda>d.
     case pd_handles d hid of
       None \<Rightarrow> (Inl EBADF, d)
     | Some h \<Rightarrow>
         let p = profile_handle_path h;
             full = (if p = [] then ''/scheme/profile'' else ''/scheme/profile/'' @ p)
         in (Inr (take (min (length full) (unat buf_len)) full), d))"

definition profile_fevent :: "usize \<Rightarrow> ('w profile_daemon, event_flags) io" where
  "profile_fevent hid = (\<lambda>d.
     case pd_handles d hid of
       Some (PControl _) \<Rightarrow> (Inr \<lparr>EVENT_READ = False, EVENT_WRITE = True\<rparr>, d)
     | Some _ \<Rightarrow> (Inr \<lparr>EVENT_READ = True, EVENT_WRITE = False\<rparr>, d)
     | None \<Rightarrow> (Inl EBADF, d))"

definition profile_fstat :: "usize \<Rightarrow> stat \<Rightarrow> ('w profile_daemon, stat) io" where
  "profile_fstat hid st = (\<lambda>d.
     case pd_handles d hid of
       Some (PFile fh) \<Rightarrow>
         (Inr (st\<lparr>st_size := ph_size fh, st_mode := (if ph_executable fh then 0x816D else 0x8124), st_nlink := 1\<rparr>), d)
     | Some (PDir _) \<Rightarrow> (Inr (st\<lparr>st_mode := 0x416D, st_size := 0\<rparr>), d)
     | Some (PControl _) \<Rightarrow> (Inr (st\<lparr>st_mode := 0x8092, st_size := 0\<rparr>), d)
     | None \<Rightarrow> (Inl EBADF, d))"

definition union_kind :: "union_entry \<Rightarrow> string \<times> dirent_kind" where
  "union_kind e = (ue_name e, if ue_is_dir e then Directory else if ue_is_symlink e then Symlink else Regular)"

definition root_kind :: "union_entry \<Rightarrow> string \<times> dirent_kind" where
  "root_kind e = (ue_name e, if ue_is_dir e then Directory else Regular)"

text \<open>The listing of a profile's root is followed by \<^verbatim>\<open>.control\<close>, whether or not it was complete.\<close>

definition push_control :: "('b \<Rightarrow> dirent \<Rightarrow> 'b option) \<Rightarrow> u64 \<Rightarrow> nat \<Rightarrow> 'b \<Rightarrow> 'b" where
  "push_control push start ctrl_idx buf =
     (if unat start \<le> ctrl_idx then
        (case push buf (mk_dirent ctrl_idx (''.control'', Regular)) of Some buf' \<Rightarrow> buf' | None \<Rightarrow> buf)
      else buf)"

definition profile_getdents ::
  "('b \<Rightarrow> dirent \<Rightarrow> 'b option) \<Rightarrow> usize \<Rightarrow> 'b \<Rightarrow> u64 \<Rightarrow> ('w profile_daemon, 'b) io" where
  "profile_getdents push hid buf start = (\<lambda>d.
     case pd_handles d hid of
       None \<Rightarrow> (Inl EBADF, d)
     | Some (PDir dh) \<Rightarrow>
         if pdh_profile_name dh = [] then
           (Inr (list_entries push buf start (map (\<lambda>n. (n, Directory)) (list_profiles (pd_profiles d)))), d)
         else (case ps_get (pdh_profile_name dh) (pd_profiles d) of
           None \<Rightarrow> (Inr buf, d)
         | Some pm \<Rightarrow>
             if pdh_subpath dh = [] then
               let entries = list_union_from_manifests [] (pd_manifests d) pm in
               (Inr (push_control push start (length entries)
                      (list_entries push buf start (map root_kind entries))), d)
             else
               (Inr (list_entries push buf start
                      (map union_kind (list_union_from_manifests (pdh_subpath dh) (pd_manifests d) pm))), d))
     | Some _ \<Rightarrow> (Inl ENOTDIR, d))"

text \<open>\<open>text_of\<close> is the lossy UTF-8 decoding of the buffer.\<close>

definition profile_on_close ::
  "'w profile_fs \<Rightarrow> (bytes \<Rightarrow> string) \<Rightarrow> usize \<Rightarrow> 'w profile_daemon \<Rightarrow> 'w profile_daemon" where
  "profile_on_close fs text_of hid d =
     (case profile_close hid d of
        (Some (PControl ch), d1) \<Rightarrow>
          if pch_buffer ch \<noteq> [] then
            (case process_control fs (pch_profile_name ch) (text_of (pch_buffer ch)) (pd_profiles d1) of
               (Inr (msg, files), ps) \<Rightarrow>
                 let d2 = d1\<lparr>pd_profiles := ps\<rparr> in
                 (case files of
                    Some (store_path, manifest) \<Rightarrow>
                      d2\<lparr>pd_manifests := bt_insert store_path manifest (pd_manifests d2)\<rparr>
                  | None \<Rightarrow> d2)
             | (Inl e, ps) \<Rightarrow> d1\<lparr>pd_profiles := ps\<rparr>)
          else d1
      | (_, d1) \<Rightarrow> d1)"

section \<open>What a listing shows and what opens\<close>

lemma Direct_iff: "child_of pre p = Direct n \<longleftrightarrow> p = pre @ n \<and> n \<noteq> [] \<and> slash \<notin> set n"
proof -
  have rel: "rel_below pre p = Some r \<longleftrightarrow> p = pre @ r" for r
    by (cases "pre = []") (auto simp: rel_below_def strip_prefix_Some_iff)
  have "child_of pre p = Direct n \<longleftrightarrow> rel_below pre p = Some n \<and> find_char slash n = None \<and> n \<noteq> []"
    by (cases "rel_below pre p") (auto simp: child_of_def split: option.splits if_splits)
  then show ?thesis by (auto simp: rel find_char_None_iff)
qed

lemma list_union_eq:
  "list_union_from_manifests subpath mc pm
   = sort_key ue_name (bt_values (fold (union_step (dir_prefix subpath)) (profile_files mc (pm_packages pm)) []))"
  by (simp add: list_union_from_manifests_def union_walk)

lemma find_map_Pair: "find P (map (Pair k) xs) = map_option (Pair k) (find (\<lambda>x. P (k, x)) xs)"
  by (induction xs) auto

lemma find_None_mono: "find P xs = None \<Longrightarrow> (\<And>x. Q x \<Longrightarrow> P x) \<Longrightarrow> find Q xs = None"
  by (induction xs) (auto split: if_splits)

text \<open>With distinct paths in a manifest the last entry for a path is the first.\<close>

lemma find_unique:
  assumes "distinct (map me_path m)" "e \<in> set m" "P e" "\<And>x. P x \<Longrightarrow> me_path x = me_path e"
  shows "find P m = Some e"
  using assms
proof (induction m)
  case (Cons y ys)
  show ?case
  proof (cases "P y")
    case True
    then have "me_path y = me_path e" using Cons.prems(4) by blast
    then have "e = y" using Cons.prems(1,2) by (auto simp: image_iff)
    then show ?thesis using True by simp
  next
    case False
    then have "e \<noteq> y" using Cons.prems(3) by blast
    then have "e \<in> set ys" "distinct (map me_path ys)" using Cons.prems(1,2) by simp_all
    from Cons.IH[OF this(2,1) Cons.prems(3,4)] show ?thesis using False by simp
  qed
qed simp

definition manifests_distinct :: "manifest_cache \<Rightarrow> bool" where
  "manifests_distinct mc \<longleftrightarrow> (\<forall>sp m. bt_get mc sp = Some m \<longrightarrow> distinct (map me_path m))"

lemma last_file_opens:
  assumes "manifests_distinct mc"
    and "find (\<lambda>x. me_path (snd x) = p) (rev (profile_files mc pkgs)) = Some (pkg, e)" "me_type e = ''file''"
  shows "pkg \<in> set pkgs
    \<and> first_some (file_in_pkg mc p) (rev pkgs) = Some (path_join (pe_store_path pkg) p, me_size e, me_executable e)"
  using assms(2)
proof (induction pkgs rule: rev_induct)
  case Nil
  then show ?case by (simp add: profile_files_def)
next
  case (snoc q qs)
  let ?m = "case bt_get mc (pe_store_path q) of Some m \<Rightarrow> m | None \<Rightarrow> []"
  have "profile_files mc (qs @ [q]) = profile_files mc qs @ map (Pair q) ?m" by (simp add: profile_files_def)
  then have fnd: "(case map_option (Pair q) (find (\<lambda>x. me_path x = p) (rev ?m)) of Some y \<Rightarrow> Some y
      | None \<Rightarrow> find (\<lambda>x. me_path (snd x) = p) (rev (profile_files mc qs))) = Some (pkg, e)"
    using snoc.prems by (simp add: find_append rev_map find_map_Pair)
  show ?case
  proof (cases "find (\<lambda>x. me_path x = p) (rev ?m)")
    case None
    then have "find (\<lambda>x. me_path x = p \<and> me_type x = ''file'') ?m = None"
      by (auto simp: find_None_iff)
    then have "file_in_pkg mc p q = None" by (auto simp: file_in_pkg_def split: option.splits)
    with None fnd snoc.IH show ?thesis by simp
  next
    case (Some y)
    with fnd have y: "q = pkg" "y = e" by simp_all
    obtain m where m: "bt_get mc (pe_store_path q) = Some m" using Some by (auto split: option.splits)
    have e: "me_path e = p" "e \<in> set m" using find_SomeD[OF Some] y m by auto
    have "find (\<lambda>x. me_path x = p \<and> me_type x = ''file'') m = Some e"
      by (rule find_unique) (use assms(1,3) m e in \<open>auto simp: manifests_distinct_def\<close>)
    then show ?thesis using y m by (simp add: file_in_pkg_def)
  qed
qed

lemma parse_profile_path:
  assumes "slash \<notin> set profile" "profile \<noteq> []" "sub \<noteq> []" "last sub \<noteq> slash"
  shows "trim_matches slash (profile @ slash # sub) = profile @ slash # sub"
    and "profile_parse_path (profile @ slash # sub) = (Some profile, sub)"
proof -
  have "hd profile \<noteq> slash" using assms(1,2) by (metis list.set_sel(1))
  then show t: "trim_matches slash (profile @ slash # sub) = profile @ slash # sub"
    using assms by (intro trim_matches_id) (auto simp: hd_append)
  then show "profile_parse_path (profile @ slash # sub) = (Some profile, sub)"
    using assms find_char_append[OF assms(1), of sub] by (simp add: profile_parse_path_def)
qed

lemma profile_open_total:
  assumes "card (dom (pd_handles d)) < unat MAX_HANDLE_ID"
  obtains hid d' where "profile_open x d = Some (Inr hid, d')" "pd_handles d' hid = Some x"
  using pfh.alloc_total[OF assms] by (auto simp: profile_open_def profile_put_def)

text \<open>A listed name that is not a directory stands for the last entry of exactly that path.\<close>

lemma listed_direct:
  assumes "ul.value_at pre files n = Some e" "\<not> ue_is_dir e"
  obtains x where "find (\<lambda>x. child_of pre (me_path (snd x)) = Direct n) (rev files) = Some x"
    "ue_is_dir e = (me_type (snd x) = ''dir'')" "ue_is_symlink e = (me_type (snd x) = ''symlink'')"
    "ue_from_package e = pe_name (fst x)"
  using assms by (auto simp: ul.value_at_def split: option.splits)

section \<open>Properties\<close>


definition sample_profile_daemon :: "manifest_entry list \<Rightarrow> (path_buf \<rightharpoonup> string) profile_daemon" where
  "sample_profile_daemon man =
     \<lparr>pd_next_id = 1, pd_handles = Map.empty,
      pd_profiles = \<lparr>ps_profiles = [(''default'', pm_add 0 ''rg'' ''/nix/store/x'' empty_mapping)], ps_dir = ''/p'', ps_world = Map.empty\<rparr>,
      pd_config = default_profiled_config, pd_manifests = [(''/nix/store/x'', man)]\<rparr>"

definition file_entry :: "string \<Rightarrow> manifest_entry" where
  "file_entry p = \<lparr>me_path = p, me_type = ''file'', me_size = 3, me_executable = True\<rparr>"

lemmas sample_profile_defs = sample_profile_daemon_def file_entry_def ps_get_def bt_get_def pm_add_def empty_mapping_def


text \<open>
  The listing of a profile's root can lose entries. When a page is full before the last entry, the
  synthetic \<^verbatim>\<open>.control\<close> record is still appended if it fits, with the offset after the whole
  listing; a client that resumes from the last record then gets nothing more. Here a buffer that takes each
  single record delivers \<^verbatim>\<open>a\<close> and \<^verbatim>\<open>.control\<close> and never the third name.
\<close>

definition page_push :: "dirent list \<Rightarrow> dirent \<Rightarrow> dirent list option" where
  "page_push b d = (if sum_list (map (\<lambda>x. 20 + length (d_name x)) (b @ [d])) \<le> 60 then Some (b @ [d]) else None)"

definition sample_root_dir :: "(path_buf \<rightharpoonup> string) profile_daemon" where
  "sample_root_dir = profile_put 1 (PDir \<lparr>pdh_scheme_path = ''default'', pdh_profile_name = ''default'', pdh_subpath = []\<rparr>)
     (sample_profile_daemon [file_entry ''a'', file_entry ''very-long-file-name-'', file_entry ''z''])"

theorem root_listing_loses_entries:
  "(\<exists>page. fst (profile_getdents page_push 1 [] 0 sample_root_dir) = Inr page
      \<and> map d_name page = [''a'', ''.control''] \<and> d_next_opaque_id (last page) = 4)
   \<and> fst (profile_getdents page_push 1 [] 4 sample_root_dir) = Inr []
   \<and> map ue_name (list_union_from_manifests [] (pd_manifests sample_root_dir)
        (pm_add 0 ''rg'' ''/nix/store/x'' empty_mapping)) = [''a'', ''very-long-file-name-'', ''z'']"
proof (intro conjI)
  show "\<exists>page. fst (profile_getdents page_push 1 [] 0 sample_root_dir) = Inr page
      \<and> map d_name page = [''a'', ''.control''] \<and> d_next_opaque_id (last page) = 4"
    by (intro exI[of _ "[mk_dirent 0 (''a'', Regular), mk_dirent 3 (''.control'', Regular)]"] conjI; code_simp)
qed code_simp+

text \<open>
  A package whose mapping cannot be written is installed but invisible. If the file system refuses, as it does
  once the daemon has given up its namespace, an \<^verbatim>\<open>add\<close> command still binds the package in
  memory, but the manifest that came with the command is thrown away, so no listing shows it.
\<close>

theorem add_without_disk_hides_files:
  assumes "\<And>p w. \<exists>e. fst (pf_create_dir_all fs p w) = Inl e"
    and "pd_handles d hid = Some (PControl ch)" "pch_buffer ch \<noteq> []"
    and "pf_decode_command fs (text_of (pch_buffer ch)) = Some cmd" "cc_action cmd = ''add''" "cc_store_path cmd = Some path"
  shows "pd_manifests (profile_on_close fs text_of hid d) = pd_manifests d
    \<and> map_option (\<lambda>m. m (cc_name cmd)) (ps_abs (pd_profiles (profile_on_close fs text_of hid d)) (pch_profile_name ch)) = Some (Some path)"
proof -
  let ?prof = "pch_profile_name ch" and ?d1 = "d\<lparr>pd_handles := (pd_handles d)(hid := None)\<rparr>"
  let ?pc = "process_control fs ?prof (text_of (pch_buffer ch)) (pd_profiles d)"
  have persist_fails: "\<exists>e. fst (persist fs ?prof ps) = Inl e" for ps
    using assms(1)[of "path_join (ps_dir ps) ?prof" "ps_world ps"]
    by (auto simp: persist_def io_defs on_ps_world_def Let_def split: option.splits prod.splits sum.splits)
  then have add_fails: "\<exists>e. fst (add_package fs ?prof (cc_name cmd) path ps) = Inl e" for ps
    by (simp add: add_package_def split: prod.split)
  have abs: "ps_abs (snd ?pc) = spec_control cmd ?prof (ps_abs (pd_profiles d))"
    using assms(4) by (simp add: process_control_abs del: spec_control.simps)
  obtain e ps where ap: "add_package fs ?prof (cc_name cmd) path (pd_profiles d) = (Inl e, ps)"
    using add_fails[of "pd_profiles d"] by (metis prod.collapse)
  then have e: "fst ?pc = Inl e"
    using assms(4-6) by (simp add: process_control_def io_defs)
  then have "profile_on_close fs text_of hid d = ?d1\<lparr>pd_profiles := snd ?pc\<rparr>"
    using assms(2,3) by (cases ?pc) (simp add: profile_on_close_def profile_close_def)
  then show ?thesis using abs assms(5,6) by simp
qed

theorem add_without_disk_hides_files_witness:
  "pd_manifests (profile_on_close ((mem_fs (\<lambda>_. []) (\<lambda>_. None) False)\<lparr>pf_decode_command := (\<lambda>_. Some
        \<lparr>cc_action = ''add'', cc_name = ''fd'', cc_store_path = Some ''/nix/store/y'', cc_files = [file_entry ''bin/fd'']\<rparr>)\<rparr>)
      (\<lambda>_. []) 1 (profile_put 1 (PControl \<lparr>pch_profile_name = ''default'', pch_scheme_path = ''default/.control'', pch_buffer = [123]\<rparr>)
        (sample_profile_daemon []))) = [(''/nix/store/x'', [])]"
proof -
  let ?fs = "(mem_fs (\<lambda>_. []) (\<lambda>_. None) False)\<lparr>pf_decode_command := (\<lambda>_. Some
        \<lparr>cc_action = ''add'', cc_name = ''fd'', cc_store_path = Some ''/nix/store/y'', cc_files = [file_entry ''bin/fd'']\<rparr>)\<rparr>"
  let ?ch = "\<lparr>pch_profile_name = ''default'', pch_scheme_path = ''default/.control'', pch_buffer = [123]\<rparr>"
  let ?d = "profile_put 1 (PControl ?ch) (sample_profile_daemon [])"
  have "\<exists>e. fst (pf_create_dir_all ?fs p w) = Inl e" for p w by (simp add: mem_fs_def fail_def)
  from add_without_disk_hides_files[OF this, of ?d 1 ?ch "\<lambda>_. []"] show ?thesis
    by (simp add: profile_put_def sample_profile_daemon_def)
qed

end
