(* ===== verification/System_Manifest.thy ===== *)
theory System_Manifest
  imports Path_Info
begin

text \<open>
  The system manifest (the schema at the head of \<^verbatim>\<open>snix-redox/src/system.rs\<close>), and the time stamps
  of generations: writing them and reading them back.
\<close>

section \<open>Schema\<close>

record generation_info =
  gi_id :: u32
  gi_build_hash :: string
  gi_description :: string
  gi_timestamp :: string

record generation_metadata =
  gm_id :: u32
  gm_description :: string
  gm_timestamp :: string

record system_info =
  si_redox_system_version :: string
  si_target :: string
  si_profile :: string
  si_hostname :: string
  si_timezone :: string

record boot_config =
  bc_disk_size_mb :: u32
  bc_esp_size_mb :: u32
  bc_boot_proof :: bool

record boot_components =
  bo_kernel :: "string option"
  bo_initfs :: "string option"
  bo_bootloader :: "string option"

record hardware_config =
  hw_storage_drivers :: "string list"
  hw_network_drivers :: "string list"
  hw_graphics_drivers :: "string list"
  hw_audio_drivers :: "string list"
  hw_usb_enabled :: bool

record networking_config =
  nc_enabled :: bool
  nc_mode :: string
  nc_dns :: "string list"

record graphics_config =
  gc_enabled :: bool
  gc_resolution :: string

record security_config =
  sc_protect_kernel_schemes :: bool
  sc_require_passwords :: bool
  sc_allow_remote_root :: bool

record logging_config =
  lc_log_level :: string
  lc_kernel_log_level :: string
  lc_log_to_file :: bool
  lc_max_log_size_mb :: u32

record power_config =
  pw_acpi_enabled :: bool
  pw_power_action :: string
  pw_reboot_on_panic :: bool

record sys_configuration =
  cf_boot :: boot_config
  cf_hardware :: hardware_config
  cf_networking :: networking_config
  cf_graphics :: graphics_config
  cf_security :: security_config
  cf_logging :: logging_config
  cf_power :: power_config

record sys_package =
  pk_name :: string
  pk_version :: string
  pk_store_path :: string

record sys_drivers =
  dr_all :: "string list"
  dr_initfs :: "string list"
  dr_core :: "string list"

record sys_user =
  us_uid :: u32
  us_gid :: u32
  us_home :: string
  us_shell :: string

record sys_group =
  gp_gid :: u32
  gp_members :: "string list"

record service_info =
  sv_description :: string
  sv_command :: string
  sv_svc_type :: string
  sv_args :: string
  sv_wanted_by :: string
  sv_environment :: "(string, string) btree"
  sv_after :: "string list"

record sys_services =
  ss_declared :: "(string, service_info) btree"
  ss_init_scripts :: "string list"
  ss_startup_script :: string

record activation_script =
  as_name :: string
  as_deps :: "string list"

record file_info =
  fi_blake3 :: string
  fi_size :: u64
  fi_mode :: string
  fi_text :: "string option"

record sys_manifest =
  sm_manifest_version :: u32
  sm_system :: system_info
  sm_generation :: generation_info
  sm_boot :: "boot_components option"
  sm_configuration :: sys_configuration
  sm_packages :: "sys_package list"
  sm_drivers :: sys_drivers
  sm_users :: "(string, sys_user) btree"
  sm_groups :: "(string, sys_group) btree"
  sm_services :: sys_services
  sm_activation_scripts :: "activation_script list"
  sm_files :: "(string, file_info) btree"
  sm_system_profile :: string
  sm_toplevel :: "string option"
  sm_etc_source :: "string option"

definition default_generation :: generation_info where
  "default_generation = \<lparr>gi_id = 1, gi_build_hash = [], gi_description = ''initial build'', gi_timestamp = []\<rparr>"

text \<open>An empty manifest; every field but the generation has its default value.\<close>

definition empty_system :: sys_manifest where
  "empty_system =
     \<lparr>sm_manifest_version = 0,
      sm_system = \<lparr>si_redox_system_version = [], si_target = [], si_profile = [], si_hostname = [], si_timezone = []\<rparr>,
      sm_generation = default_generation, sm_boot = None,
      sm_configuration =
        \<lparr>cf_boot = \<lparr>bc_disk_size_mb = 0, bc_esp_size_mb = 0, bc_boot_proof = False\<rparr>,
         cf_hardware = \<lparr>hw_storage_drivers = [], hw_network_drivers = [], hw_graphics_drivers = [],
           hw_audio_drivers = [], hw_usb_enabled = False\<rparr>,
         cf_networking = \<lparr>nc_enabled = False, nc_mode = [], nc_dns = []\<rparr>,
         cf_graphics = \<lparr>gc_enabled = False, gc_resolution = []\<rparr>,
         cf_security = \<lparr>sc_protect_kernel_schemes = False, sc_require_passwords = False, sc_allow_remote_root = False\<rparr>,
         cf_logging = \<lparr>lc_log_level = [], lc_kernel_log_level = [], lc_log_to_file = False, lc_max_log_size_mb = 0\<rparr>,
         cf_power = \<lparr>pw_acpi_enabled = False, pw_power_action = [], pw_reboot_on_panic = False\<rparr>\<rparr>,
      sm_packages = [], sm_drivers = \<lparr>dr_all = [], dr_initfs = [], dr_core = []\<rparr>, sm_users = [], sm_groups = [],
      sm_services = \<lparr>ss_declared = [], ss_init_scripts = [], ss_startup_script = []\<rparr>, sm_activation_scripts = [],
      sm_files = [], sm_system_profile = [], sm_toplevel = None, sm_etc_source = None\<rparr>"

section \<open>Numbers\<close>

text \<open>
  \<^verbatim>\<open>str::parse\<close> for unsigned numbers: an optional plus sign, then decimal digits, at least one;
  a value above the maximum is an error.
\<close>

definition digit :: "char \<Rightarrow> nat option" where
  "digit c = (if 48 \<le> byte_of c \<and> byte_of c \<le> 57 then Some (byte_of c - 48) else None)"

fun digits_value :: "nat \<Rightarrow> string \<Rightarrow> nat option" where
  "digits_value acc [] = Some acc"
| "digits_value acc (c # cs) = (case digit c of None \<Rightarrow> None | Some d \<Rightarrow> digits_value (acc * 10 + d) cs)"

definition parse_nat :: "nat \<Rightarrow> string \<Rightarrow> nat option" where
  "parse_nat limit s =
     (let ds = (if s \<noteq> [] \<and> hd s = CHR ''+'' then tl s else s) in
      if ds = [] then None
      else (case digits_value 0 ds of Some n \<Rightarrow> if n < limit then Some n else None | None \<Rightarrow> None))"

definition parse_u32 :: "string \<Rightarrow> u32 option" where
  "parse_u32 s = map_option of_nat (parse_nat (2 ^ 32) s)"

definition parse_u64 :: "string \<Rightarrow> u64 option" where
  "parse_u64 s = map_option of_nat (parse_nat (2 ^ 64) s)"

definition show_u32 :: "u32 \<Rightarrow> string" where
  "show_u32 n = decimal (unat n)"

section \<open>White space\<close>

text \<open>The UTF-8 encodings of the characters that \<^verbatim>\<open>char::is_whitespace\<close> accepts.\<close>

definition ws_encodings :: "string list" where
  "ws_encodings = map (map char_of) ([[9], [10], [11], [12], [13], [32], [194, 133], [194, 160], [225, 154, 128]]
     @ map (\<lambda>n. [226, 128, n]) [128, 129, 130, 131, 132, 133, 134, 135, 136, 137, 138, 168, 169, 175]
     @ [[226, 129, 159], [227, 128, 128 :: nat]])"

definition leading_ws :: "string \<Rightarrow> nat" where
  "leading_ws s = (case find (\<lambda>u. prefix u s) ws_encodings of Some u \<Rightarrow> length u | None \<Rightarrow> 0)"

definition trailing_ws :: "string \<Rightarrow> nat" where
  "trailing_ws s = (case find (\<lambda>u. suffix u s) ws_encodings of Some u \<Rightarrow> length u | None \<Rightarrow> 0)"

lemma ws_le: "leading_ws s \<le> length s" "trailing_ws s \<le> length s"
  by (auto simp: leading_ws_def trailing_ws_def prefix_length_le suffix_length_le split: option.splits dest!: find_SomeD)

function trim_ws_start :: "string \<Rightarrow> string" where
  "trim_ws_start s = (if leading_ws s = 0 then s else trim_ws_start (drop (leading_ws s) s))"
  by pat_completeness auto
termination
proof (relation "measure length")
  fix s assume "leading_ws s \<noteq> 0"
  then show "(drop (leading_ws s) s, s) \<in> measure length" using ws_le(1)[of s] by simp
qed simp

function trim_ws_end :: "string \<Rightarrow> string" where
  "trim_ws_end s = (if trailing_ws s = 0 then s else trim_ws_end (take (length s - trailing_ws s) s))"
  by pat_completeness auto
termination
proof (relation "measure length")
  fix s assume "trailing_ws s \<noteq> 0"
  then show "(take (length s - trailing_ws s) s, s) \<in> measure length" using ws_le(2)[of s] by simp
qed simp

declare trim_ws_start.simps [simp del] trim_ws_end.simps [simp del]

definition trim_ws :: "string \<Rightarrow> string" where
  "trim_ws s = trim_ws_end (trim_ws_start s)"

function split_ws :: "string \<Rightarrow> string \<Rightarrow> string list" where
  "split_ws word s =
     (if s = [] then (if word = [] then [] else [word])
      else if leading_ws s = 0 then split_ws (word @ [hd s]) (tl s)
      else (if word = [] then [] else [word]) @ split_ws [] (drop (leading_ws s) s))"
  by pat_completeness auto
termination
proof (relation "measure (\<lambda>(_, s). length s)")
  fix word s :: string assume "s \<noteq> []" "leading_ws s \<noteq> 0"
  then show "(([], drop (leading_ws s) s), word, s) \<in> measure (\<lambda>(_, s). length s)" using ws_le(1)[of s] by simp
qed (auto simp: length_greater_0_conv)

declare split_ws.simps [simp del]

section \<open>Time stamps\<close>

text \<open>
  Seconds since the epoch from a time stamp; \<open>None\<close> is a panic, when the month indexes past the
  table. Subtracting one from day 0 wraps, as in a release build.
\<close>

definition is_leap_year :: "nat \<Rightarrow> bool" where
  "is_leap_year y \<longleftrightarrow> (y mod 4 = 0 \<and> y mod 100 \<noteq> 0) \<or> y mod 400 = 0"

definition days_in_month :: "nat list" where
  "days_in_month = [0, 31, 28, 31, 30, 31, 30, 31, 31, 30, 31, 30, 31]"

definition year_days :: "nat \<Rightarrow> nat" where
  "year_days year = (\<Sum>y\<leftarrow>[1970..<year]. if is_leap_year y then 366 else 365)"

definition month_sum :: "nat \<Rightarrow> nat \<Rightarrow> nat" where
  "month_sum year month =
     (\<Sum>m\<leftarrow>[1..<month]. days_in_month ! m + (if m = 2 \<and> is_leap_year year then 1 else 0))"

definition num_or_0 :: "string \<Rightarrow> nat" where
  "num_or_0 s = (case parse_nat (2 ^ 64) s of Some n \<Rightarrow> n | None \<Rightarrow> 0)"

definition parse_timestamp_to_epoch :: "string \<Rightarrow> u64 option" where
  "parse_timestamp_to_epoch ts =
     (if length ts < 19 then Some 0
      else
        let parts = split_char (CHR ''T'') ts in
        if length parts \<noteq> 2 then Some 0
        else
          let date_parts = split_char (CHR ''-'') (parts ! 0);
              time_parts = split_char (CHR '':'') (trim_end_matches (CHR ''Z'') (parts ! 1)) in
          if length date_parts \<noteq> 3 \<or> length time_parts \<noteq> 3 then Some 0
          else
            let year = num_or_0 (date_parts ! 0); month = num_or_0 (date_parts ! 1); day = num_or_0 (date_parts ! 2);
                hour = num_or_0 (time_parts ! 0); minute = num_or_0 (time_parts ! 1); second = num_or_0 (time_parts ! 2)
            in if length days_in_month < month then None
               else
                 let total_days = of_nat (year_days year) + of_nat (month_sum year month) + (of_nat day - 1) in
                 Some (total_days * 86400 + of_nat hour * 3600 + of_nat minute * 60 + of_nat second))"

text \<open>The copies of the calendar functions in \<^verbatim>\<open>system.rs\<close>.\<close>

definition sys_days_to_date :: "nat \<Rightarrow> nat \<times> nat \<times> nat" where
  "sys_days_to_date days =
     (let z = days + 719468;
          era = z div 146097;
          doe = z - era * 146097;
          yoe = (doe - doe div 1460 + doe div 36524 - doe div 146096) div 365;
          y = yoe + era * 400;
          doy = doe - (365 * yoe + yoe div 4 - yoe div 100);
          mp = (5 * doy + 2) div 153;
          d = doy - (153 * mp + 2) div 5 + 1;
          m = (if mp < 10 then mp + 3 else mp - 9);
          y' = (if m \<le> 2 then y + 1 else y)
      in (y', m, d))"

definition sys_current_timestamp :: "u64 option \<Rightarrow> string" where
  "sys_current_timestamp secs =
     (case secs of
        None \<Rightarrow> []
      | Some s \<Rightarrow>
          let days = unat s div 86400;
              remaining = unat s mod 86400;
              hours = remaining div 3600;
              minutes = (remaining mod 3600) div 60;
              seconds = remaining mod 60
          in (case sys_days_to_date days of (year, month, day) \<Rightarrow>
               padded 4 year @ ''-'' @ padded 2 month @ ''-'' @ padded 2 day @ ''T''
               @ padded 2 hours @ '':'' @ padded 2 minutes @ '':'' @ padded 2 seconds @ ''Z''))"

lemma sys_days_to_date_eq: "sys_days_to_date = days_to_date"
  by (rule ext) (simp only: sys_days_to_date_def days_to_date_def year_of_era_def Let_def)

subsection \<open>Day numbers\<close>

definition valid_date :: "nat \<times> nat \<times> nat \<Rightarrow> bool" where
  "valid_date x = (case x of (y, m, d) \<Rightarrow> 1970 \<le> y \<and> 1 \<le> m \<and> m \<le> 12 \<and> 1 \<le> d \<and> d \<le> month_days y m)"

definition day_number :: "nat \<times> nat \<times> nat \<Rightarrow> nat" where
  "day_number x = (case x of (y, m, d) \<Rightarrow> year_days y + month_sum y m + d - 1)"

lemma is_leap_year_eq: "is_leap_year y = leap y"
  by (auto simp: is_leap_year_def leap_def)

lemma month_of: "1 \<le> m \<Longrightarrow> m \<le> 12 \<Longrightarrow> m \<in> {1, 2, 3, 4, 5, 6, 7, 8, 9, 10, 11, 12}" for m :: nat
  by simp presburger

lemma month_sum_Suc:
  assumes "1 \<le> m" "m \<le> 12"
  shows "month_sum y (m + 1) = month_sum y m + month_days y m"
proof -
  have "days_in_month ! m + (if m = 2 \<and> leap y then 1 else 0) = month_days y m"
    using month_of[OF assms] by (elim insertE emptyE) (simp_all add: days_in_month_def month_days_def)
  then show ?thesis using assms by (simp add: month_sum_def is_leap_year_eq)
qed

lemma month_sum_1: "month_sum y (Suc 0) = 0"
  by (simp add: month_sum_def)

lemma month_sum_13: "month_sum y 13 = (if leap y then 366 else 365)"
proof -
  have "[1..<13] = [1, 2, 3, 4, 5, 6, 7, 8, 9, 10, 11, 12 :: nat]" by (simp add: upt_rec_numeral upt_rec)
  then show ?thesis by (simp add: month_sum_def is_leap_year_eq days_in_month_def)
qed

lemma year_days_Suc: "1970 \<le> y \<Longrightarrow> year_days (y + 1) = year_days y + (if leap y then 366 else 365)"
  by (simp add: year_days_def is_leap_year_eq)

lemma day_number_next:
  assumes "valid_date x"
  shows "valid_date (next_day x) \<and> day_number (next_day x) = day_number x + 1"
proof -
  obtain y m d where x: "x = (y, m, d)" by (cases x)
  with assms have v: "1970 \<le> y" "1 \<le> m" "m \<le> 12" "1 \<le> d" "d \<le> month_days y m"
    by (simp_all add: valid_date_def)
  have pos: "1 \<le> month_days z k" for z k by (simp add: month_days_def)
  show ?thesis
  proof (cases "d < month_days y m")
    case True
    then show ?thesis using v by (simp add: x valid_date_def day_number_def)
  next
    case False
    then have d: "d = month_days y m" using v(5) by simp
    show ?thesis
    proof (cases "m < 12")
      case True
      obtain k where "month_days y m = Suc k" using pos[of y m] by (cases "month_days y m") auto
      then show ?thesis using True v d pos month_sum_Suc[OF v(2,3), of y] by (simp add: x valid_date_def day_number_def)
    next
      case False
      then have m: "m = 12" using v(3) by simp
      have "month_sum y 12 + month_days y 12 = (if leap y then 366 else 365)"
        using month_sum_Suc[of 12 y] month_sum_13[of y] by simp
      then show ?thesis using v d m pos year_days_Suc[OF v(1)] month_sum_1[of "y + 1"]
        by (auto simp: x valid_date_def day_number_def add.assoc split: if_splits)
    qed
  qed
qed

lemma day_number_days_to_date: "valid_date (days_to_date n) \<and> day_number (days_to_date n) = n"
proof (induction n)
  case 0
  then show ?case
    by (simp add: days_to_date_step[THEN conjunct1] valid_date_def day_number_def month_days_def year_days_def month_sum_1)
next
  case (Suc n)
  then show ?case using day_number_next[of "days_to_date n"] days_to_date_step[of n] by simp
qed

lemma year_days_bound: "1970 \<le> y \<Longrightarrow> 365 * (y - 1970) \<le> year_days y"
proof (induction y rule: dec_induct)
  case (step z)
  then show ?case using year_days_Suc[of z] by (auto simp: Suc_diff_le split: if_splits)
qed (simp add: year_days_def)

subsection \<open>Printed numbers\<close>

lemma byte_of_digit: "k < 10 \<Longrightarrow> byte_of (char_of (48 + k)) = 48 + k" for k :: nat
  by (simp add: byte_of_def)

lemma digit_char: "k < 10 \<Longrightarrow> digit (char_of (48 + k)) = Some k"
  by (simp add: digit_def byte_of_digit)

lemma digits_value_append:
  "digits_value acc (xs @ ys) = (case digits_value acc xs of Some n \<Rightarrow> digits_value n ys | None \<Rightarrow> None)"
  by (induction xs arbitrary: acc) (auto split: option.split)

lemma digits_decimal: "digits_value 0 (decimal n) = Some n"
proof (induction n rule: less_induct)
  case (less n)
  show ?case
  proof (cases "n < 10")
    case True
    then show ?thesis by (simp add: decimal.simps[of n] digit_char)
  next
    case False
    then have "digits_value 0 (decimal (n div 10)) = Some (n div 10)" by (intro less.IH) simp
    moreover have "digit (char_of (48 + n mod 10)) = Some (n mod 10)" by (rule digit_char) simp
    ultimately show ?thesis using False by (simp add: decimal.simps[of n] digits_value_append)
  qed
qed

lemma digits_zeros: "digits_value 0 (replicate k (CHR ''0'') @ s) = digits_value 0 s"
  by (induction k) (simp_all add: digit_def byte_of_def)

lemma decimal_digits: "c \<in> set (decimal n) \<Longrightarrow> digit c \<noteq> None"
proof (induction n rule: less_induct)
  case (less n)
  have "digit (char_of (48 + n mod 10)) \<noteq> None" using digit_char[of "n mod 10"] by simp
  then show ?case
    using less.prems less.IH[of "n div 10"] by (cases "n < 10") (auto simp: decimal.simps[of n] digit_char)
qed

lemma decimal_ne: "decimal n \<noteq> []"
  by (simp add: decimal.simps[of n])

lemma padded_digits: "c \<in> set (padded w n) \<Longrightarrow> digit c \<noteq> None"
  by (auto simp: padded_def Let_def dest: decimal_digits) (simp_all add: digit_def byte_of_def split: if_splits)

lemma padded_length: "w \<le> length (padded w n)"
  by (simp add: padded_def Let_def)

lemma num_or_0_padded:
  assumes "n < 2 ^ 64"
  shows "num_or_0 (padded w n) = n"
proof -
  have "digit (CHR ''+'') = None" by (simp add: digit_def byte_of_def)
  then have "padded w n \<noteq> [] \<longrightarrow> hd (padded w n) \<noteq> CHR ''+''"
    using padded_digits[of "hd (padded w n)" w n] by (metis list.set_sel(1))
  moreover have "padded w n \<noteq> []" by (simp add: padded_def Let_def decimal_ne)
  moreover have "digits_value 0 (padded w n) = Some n" by (simp add: padded_def Let_def digits_zeros digits_decimal)
  ultimately show ?thesis using assms by (simp add: num_or_0_def parse_nat_def)
qed

lemma split_padded:
  assumes "digit c = None"
  shows "split_char c (padded w n @ c # s) = padded w n # split_char c s" "split_char c (padded w n) = [padded w n]"
    "c \<notin> set (padded w n)"
  using padded_digits[of c w n] assms by (auto intro: split_char_append split_char_single)

lemma no_digit: "digit (CHR ''T'') = None" "digit (CHR ''-'') = None" "digit (CHR '':'') = None" "digit (CHR ''Z'') = None"
  by (simp_all add: digit_def byte_of_def)

lemma parse_printed:
  assumes "y < 2 ^ 64" "m \<le> 12" "d < 2 ^ 64" "h < 2 ^ 64" "mi < 2 ^ 64" "sec < 2 ^ 64"
  shows "parse_timestamp_to_epoch (padded 4 y @ ''-'' @ padded 2 m @ ''-'' @ padded 2 d @ ''T''
      @ padded 2 h @ '':'' @ padded 2 mi @ '':'' @ padded 2 sec @ ''Z'')
    = Some ((of_nat (year_days y) + of_nat (month_sum y m) + (of_nat d - 1)) * 86400
        + of_nat h * 3600 + of_nat mi * 60 + of_nat sec)"
proof -
  let ?date = "padded 4 y @ ''-'' @ padded 2 m @ ''-'' @ padded 2 d"
  let ?time = "padded 2 h @ '':'' @ padded 2 mi @ '':'' @ padded 2 sec"
  have T: "split_char (CHR ''T'') (?date @ CHR ''T'' # ?time @ ''Z'') = [?date, ?time @ ''Z'']"
    using split_padded(3)[OF no_digit(1)] by (subst split_char_append) (auto intro!: split_char_single)
  have Z: "trim_end_matches (CHR ''Z'') (?time @ ''Z'') = ?time"
  proof -
    have ne: "padded 2 sec \<noteq> []" using padded_length[of 2 sec] by auto
    have "last (padded 2 sec) \<noteq> CHR ''Z''"
      using split_padded(3)[OF no_digit(4), of 2 sec] last_in_set[OF ne] by metis
    with ne have "trim_end_matches (CHR ''Z'') ?time = ?time" by (intro trim_end_id) simp
    then show ?thesis by (simp add: trim_end_matches_def)
  qed
  have len: "19 \<le> length (?date @ CHR ''T'' # ?time @ ''Z'')"
    using padded_length[of 4 y] padded_length[of 2 m] padded_length[of 2 d] padded_length[of 2 h]
      padded_length[of 2 mi] padded_length[of 2 sec] by simp
  have date: "split_char (CHR ''-'') ?date = [padded 4 y, padded 2 m, padded 2 d]"
    using split_padded[OF no_digit(2)] by simp
  have time: "split_char (CHR '':'') ?time = [padded 2 h, padded 2 mi, padded 2 sec]"
    using split_padded[OF no_digit(3)] by simp
  have nums: "num_or_0 (padded 4 y) = y" "num_or_0 (padded 2 m) = m" "num_or_0 (padded 2 d) = d"
    "num_or_0 (padded 2 h) = h" "num_or_0 (padded 2 mi) = mi" "num_or_0 (padded 2 sec) = sec"
    using assms by (auto intro!: num_or_0_padded)
  have "\<not> length days_in_month < m" using assms(2) by (simp add: days_in_month_def)
  then have "parse_timestamp_to_epoch (?date @ CHR ''T'' # ?time @ ''Z'')
      = Some ((of_nat (year_days y) + of_nat (month_sum y m) + (of_nat d - 1)) * 86400
          + of_nat h * 3600 + of_nat mi * 60 + of_nat sec)"
    unfolding parse_timestamp_to_epoch_def Let_def T nth_Cons_0 nth_Cons_Suc One_nat_def Z date time
    using len by (simp add: nums)
  then show ?thesis by simp
qed

lemma clock_parts: "r div 3600 * 3600 + r mod 3600 div 60 * 60 + r mod 60 = r" for r :: nat
proof -
  have "r mod 60 = r mod 3600 mod 60" by (simp add: mod_mod_cancel)
  then show ?thesis using div_mult_mod_eq[of "r mod 3600" 60] div_mult_mod_eq[of r 3600] by linarith
qed

section \<open>Properties\<close>

text \<open>
  C22: a generation's time stamp reads back as the time it was made: parsing what the clock reading was
  printed as gives the same number of seconds, for every 64-bit time.
\<close>

theorem timestamp_roundtrip: "parse_timestamp_to_epoch (sys_current_timestamp (Some s)) = Some s"
proof -
  let ?n = "unat s div 86400" and ?r = "unat s mod 86400"
  obtain y m d where ymd: "days_to_date ?n = (y, m, d)" by (cases "days_to_date ?n")
  have v: "1970 \<le> y" "m \<le> 12" "1 \<le> d" "d \<le> month_days y m" and num: "year_days y + month_sum y m + d - 1 = ?n"
    using day_number_days_to_date[of ?n] by (simp_all add: ymd valid_date_def day_number_def)
  have lt: "unat s < 2 ^ 64" using unsigned_less[of s] by simp
  have "365 * (y - 1970) \<le> ?n" using year_days_bound[OF v(1)] num v(3) by linarith
  then have y: "y < 2 ^ 64" using lt by simp
  have d: "d < 2 ^ 64" using v(4) by (simp add: month_days_def split: if_splits)
  have total: "year_days y + month_sum y m + (d - 1) = ?n" using num v(3) by simp
  have word: "of_nat d - 1 = (of_nat (d - 1) :: u64)" using v(3) by (simp add: of_nat_diff)
  have "?n * 86400 + ?r div 3600 * 3600 + ?r mod 3600 div 60 * 60 + ?r mod 60 = unat s"
    using clock_parts[of ?r] div_mult_mod_eq[of "unat s" 86400] by linarith
  then have "(of_nat (?n * 86400 + ?r div 3600 * 3600 + ?r mod 3600 div 60 * 60 + ?r mod 60) :: u64) = s"
    by (metis of_nat_unat ucast_id)
  moreover have "parse_timestamp_to_epoch (sys_current_timestamp (Some s))
      = Some ((of_nat (year_days y) + of_nat (month_sum y m) + (of_nat d - 1)) * 86400
        + of_nat (?r div 3600) * 3600 + of_nat (?r mod 3600 div 60) * 60 + of_nat (?r mod 60))"
    unfolding sys_current_timestamp_def option.case Let_def sys_days_to_date_eq ymd prod.case
    by (rule parse_printed) (use y v(2) d lt in auto)
  moreover have "(of_nat (year_days y) + of_nat (month_sum y m) + (of_nat d - 1)) * 86400
        + of_nat (?r div 3600) * 3600 + of_nat (?r mod 3600 div 60) * 60 + of_nat (?r mod 60)
      = (of_nat (?n * 86400 + ?r div 3600 * 3600 + ?r mod 3600 div 60 * 60 + ?r mod 60) :: u64)"
    unfolding word total[symmetric] by simp
  ultimately show ?thesis by simp
qed

end
