(* ===== verification/Activation_Order.thy ===== *)
theory Activation_Order
  imports System_Manifest "HOL-Library.Multiset"
begin

text \<open>
  The order of activation scripts (\<^verbatim>\<open>topo_sort\<close> of \<^verbatim>\<open>snix-redox/src/activate.rs\<close>): Kahn's
  algorithm on names. The hash maps are ordered maps here; the code sorts what it takes out of them, except
  for the names in the message about a cycle. \<open>None\<close> is a panic.
\<close>

section \<open>The algorithm\<close>

datatype topo_error =
    UnknownDep string string
  | DependencyCycle "string list"

fun unknown_dep :: "string list \<Rightarrow> activation_script list \<Rightarrow> topo_error option" where
  "unknown_dep names [] = None"
| "unknown_dep names (s # scripts) =
     (case find (\<lambda>d. d \<notin> set names) (as_deps s) of
        Some d \<Rightarrow> Some (UnknownDep (as_name s) d)
      | None \<Rightarrow> unknown_dep names scripts)"

type_synonym degrees = "(string, nat) btree"
type_synonym dependents = "(string, string list) btree"

definition count_edge :: "string \<Rightarrow> string \<Rightarrow> degrees \<times> dependents \<Rightarrow> degrees \<times> dependents" where
  "count_edge name dep g = (case g of (deg, out) \<Rightarrow>
     (bt_insert name ((case bt_get deg name of Some n \<Rightarrow> n | None \<Rightarrow> 0) + 1) deg,
      bt_insert dep ((case bt_get out dep of Some ns \<Rightarrow> ns | None \<Rightarrow> []) @ [name]) out))"

definition count_script :: "activation_script \<Rightarrow> degrees \<times> dependents \<Rightarrow> degrees \<times> dependents" where
  "count_script s g = (case g of (deg, out) \<Rightarrow>
     fold (count_edge (as_name s)) (as_deps s) (bt_or_insert (as_name s) 0 deg, out))"

text \<open>Decrement the degree of each dependent; those that reach zero are collected.\<close>

fun release :: "string list \<Rightarrow> degrees \<Rightarrow> string list \<Rightarrow> (degrees \<times> string list) option" where
  "release [] deg next = Some (deg, next)"
| "release (d # ds) deg next =
     (case bt_get deg d of
        None \<Rightarrow> None
      | Some 0 \<Rightarrow> None
      | Some (Suc n) \<Rightarrow> release ds (bt_insert d n deg) (if n = 0 then next @ [d] else next))"

text \<open>The loop over the queue; \<open>None\<close> also if it never ended.\<close>

partial_function (option) kahn ::
  "dependents \<Rightarrow> degrees \<Rightarrow> string list \<Rightarrow> string list \<Rightarrow> (degrees \<times> string list) option" where
  "kahn out deg queue result =
     (case queue of
        [] \<Rightarrow> Some (deg, result)
      | name # rest \<Rightarrow>
          (case bt_get out name of
             None \<Rightarrow> kahn out deg rest (result @ [name])
           | Some ds \<Rightarrow>
               (case release ds deg [] of
                  None \<Rightarrow> None
                | Some (deg', next) \<Rightarrow> kahn out deg' (rest @ sort next) (result @ [name]))))"

definition topo_sort :: "activation_script list \<Rightarrow> (topo_error + string list) option" where
  "topo_sort scripts =
     (if scripts = [] then Some (Inr [])
      else
        let names = map as_name scripts in
        case unknown_dep names scripts of
          Some e \<Rightarrow> Some (Inl e)
        | None \<Rightarrow>
            (case fold count_script scripts ([], []) of (deg, out) \<Rightarrow>
               let zero_deg = sort (map fst (filter (\<lambda>(_, n). n = 0) deg)) in
               map_option (\<lambda>(deg', result).
                   if length result \<noteq> length scripts
                   then Inl (DependencyCycle (map fst (filter (\<lambda>(_, n). 0 < n) deg')))
                   else Inr result)
                 (kahn out deg zero_deg [])))"

section \<open>The graph\<close>

text \<open>The edges with multiplicity, in the order they are counted, and the number not yet released.\<close>

definition edges :: "activation_script list \<Rightarrow> (string \<times> string) list" where
  "edges scripts = concat (map (\<lambda>s. map (\<lambda>d. (d, as_name s)) (as_deps s)) scripts)"

definition pending :: "(string \<times> string) list \<Rightarrow> string set \<Rightarrow> string \<Rightarrow> nat" where
  "pending es done n = length (filter (\<lambda>(d, m). m = n \<and> d \<notin> done) es)"

definition outgoing :: "(string \<times> string) list \<Rightarrow> string \<Rightarrow> string list" where
  "outgoing es d = map snd (filter (\<lambda>e. fst e = d) es)"

definition counted :: "string set \<Rightarrow> (string \<times> string) list \<Rightarrow> degrees \<times> dependents \<Rightarrow> bool" where
  "counted names es g = (case g of (deg, out) \<Rightarrow>
     bt_inv deg \<and> bt_inv out \<and> bt_get deg = (\<lambda>n. if n \<in> names then Some (pending es {} n) else None)
   \<and> (\<forall>d. (case bt_get out d of Some ns \<Rightarrow> ns | None \<Rightarrow> []) = outgoing es d))"

lemma counted_edge:
  assumes "counted names es g" "name \<in> names"
  shows "counted names (es @ [(dep, name)]) (count_edge name dep g)"
proof -
  obtain deg out where g: "g = (deg, out)" by (cases g)
  have inv: "bt_inv deg" "bt_inv out" and deg: "bt_get deg = (\<lambda>n. if n \<in> names then Some (pending es {} n) else None)"
    and out: "\<And>d. (case bt_get out d of Some ns \<Rightarrow> ns | None \<Rightarrow> []) = outgoing es d"
    using assms(1) by (auto simp: counted_def g)
  show ?thesis
    using inv assms(2) out
    by (auto simp: counted_def count_edge_def g bt_simps deg pending_def outgoing_def split: option.splits)
qed

lemma counted_deps:
  assumes "counted names es g" "name \<in> names"
  shows "counted names (es @ map (\<lambda>d. (d, name)) ds) (fold (count_edge name) ds g)"
  using assms(1)
proof (induction ds arbitrary: es g)
  case (Cons d ds)
  from Cons.IH[OF counted_edge[OF Cons.prems assms(2), of d]] show ?case by simp
qed simp

lemma counted_new:
  assumes "counted names es (deg, out)" "\<forall>e\<in>set es. snd e \<in> names"
  shows "counted (insert name names) es (bt_or_insert name 0 deg, out)"
proof -
  have "pending es {} name = 0" if "name \<notin> names" using assms(2) that by (auto simp: pending_def filter_empty_conv)
  then show ?thesis
    using assms(1) by (auto simp: counted_def bt_simps fun_eq_iff split: option.splits)
qed

lemma counted_scripts:
  assumes "counted names es g" "\<forall>e\<in>set es. snd e \<in> names"
  shows "counted (names \<union> as_name ` set scripts) (es @ edges scripts) (fold count_script scripts g)"
  using assms
proof (induction scripts arbitrary: names es g)
  case Nil
  then show ?case by (simp add: edges_def)
next
  case (Cons s scripts)
  obtain deg out where g: "g = (deg, out)" by (cases g)
  let ?names = "insert (as_name s) names" and ?es = "es @ map (\<lambda>d. (d, as_name s)) (as_deps s)"
  have "counted ?names ?es (count_script s g)"
    using counted_deps[OF counted_new[OF Cons.prems(1)[unfolded g] Cons.prems(2)]] by (simp add: count_script_def g)
  moreover have "\<forall>e\<in>set ?es. snd e \<in> ?names" using Cons.prems(2) by auto
  ultimately show ?case using Cons.IH[of ?names ?es "count_script s g"] by (simp add: edges_def)
qed

lemma unknown_dep_None: "unknown_dep names scripts = None \<longleftrightarrow> (\<forall>s\<in>set scripts. set (as_deps s) \<subseteq> set names)"
  by (induction scripts) (auto simp: find_None_iff split: option.split dest: find_SomeD)

section \<open>The loop\<close>

lemma release_ok:
  assumes "bt_inv deg" "\<forall>n\<in>set ds. \<exists>k. bt_get deg n = Some k \<and> count_list ds n \<le> k"
  shows "\<exists>deg' nx. release ds deg next = Some (deg', next @ nx) \<and> bt_inv deg'
    \<and> bt_get deg' = (\<lambda>n. map_option (\<lambda>k. k - count_list ds n) (bt_get deg n))
    \<and> distinct nx \<and> set nx = {n \<in> set ds. bt_get deg n = Some (count_list ds n)}"
  using assms
proof (induction ds arbitrary: deg "next")
  case Nil
  then show ?case by (simp add: option.map_ident)
next
  case (Cons d ds)
  from Cons.prems(2) obtain k where k: "bt_get deg d = Some (Suc k)" "count_list ds d \<le> k"
    by (auto dest: Suc_le_D)
  let ?deg = "bt_insert d k deg" and ?nx0 = "if k = 0 then [d] else []"
  have "\<forall>n\<in>set ds. \<exists>j. bt_get ?deg n = Some j \<and> count_list ds n \<le> j"
    using Cons.prems(2) k by (auto simp: bt_simps split: if_splits)
  from Cons.IH[OF bt_inv_insert[OF Cons.prems(1)] this, of "next @ ?nx0"] obtain deg' nx where
    IH: "release ds ?deg (next @ ?nx0) = Some (deg', (next @ ?nx0) @ nx)" "bt_inv deg'"
      "bt_get deg' = (\<lambda>n. map_option (\<lambda>j. j - count_list ds n) (bt_get ?deg n))"
      "distinct nx" "set nx = {n \<in> set ds. bt_get ?deg n = Some (count_list ds n)}" by blast
  have "release (d # ds) deg next = Some (deg', next @ (?nx0 @ nx))" using IH(1) k(1) by (cases "k = 0") simp_all
  moreover have "bt_get deg' = (\<lambda>n. map_option (\<lambda>j. j - count_list (d # ds) n) (bt_get deg n))"
    unfolding IH(3) using k(1) by (auto simp: bt_simps fun_eq_iff)
  moreover have "k = 0 \<Longrightarrow> d \<notin> set ds" using k(2) by (simp add: count_list_0_iff)
  then have "distinct (?nx0 @ nx)" using IH(4,5) by auto
  moreover have "set (?nx0 @ nx) = {n \<in> set (d # ds). bt_get deg n = Some (count_list (d # ds) n)}"
  proof (cases "k = 0")
    case True
    then have "d \<notin> set ds" using k(2) by (simp add: count_list_0_iff)
    with True show ?thesis using k(1) IH(5) by (auto simp: bt_simps count_list_0_iff)
  next
    case False
    have "d \<in> set ds" if "count_list ds d = k" using that False by (metis count_notin)
    with False show ?thesis using k(1) IH(5) by (auto simp: bt_simps)
  qed
  ultimately show ?case using IH(2) by blast
qed

lemma kahn_simps:
  "kahn out deg [] result = Some (deg, result)"
  "kahn out deg (name # rest) result =
     (case bt_get out name of
        None \<Rightarrow> kahn out deg rest (result @ [name])
      | Some ds \<Rightarrow>
          (case release ds deg [] of
             None \<Rightarrow> None
           | Some (deg', next) \<Rightarrow> kahn out deg' (rest @ sort next) (result @ [name])))"
  by (subst kahn.simps, simp)+

lemma count_outgoing: "count_list (outgoing es d) n = length (filter (\<lambda>e. e = (d, n)) es)"
  by (induction es) (auto simp: outgoing_def)

lemma pending_release:
  "d \<notin> R \<Longrightarrow> pending es R n = pending es (insert d R) n + count_list (outgoing es d) n"
  by (induction es) (auto simp: pending_def outgoing_def split: prod.splits)

lemma pending_pos: "n \<in> set (outgoing es d) \<Longrightarrow> d \<notin> R \<Longrightarrow> 0 < pending es R n"
  by (auto simp: pending_def outgoing_def filter_empty_conv)

text \<open>What is done has nothing pending; in the result every dependency comes first.\<close>

fun deps_first :: "(string \<times> string) list \<Rightarrow> string set \<Rightarrow> string list \<Rightarrow> bool" where
  "deps_first es R [] = True"
| "deps_first es R (n # ns) = (pending es R n = 0 \<and> deps_first es (insert n R) ns)"

lemma deps_first_snoc:
  "deps_first es R (ns @ [n]) \<longleftrightarrow> deps_first es R ns \<and> pending es (R \<union> set ns) n = 0"
  by (induction ns arbitrary: R) auto

definition loop_inv ::
  "string set \<Rightarrow> (string \<times> string) list \<Rightarrow> degrees \<Rightarrow> string list \<Rightarrow> string list \<Rightarrow> bool" where
  "loop_inv names es deg queue result \<longleftrightarrow>
     bt_inv deg \<and> bt_get deg = (\<lambda>n. if n \<in> names then Some (pending es (set result) n) else None)
   \<and> distinct (result @ queue) \<and> set result \<union> set queue = {n \<in> names. pending es (set result) n = 0}
   \<and> deps_first es {} result"

lemma loop_step:
  assumes inv: "loop_inv names es deg (name # rest) result" and targets: "\<forall>e\<in>set es. snd e \<in> names"
  shows "\<exists>deg' nx. release (outgoing es name) deg [] = Some (deg', nx)
    \<and> loop_inv names es deg' (rest @ sort nx) (result @ [name])"
proof -
  let ?R = "set result" and ?ds = "outgoing es name"
  have I: "bt_inv deg" "bt_get deg = (\<lambda>n. if n \<in> names then Some (pending es ?R n) else None)"
    "distinct (result @ name # rest)" "?R \<union> insert name (set rest) = {n \<in> names. pending es ?R n = 0}" "deps_first es {} result"
    using inv by (simp_all add: loop_inv_def)
  have new: "name \<notin> ?R" "name \<in> names" "pending es ?R name = 0" using I(3,4) by auto
  have ds: "set ?ds \<subseteq> names" using targets by (auto simp: outgoing_def)
  have split: "pending es ?R n = pending es (insert name ?R) n + count_list ?ds n" for n
    by (rule pending_release[OF new(1)])
  have "\<forall>n\<in>set ?ds. \<exists>k. bt_get deg n = Some k \<and> count_list ?ds n \<le> k" using ds split I(2) by auto
  from release_ok[OF I(1) this, of "[]"] obtain deg' nx where
    r: "release ?ds deg [] = Some (deg', nx)" "bt_inv deg'"
      "bt_get deg' = (\<lambda>n. map_option (\<lambda>k. k - count_list ?ds n) (bt_get deg n))"
      "distinct nx" "set nx = {n \<in> set ?ds. bt_get deg n = Some (count_list ?ds n)}" by auto
  have nx: "set nx = {n \<in> set ?ds. pending es (insert name ?R) n = 0}"
    unfolding r(5) I(2) using ds split by auto
  have "\<forall>n\<in>set nx. 0 < pending es ?R n" using nx pending_pos[OF _ new(1)] by blast
  then have fresh: "set nx \<inter> (?R \<union> insert name (set rest)) = {}" unfolding I(4) by auto
  have "loop_inv names es deg' (rest @ sort nx) (result @ [name])"
    unfolding loop_inv_def
  proof (intro conjI)
    show "bt_inv deg'" by (rule r(2))
    show "bt_get deg' = (\<lambda>n. if n \<in> names then Some (pending es (set (result @ [name])) n) else None)"
      unfolding r(3) I(2) using split by auto
    show "distinct ((result @ [name]) @ rest @ sort nx)" using I(3) r(4) fresh by auto
    show "set (result @ [name]) \<union> set (rest @ sort nx) = {n \<in> names. pending es (set (result @ [name])) n = 0}"
    proof -
      have "{n \<in> names. pending es (insert name ?R) n = 0} = {n \<in> names. pending es ?R n = 0} \<union> set nx"
      proof (intro set_eqI iffI)
        fix n assume n: "n \<in> {n \<in> names. pending es (insert name ?R) n = 0}"
        show "n \<in> {n \<in> names. pending es ?R n = 0} \<union> set nx"
          using n split[of n] nx by (cases "n \<in> set ?ds") (auto simp: count_list_0_iff)
      qed (use split nx ds in auto)
      then show ?thesis using I(4) by auto
    qed
    show "deps_first es {} (result @ [name])" using I(5) new(3) by (simp add: deps_first_snoc)
  qed
  with r(1) show ?thesis by blast
qed

lemma kahn_ok:
  assumes "finite names" "loop_inv names es deg queue result" "\<forall>e\<in>set es. snd e \<in> names"
    and out: "\<And>d. (case bt_get out d of Some ns \<Rightarrow> ns | None \<Rightarrow> []) = outgoing es d"
  shows "\<exists>deg' r. kahn out deg queue result = Some (deg', r) \<and> loop_inv names es deg' [] r"
  using assms(2)
proof (induction "card (names - set result)" arbitrary: deg queue result rule: less_induct)
  case less
  show ?case
  proof (cases queue)
    case Nil
    then show ?thesis using less.prems by (simp add: kahn_simps)
  next
    case (Cons name rest)
    obtain deg' nx where step: "release (outgoing es name) deg [] = Some (deg', nx)"
      "loop_inv names es deg' (rest @ sort nx) (result @ [name])"
      using loop_step[OF less.prems[unfolded Cons] assms(3)] by blast
    have "name \<in> names - set result" using less.prems Cons by (auto simp: loop_inv_def)
    then have "card (names - set (result @ [name])) < card (names - set result)"
      using assms(1) by (intro psubset_card_mono) auto
    from less.hyps[OF this step(2)] obtain d r where
      "kahn out deg' (rest @ sort nx) (result @ [name]) = Some (d, r)" "loop_inv names es d [] r" by blast
    moreover have "kahn out deg queue result = kahn out deg' (rest @ sort nx) (result @ [name])"
    proof (cases "bt_get out name")
      case None
      then have "outgoing es name = []" using out[of name] by simp
      then show ?thesis using step(1) None Cons by (simp add: kahn_simps)
    next
      case (Some ds)
      then have "ds = outgoing es name" using out[of name] by simp
      then show ?thesis using step(1) Some Cons by (simp add: kahn_simps)
    qed
    ultimately show ?thesis by simp
  qed
qed

text \<open>An order in which dependencies come first rules out cycles; a rest that is always blocked has one.\<close>

lemma deps_first_dep:
  "deps_first es R ns \<Longrightarrow> (d, n) \<in> set es \<Longrightarrow> n \<in> set ns \<Longrightarrow> distinct ns \<Longrightarrow> n \<notin> R
    \<Longrightarrow> d \<in> R \<or> (\<exists>i j. i < j \<and> j < length ns \<and> ns ! i = d \<and> ns ! j = n)"
proof (induction ns arbitrary: R)
  case (Cons m ns)
  show ?case
  proof (cases "n = m")
    case True
    then have "d \<in> R" using Cons.prems(1,2) by (auto simp: pending_def filter_empty_conv)
    then show ?thesis by simp
  next
    case False
    then have n: "n \<in> set ns" "n \<notin> insert m R" using Cons.prems by auto
    from Cons.IH[OF _ Cons.prems(2) n(1) _ n(2)] Cons.prems(1,4)
    consider "d \<in> R" | "d = m" | i j where "i < j" "j < length ns" "ns ! i = d" "ns ! j = n" by auto
    then show ?thesis
    proof cases
      case 2
      obtain j where "j < length ns" "ns ! j = n" using n(1) by (auto simp: in_set_conv_nth)
      then have "0 < Suc j \<and> Suc j < length (m # ns) \<and> (m # ns) ! 0 = d \<and> (m # ns) ! Suc j = n" using 2 by simp
      then show ?thesis by blast
    next
      case 3
      then have "Suc i < Suc j \<and> Suc j < length (m # ns) \<and> (m # ns) ! Suc i = d \<and> (m # ns) ! Suc j = n" by simp
      then show ?thesis by blast
    qed simp
  qed
qed simp

lemma blocked_cyclic:
  assumes "finite B" "B \<noteq> {}" "\<And>n. n \<in> B \<Longrightarrow> \<exists>d\<in>B. (d, n) \<in> r"
  shows "\<not> acyclic r"
proof
  assume "acyclic r"
  then have "acyclic (r \<inter> B \<times> B)" by (rule acyclic_subset) simp
  moreover have "finite (r \<inter> B \<times> B)" using assms(1) by blast
  ultimately have "wf (r \<inter> B \<times> B)" by (intro finite_acyclic_wf)
  then obtain n where "n \<in> B" "\<And>d. (d, n) \<in> r \<inter> B \<times> B \<Longrightarrow> d \<notin> B" using assms(2) by (metis all_not_in_conv wfE_min)
  then show False using assms(3) by blast
qed

lemma topo_sort_run:
  assumes "scripts \<noteq> []" "unknown_dep (map as_name scripts) scripts = None"
  shows "\<exists>deg r. topo_sort scripts = Some (if length r \<noteq> length scripts
        then Inl (DependencyCycle (map fst (filter (\<lambda>(_, n). 0 < n) deg))) else Inr r)
    \<and> loop_inv (as_name ` set scripts) (edges scripts) deg [] r"
proof -
  let ?names = "as_name ` set scripts" and ?es = "edges scripts"
  obtain deg out where g: "fold count_script scripts ([], []) = (deg, out)" by (cases "fold count_script scripts ([], [])")
  have "counted {} [] ([], [])" by (simp add: counted_def pending_def outgoing_def)
  from counted_scripts[OF this, of scripts] have c: "bt_inv deg"
    "bt_get deg = (\<lambda>n. if n \<in> ?names then Some (pending ?es {} n) else None)"
    "\<And>d. (case bt_get out d of Some ns \<Rightarrow> ns | None \<Rightarrow> []) = outgoing ?es d"
    by (simp_all add: counted_def g)
  let ?zero = "sort (map fst (filter (\<lambda>(_, n). n = 0) deg))"
  have "distinct (map fst (filter (\<lambda>(_, n). n = 0) deg))"
    using bt_inv_distinct[OF c(1)] by (auto simp: bt_keys_def intro: distinct_map_filter)
  moreover have "set (map fst (filter (\<lambda>(_, n). n = 0) deg)) = {n \<in> ?names. pending ?es {} n = 0}"
  proof -
    have "(n, 0) \<in> set deg \<longleftrightarrow> n \<in> ?names \<and> pending ?es {} n = 0" for n
      using bt_get_Some_iff[OF c(1), of n 0] unfolding c(2) by (auto split: if_splits)
    then show ?thesis by (force simp del: image_iff)
  qed
  ultimately have "loop_inv ?names ?es deg ?zero []" using c(1,2) by (auto simp: loop_inv_def fun_eq_iff)
  moreover have "\<forall>e\<in>set ?es. snd e \<in> ?names" by (auto simp: edges_def)
  ultimately obtain d r where "kahn out deg ?zero [] = Some (d, r)" "loop_inv ?names ?es d [] r"
    using kahn_ok[OF _ _ _ c(3), of ?names deg ?zero "[]"] by auto
  then show ?thesis using assms by (auto simp: topo_sort_def g Let_def)
qed

text \<open>If the loop stops before all names are ordered, those that are left block each other.\<close>

lemma stuck_cyclic:
  assumes "\<And>n. n \<in> set r \<longleftrightarrow> n \<in> N \<and> pending es (set r) n = 0" "set r \<noteq> N" "finite N" "\<And>d n. (d, n) \<in> set es \<Longrightarrow> d \<in> N"
  shows "\<not> acyclic (set es)"
proof -
  let ?B = "N - set r"
  have "?B \<noteq> {}" using assms(1,2) by blast
  moreover have "\<exists>d\<in>?B. (d, n) \<in> set es" if "n \<in> ?B" for n
  proof -
    have "pending es (set r) n \<noteq> 0" using that assms(1)[of n] by simp
    then obtain d where "(d, n) \<in> set es" "d \<notin> set r" by (auto simp: pending_def filter_empty_conv)
    then show ?thesis using assms(4) by blast
  qed
  ultimately show ?thesis using assms(3) by (intro blocked_cyclic[of ?B]) auto
qed

section \<open>Properties\<close>

text \<open>
  C6: activation scripts are ordered correctly. If no two scripts have the same name, sorting never panics
  and always returns; a result lists every script once, each after all scripts it depends on, and an
  error means that a dependency is unknown or that the dependencies have a cycle.
\<close>

theorem topo_sort_correct:
  assumes "distinct (map as_name scripts)"
  shows "case topo_sort scripts of
      Some (Inr order) \<Rightarrow> mset order = mset (map as_name scripts)
        \<and> (\<forall>s\<in>set scripts. \<forall>d\<in>set (as_deps s). \<exists>i j. i < j \<and> j < length order \<and> order ! i = d \<and> order ! j = as_name s)
    | Some (Inl _) \<Rightarrow> (\<exists>s\<in>set scripts. \<not> set (as_deps s) \<subseteq> as_name ` set scripts) \<or> \<not> acyclic (set (edges scripts))
    | None \<Rightarrow> False"
proof (cases "scripts = [] \<or> unknown_dep (map as_name scripts) scripts \<noteq> None")
  case True
  then show ?thesis
    using unknown_dep_None[of "map as_name scripts" scripts]
    by (cases "unknown_dep (map as_name scripts) scripts") (auto simp: topo_sort_def Let_def)
next
  case False
  let ?names = "as_name ` set scripts" and ?es = "edges scripts"
  from False obtain deg r where r: "topo_sort scripts = Some (if length r \<noteq> length scripts
        then Inl (DependencyCycle (map fst (filter (\<lambda>(_, n). 0 < n) deg))) else Inr r)"
    and inv: "loop_inv ?names ?es deg [] r" using topo_sort_run by blast
  have I: "distinct r" "deps_first ?es {} r" and "set r = {n \<in> ?names. pending ?es (set r) n = 0}"
    using inv by (simp_all add: loop_inv_def)
  then have sub: "n \<in> set r \<longleftrightarrow> n \<in> ?names \<and> pending ?es (set r) n = 0" for n by (simp add: set_eq_iff)
  have len: "length scripts = card ?names" using distinct_card[OF assms] by simp
  have edge: "s \<in> set scripts \<Longrightarrow> d \<in> set (as_deps s) \<Longrightarrow> (d, as_name s) \<in> set ?es" for s d
    by (auto simp: edges_def)
  show ?thesis
  proof (cases "length r = length scripts")
    case True
    then have "card (set r) = card ?names" using len distinct_card[OF I(1)] by simp
    then have all: "set r = ?names" using sub by (intro card_subset_eq) auto
    then have "mset r = mset (map as_name scripts)" using I(1) assms by (intro set_eq_iff_mset_eq_distinct[THEN iffD1]) auto
    moreover have "\<exists>i j. i < j \<and> j < length r \<and> r ! i = d \<and> r ! j = as_name s"
      if "s \<in> set scripts" "d \<in> set (as_deps s)" for s d
    proof -
      have "as_name s \<in> set r" using all that(1) by simp
      from deps_first_dep[OF I(2) edge[OF that] this I(1)] show ?thesis by simp
    qed
    moreover have res: "topo_sort scripts = Some (Inr r)" using True r by simp
    ultimately show ?thesis unfolding res option.case sum.case by (intro conjI ballI)
  next
    case neq: False
    have "card (set r) \<noteq> card ?names" using neq len distinct_card[OF I(1)] by simp
    then have "set r \<noteq> ?names" by auto
    moreover have "\<And>d n. (d, n) \<in> set ?es \<Longrightarrow> d \<in> ?names" using False by (auto simp: edges_def unknown_dep_None)
    ultimately have "\<not> acyclic (set ?es)" by (intro stuck_cyclic[OF sub]) auto
    moreover obtain e where res: "topo_sort scripts = Some (Inl e)" using neq r by simp
    ultimately show ?thesis unfolding res option.case sum.case by (intro disjI2)
  qed
qed

definition sample_scripts :: "activation_script list" where
  "sample_scripts = [\<lparr>as_name = ''users'', as_deps = [''etc'']\<rparr>, \<lparr>as_name = ''etc'', as_deps = []\<rparr>]"

theorem topo_sort_correct_witness:
  "case topo_sort sample_scripts of
      Some (Inr order) \<Rightarrow> mset order = {#''users'', ''etc''#}
    | Some (Inl _) \<Rightarrow> \<not> acyclic (set (edges sample_scripts))
    | None \<Rightarrow> False"
  using topo_sort_correct[of sample_scripts] by (simp add: sample_scripts_def split: option.splits sum.splits)

end
