(* ===== verification/Store_Gc.thy ===== *)
theory Store_Gc
  imports Path_Info
begin

text \<open>
  Closures, garbage collection roots and the collector of the local store
  (\<^verbatim>\<open>snix-redox/src/store.rs\<close>). The file system and the store path parser are the parameter
  \<open>gc_fs\<close>, which extends the one of the path database; reads do not change the outside world.
  The loops over references and over directory trees may not end, so they return \<^const>\<open>None\<close>
  then. What the commands print is left out.
\<close>

section \<open>Closures\<close>

record store_closure =
  cl_paths :: "(string, unit) btree"
  cl_total_nar_size :: u64

datatype gc_error =
    GcDb path_info_error
  | GcNotRegistered string
  | GcInvalidPath string
  | GcRootNotFound string
  | GcIo io_kind

text \<open>The sizes are added with wrap-around, as a release build does.\<close>

partial_function (option) closure_loop ::
  "(string \<Rightarrow> path_info_error + path_info option) \<Rightarrow> (string, unit) btree \<Rightarrow> string list \<Rightarrow> u64
   \<Rightarrow> (gc_error + store_closure) option" where
  "closure_loop get visited queue sum_size =
     (case queue of
        [] \<Rightarrow> Some (Inr \<lparr>cl_paths = visited, cl_total_nar_size = sum_size\<rparr>)
      | path # rest \<Rightarrow>
          if bt_get visited path \<noteq> None then closure_loop get visited rest sum_size
          else (case get path of
            Inl e \<Rightarrow> Some (Inl (GcDb e))
          | Inr None \<Rightarrow> Some (Inl (GcNotRegistered path))
          | Inr (Some info) \<Rightarrow>
              let visited' = bt_insert path () visited in
              closure_loop get visited' (rest @ filter (\<lambda>r. bt_get visited' r = None) (pi_references info))
                (sum_size + pi_nar_size info)))"

definition compute_closure ::
  "(string \<Rightarrow> path_info_error + path_info option) \<Rightarrow> string \<Rightarrow> (gc_error + store_closure) option" where
  "compute_closure get root = closure_loop get [] [root] 0"

section \<open>Roots\<close>

record 'w gc_fs = "'w db_fs" +
  gcf_is_file :: "path_buf \<Rightarrow> 'w \<Rightarrow> bool"
  gcf_is_dir :: "path_buf \<Rightarrow> 'w \<Rightarrow> bool"
  gcf_len :: "path_buf \<Rightarrow> 'w \<Rightarrow> io_kind + u64"
  gcf_lexists :: "path_buf \<Rightarrow> 'w \<Rightarrow> bool"
  gcf_read_link :: "path_buf \<Rightarrow> 'w \<Rightarrow> io_kind + string"
  gcf_symlink :: "string \<Rightarrow> path_buf \<Rightarrow> ('w, io_kind, unit) eio"
  gcf_remove_dir_all :: "path_buf \<Rightarrow> ('w, io_kind, unit) eio"

record gc_root =
  gr_name :: string
  gr_target :: string

definition roots_open_at :: "('w, 'x) gc_fs_scheme \<Rightarrow> path_buf \<Rightarrow> ('w, io_kind, path_buf) eio" where
  "roots_open_at fs roots_dir = bindS (dbf_create_dir_all fs roots_dir) (\<lambda>_. ret roots_dir)"

definition roots_open :: "('w, 'x) gc_fs_scheme \<Rightarrow> ('w, io_kind, path_buf) eio" where
  "roots_open fs = roots_open_at fs (path_join SNIX_VAR_DIR ''gcroots'')"

definition add_root :: "('w, 'x) gc_fs_scheme \<Rightarrow> path_buf \<Rightarrow> string \<Rightarrow> string \<Rightarrow> ('w, gc_error, unit) eio" where
  "add_root fs roots_dir name store_path = (\<lambda>w.
     if dbf_hash fs store_path = None then (Inl (GcInvalidPath store_path), w)
     else
       let link = path_join roots_dir name in
       bindS (if gcf_lexists fs link w then map_err GcIo (dbf_remove_file fs link) else ret ()) (\<lambda>_.
         map_err GcIo (gcf_symlink fs store_path link)) w)"

definition remove_root :: "('w, 'x) gc_fs_scheme \<Rightarrow> path_buf \<Rightarrow> string \<Rightarrow> ('w, gc_error, unit) eio" where
  "remove_root fs roots_dir name = (\<lambda>w.
     let link = path_join roots_dir name in
     if gcf_lexists fs link w then map_err GcIo (dbf_remove_file fs link) w
     else (Inl (GcRootNotFound name), w))"

fun collect_roots ::
  "('w, 'x) gc_fs_scheme \<Rightarrow> path_buf \<Rightarrow> 'w \<Rightarrow> (io_kind + string) list \<Rightarrow> gc_error + gc_root list" where
  "collect_roots fs roots_dir w [] = Inr []"
| "collect_roots fs roots_dir w (Inl e # es) = Inl (GcIo e)"
| "collect_roots fs roots_dir w (Inr name # es) =
     map_sum id (\<lambda>rs. case gcf_read_link fs (path_join roots_dir name) w of
        Inr target \<Rightarrow> \<lparr>gr_name = name, gr_target = target\<rparr> # rs
      | Inl _ \<Rightarrow> rs) (collect_roots fs roots_dir w es)"

text \<open>The names in a directory are distinct, so the stable sort is the order by name.\<close>

definition list_roots :: "('w, 'x) gc_fs_scheme \<Rightarrow> path_buf \<Rightarrow> 'w \<Rightarrow> gc_error + gc_root list" where
  "list_roots fs roots_dir w =
     (case dbf_read_dir fs roots_dir w of
        Inl e \<Rightarrow> Inl (GcIo e)
      | Inr es \<Rightarrow> map_sum id (sort_key gr_name) (collect_roots fs roots_dir w es))"

fun live_loop ::
  "('w, 'x) gc_fs_scheme \<Rightarrow> path_buf \<Rightarrow> 'w \<Rightarrow> gc_root list \<Rightarrow> (string, unit) btree \<Rightarrow> (string, unit) btree option" where
  "live_loop fs db w [] live = Some live"
| "live_loop fs db w (root # roots) live =
     (if \<not> pdb_is_registered fs db (gr_target root) w then live_loop fs db w roots live
      else (case compute_closure (\<lambda>p. pdb_get fs db p w) (gr_target root) of
        None \<Rightarrow> None
      | Some (Inr closure) \<Rightarrow>
          live_loop fs db w roots (fold (\<lambda>p. bt_insert p ()) (bt_keys (cl_paths closure)) live)
      | Some (Inl e) \<Rightarrow> live_loop fs db w roots live))"

definition compute_live_set ::
  "('w, 'x) gc_fs_scheme \<Rightarrow> path_buf \<Rightarrow> path_buf \<Rightarrow> 'w \<Rightarrow> (gc_error + (string, unit) btree) option" where
  "compute_live_set fs roots_dir db w =
     (case list_roots fs roots_dir w of
        Inl e \<Rightarrow> Some (Inl e)
      | Inr roots \<Rightarrow> map_option Inr (live_loop fs db w roots []))"

section \<open>Collection\<close>

record gc_stats =
  paths_deleted :: u32
  bytes_freed :: u64
  paths_kept :: u32

text \<open>
  The size of a tree. The recursion over directories is written with the list of the entries
  still to be counted, in the order it visits them; the first error ends it.
\<close>

partial_function (option) path_size_loop ::
  "('w, 'x) gc_fs_scheme \<Rightarrow> 'w \<Rightarrow> (io_kind + path_buf) list \<Rightarrow> u64 \<Rightarrow> (io_kind + u64) option" where
  "path_size_loop fs w todo sum_size =
     (case todo of
        [] \<Rightarrow> Some (Inr sum_size)
      | Inl e # rest \<Rightarrow> Some (Inl e)
      | Inr path # rest \<Rightarrow>
          if gcf_is_file fs path w then
            (case gcf_len fs path w of
               Inl e \<Rightarrow> Some (Inl e)
             | Inr n \<Rightarrow> path_size_loop fs w rest (sum_size + n))
          else if gcf_is_dir fs path w then
            (case dbf_read_dir fs path w of
               Inl e \<Rightarrow> Some (Inl e)
             | Inr es \<Rightarrow> path_size_loop fs w (map (map_sum id (path_join path)) es @ rest) sum_size)
          else path_size_loop fs w rest sum_size)"

definition path_size :: "('w, 'x) gc_fs_scheme \<Rightarrow> path_buf \<Rightarrow> 'w \<Rightarrow> (io_kind + u64) option" where
  "path_size fs path w = path_size_loop fs w [Inr path] 0"

text \<open>One dead path: its tree, then its metadata.\<close>

definition delete_dead :: "('w, 'x) gc_fs_scheme \<Rightarrow> path_buf \<Rightarrow> string \<Rightarrow> ('w, gc_error, unit) eio" where
  "delete_dead fs db path = (\<lambda>w.
     bindS
       (if dbf_exists fs path w then
          map_err GcIo (if gcf_is_dir fs path w then gcf_remove_dir_all fs path else dbf_remove_file fs path)
        else ret ())
       (\<lambda>_. map_err GcDb (pdb_delete fs db path)) w)"

fun sweep ::
  "('w, 'x) gc_fs_scheme \<Rightarrow> path_buf \<Rightarrow> bool \<Rightarrow> string list \<Rightarrow> gc_stats \<Rightarrow> 'w \<Rightarrow> ((gc_error + gc_stats) \<times> 'w) option" where
  "sweep fs db dry_run [] stats w = Some (Inr stats, w)"
| "sweep fs db dry_run (path # dead) stats w =
     (case path_size fs path w of
        None \<Rightarrow> None
      | Some r \<Rightarrow>
          let size_freed = (case r of Inr n \<Rightarrow> n | Inl _ \<Rightarrow> 0) in
          case (if dry_run then (Inr (), w) else delete_dead fs db path w) of
            (Inl e, w') \<Rightarrow> Some (Inl e, w')
          | (Inr _, w') \<Rightarrow>
              sweep fs db dry_run dead
                (stats\<lparr>paths_deleted := paths_deleted stats + 1, bytes_freed := bytes_freed stats + size_freed\<rparr>) w')"

definition garbage_collect ::
  "('w, 'x) gc_fs_scheme \<Rightarrow> path_buf \<Rightarrow> path_buf \<Rightarrow> bool \<Rightarrow> 'w \<Rightarrow> ((gc_error + gc_stats) \<times> 'w) option" where
  "garbage_collect fs db roots_dir dry_run w =
     (case all_paths_set fs db w of
        Inl e \<Rightarrow> Some (Inl (GcDb e), w)
      | Inr all_paths \<Rightarrow>
          (case compute_live_set fs roots_dir db w of
             None \<Rightarrow> None
           | Some (Inl e) \<Rightarrow> Some (Inl e, w)
           | Some (Inr live_set) \<Rightarrow>
               let dead_set = filter (\<lambda>p. bt_get live_set p = None) (bt_keys all_paths);
                   stats = \<lparr>paths_deleted = 0, bytes_freed = 0, paths_kept = of_nat (length live_set)\<rparr>
               in if dead_set = [] then Some (Inr stats, w) else sweep fs db dry_run dead_set stats w))"

text \<open>The collection command, without the statistics it prints.\<close>

definition run_gc :: "('w, 'x) gc_fs_scheme \<Rightarrow> bool \<Rightarrow> 'w \<Rightarrow> ((gc_error + unit) \<times> 'w) option" where
  "run_gc fs dry_run w =
     (case bindS (map_err GcIo (pdb_open fs)) (\<lambda>db. bindS (map_err GcIo (roots_open fs)) (\<lambda>gc_roots. ret (db, gc_roots))) w of
        (Inl e, w1) \<Rightarrow> Some (Inl e, w1)
      | (Inr (db, gc_roots), w1) \<Rightarrow>
          (case list_roots fs gc_roots w1 of
             Inl e \<Rightarrow> Some (Inl e, w1)
           | Inr _ \<Rightarrow> map_option (\<lambda>(r, w2). (map_sum id (\<lambda>_. ()) r, w2)) (garbage_collect fs db gc_roots dry_run w1)))"

section \<open>Registration\<close>

definition register_path_with_files ::
  "('w, 'x) gc_fs_scheme \<Rightarrow> u64 option \<Rightarrow> path_buf \<Rightarrow> string \<Rightarrow> string \<Rightarrow> u64 \<Rightarrow> string list \<Rightarrow> string list
   \<Rightarrow> manifest_entry list \<Rightarrow> ('w, path_info_error, unit) eio" where
  "register_path_with_files fs now db store_path nar_hash nar_size references signatures files =
     pdb_register fs db
       \<lparr>pi_store_path = store_path, pi_nar_hash = nar_hash, pi_nar_size = nar_size, pi_references = references,
        pi_deriver = None, pi_registration_time = current_timestamp now, pi_signatures = signatures, pi_files = files\<rparr>"

definition register_path ::
  "('w, 'x) gc_fs_scheme \<Rightarrow> u64 option \<Rightarrow> path_buf \<Rightarrow> string \<Rightarrow> string \<Rightarrow> u64 \<Rightarrow> string list \<Rightarrow> string list
   \<Rightarrow> ('w, path_info_error, unit) eio" where
  "register_path fs now db store_path nar_hash nar_size references signatures =
     register_path_with_files fs now db store_path nar_hash nar_size references signatures []"

definition register_path_from_info ::
  "('w, 'x) gc_fs_scheme \<Rightarrow> path_buf \<Rightarrow> path_info \<Rightarrow> ('w, path_info_error, unit) eio" where
  "register_path_from_info fs db info = pdb_register fs db info"

definition STORE_DIR :: string where
  "STORE_DIR = ''/nix/store''"

definition ensure_store_dir :: "('w, 'x) gc_fs_scheme \<Rightarrow> ('w, io_kind, unit) eio" where
  "ensure_store_dir fs = (\<lambda>w. if dbf_exists fs STORE_DIR w then (Inr (), w) else dbf_create_dir_all fs STORE_DIR w)"

text \<open>The counts of well-formed and of other entries that the check of the store prints.\<close>

fun verify_loop :: "('w, 'x) gc_fs_scheme \<Rightarrow> (io_kind + string) list \<Rightarrow> nat \<times> nat \<Rightarrow> io_kind + nat \<times> nat" where
  "verify_loop fs [] c = Inr c"
| "verify_loop fs (Inl e # es) c = Inl e"
| "verify_loop fs (Inr name # es) (count, errors) =
     (if dbf_hash fs (STORE_DIR @ ''/'' @ name) \<noteq> None then verify_loop fs es (count + 1, errors)
      else verify_loop fs es (count, errors + 1))"

definition verify :: "('w, 'x) gc_fs_scheme \<Rightarrow> 'w \<Rightarrow> io_kind + (nat \<times> nat) option" where
  "verify fs w =
     (if \<not> dbf_exists fs STORE_DIR w then Inr None
      else (case dbf_read_dir fs STORE_DIR w of
        Inl e \<Rightarrow> Inl e
      | Inr es \<Rightarrow> map_sum id Some (verify_loop fs es (0, 0))))"

section \<open>Closures are the reachable paths\<close>

text \<open>The reference graph, and what the collector promises of it.\<close>

definition refers :: "(string \<Rightarrow> path_info_error + path_info option) \<Rightarrow> (string \<times> string) set" where
  "refers get = {(p, r). \<exists>info. get p = Inr (Some info) \<and> r \<in> set (pi_references info)}"

definition reach :: "(string \<Rightarrow> path_info_error + path_info option) \<Rightarrow> string \<Rightarrow> string set" where
  "reach get root = (refers get)\<^sup>* `` {root}"

definition registered :: "(string \<Rightarrow> path_info_error + path_info option) \<Rightarrow> string \<Rightarrow> bool" where
  "registered get p \<longleftrightarrow> (\<exists>info. get p = Inr (Some info))"

definition nar_size_of :: "(string \<Rightarrow> path_info_error + path_info option) \<Rightarrow> string \<Rightarrow> u64" where
  "nar_size_of get p = (case get p of Inr (Some info) \<Rightarrow> pi_nar_size info | _ \<Rightarrow> 0)"

definition closed_in :: "(string \<Rightarrow> path_info_error + path_info option) \<Rightarrow> string \<Rightarrow> (string, unit) btree \<Rightarrow> string list \<Rightarrow> u64 \<Rightarrow> bool" where
  "closed_in get root visited queue n \<longleftrightarrow>
     bt_inv visited \<and> dom (bt_get visited) \<union> set queue \<subseteq> reach get root
   \<and> root \<in> dom (bt_get visited) \<union> set queue
   \<and> (\<forall>p\<in>dom (bt_get visited). registered get p \<and> refers get `` {p} \<subseteq> dom (bt_get visited) \<union> set queue)
   \<and> n = (\<Sum>p\<in>dom (bt_get visited). nar_size_of get p)"

definition closure_ok :: "(string \<Rightarrow> path_info_error + path_info option) \<Rightarrow> string \<Rightarrow> gc_error + store_closure \<Rightarrow> bool" where
  "closure_ok get root r \<longleftrightarrow>
     (case r of
        Inr c \<Rightarrow> bt_inv (cl_paths c) \<and> set (bt_keys (cl_paths c)) = reach get root
          \<and> (\<forall>p\<in>reach get root. registered get p)
          \<and> cl_total_nar_size c = (\<Sum>p\<in>reach get root. nar_size_of get p)
      | Inl _ \<Rightarrow> \<exists>p\<in>reach get root. \<not> registered get p)"

lemma reach_root: "root \<in> reach get root"
  by (simp add: reach_def)

lemma reach_step: "p \<in> reach get root \<Longrightarrow> get p = Inr (Some info) \<Longrightarrow> set (pi_references info) \<subseteq> reach get root"
  by (auto simp: reach_def refers_def intro: rtrancl_into_rtrancl)

lemma closed_reach:
  assumes "root \<in> A" "\<And>p. p \<in> A \<Longrightarrow> refers get `` {p} \<subseteq> A"
  shows "reach get root \<subseteq> A"
proof -
  have "(root, p) \<in> (refers get)\<^sup>* \<Longrightarrow> p \<in> A" for p
    by (induction rule: rtrancl_induct) (use assms in auto)
  then show ?thesis by (auto simp: reach_def)
qed

lemma closed_in_skip:
  assumes "closed_in get root visited (path # rest) n" "bt_get visited path \<noteq> None"
  shows "closed_in get root visited rest n"
proof -
  have "dom (bt_get visited) \<union> set (path # rest) = dom (bt_get visited) \<union> set rest" using assms(2) by auto
  then show ?thesis using assms(1) unfolding closed_in_def by simp
qed

lemma closed_in_visit:
  assumes inv: "closed_in get root visited (path # rest) n" and new: "bt_get visited path = None"
    and info: "get path = Inr (Some info)" and fin: "finite (reach get root)"
    and v: "v = bt_insert path () visited"
  shows "closed_in get root v (rest @ filter (\<lambda>r. bt_get v r = None) (pi_references info)) (n + pi_nar_size info)"
proof -
  have d: "dom (bt_get v) = insert path (dom (bt_get visited))" by (simp add: v bt_simps)
  let ?q = "rest @ filter (\<lambda>r. bt_get v r = None) (pi_references info)"
  have p: "path \<in> reach get root" using inv by (simp add: closed_in_def)
  have cover: "dom (bt_get visited) \<union> set (path # rest) \<subseteq> dom (bt_get v) \<union> set ?q" by (auto simp: d)
  have refs: "refers get `` {path} \<subseteq> dom (bt_get v) \<union> set ?q" using info by (auto simp: refers_def)
  have "dom (bt_get visited) \<subseteq> reach get root" using inv by (simp add: closed_in_def)
  then have "finite (dom (bt_get visited))" using fin finite_subset by blast
  moreover have "path \<notin> dom (bt_get visited)" using new by auto
  ultimately have size: "n + pi_nar_size info = (\<Sum>p\<in>dom (bt_get v). nar_size_of get p)"
    using inv info by (simp add: d closed_in_def nar_size_of_def)
  have old: "\<forall>p\<in>dom (bt_get visited). registered get p \<and> refers get `` {p} \<subseteq> dom (bt_get visited) \<union> set (path # rest)"
    using inv unfolding closed_in_def by blast
  have sub: "dom (bt_get v) \<union> set ?q \<subseteq> reach get root"
    using inv reach_step[OF p info] p by (auto simp: closed_in_def d)
  have "registered get path" using info by (simp add: registered_def)
  then have "\<forall>p\<in>insert path (dom (bt_get visited)). registered get p \<and> refers get `` {p} \<subseteq> dom (bt_get v) \<union> set ?q"
    using old refs cover by (blast intro: order_trans)
  then have "\<forall>p\<in>dom (bt_get v). registered get p \<and> refers get `` {p} \<subseteq> dom (bt_get v) \<union> set ?q"
    by (simp only: d)
  moreover have "bt_inv v" using inv by (simp add: v closed_in_def)
  moreover have "root \<in> dom (bt_get v) \<union> set ?q" using inv cover unfolding closed_in_def by blast
  ultimately show ?thesis unfolding closed_in_def using sub size by blast
qed

lemma closure_loop_simps:
  "closure_loop get visited [] n = Some (Inr \<lparr>cl_paths = visited, cl_total_nar_size = n\<rparr>)"
  "closure_loop get visited (path # rest) n =
     (if bt_get visited path \<noteq> None then closure_loop get visited rest n
      else (case get path of
        Inl e \<Rightarrow> Some (Inl (GcDb e))
      | Inr None \<Rightarrow> Some (Inl (GcNotRegistered path))
      | Inr (Some info) \<Rightarrow>
          let visited' = bt_insert path () visited in
          closure_loop get visited' (rest @ filter (\<lambda>r. bt_get visited' r = None) (pi_references info))
            (n + pi_nar_size info)))"
  by (subst closure_loop.simps, simp)+

lemma closure_loop_ok:
  assumes "finite (reach get root)" "closed_in get root visited queue n"
  shows "\<exists>r. closure_loop get visited queue n = Some r \<and> closure_ok get root r"
  using assms(2)
proof (induction "(card (reach get root - dom (bt_get visited)), queue)" arbitrary: visited queue n
    rule: wf_induct_rule[OF wf_lex_prod[OF wf_measure[of id] wf_measure[of length]]])
  case (1 visited queue n)
  show ?case
  proof (cases queue)
    case Nil
    have "reach get root = dom (bt_get visited)"
      using "1.prems" Nil closed_reach[of root "dom (bt_get visited)" get] by (auto simp: closed_in_def)
    then have "closure_ok get root (Inr \<lparr>cl_paths = visited, cl_total_nar_size = n\<rparr>)"
      using "1.prems" by (auto simp: closed_in_def closure_ok_def bt_keys_dom)
    then show ?thesis using Nil by (simp add: closure_loop_simps)
  next
    case (Cons path rest)
    have path: "path \<in> reach get root" using "1.prems" Cons by (simp add: closed_in_def)
    show ?thesis
    proof (cases "bt_get visited path")
      case (Some u)
      then have "closed_in get root visited rest n" using closed_in_skip "1.prems" Cons by blast
      then have "\<exists>r. closure_loop get visited rest n = Some r \<and> closure_ok get root r"
        by (rule "1.hyps"[rotated]) (simp add: Cons)
      then show ?thesis using Cons Some by (simp add: closure_loop_simps)
    next
      case None
      show ?thesis
      proof (cases "registered get path")
        case False
        then show ?thesis using Cons None path
          by (auto simp: closure_loop_simps closure_ok_def registered_def
              split: sum.splits option.splits)
      next
        case True
        then obtain info where info: "get path = Inr (Some info)" by (auto simp: registered_def)
        define v where "v = bt_insert path () visited"
        have d: "dom (bt_get v) = insert path (dom (bt_get visited))" by (simp add: v_def bt_simps)
        have "reach get root - dom (bt_get v) \<subset> reach get root - dom (bt_get visited)"
          using path None d by auto
        then have "card (reach get root - dom (bt_get v)) < card (reach get root - dom (bt_get visited))"
          using assms(1) by (intro psubset_card_mono) auto
        moreover have "closed_in get root v (rest @ filter (\<lambda>r. bt_get v r = None) (pi_references info)) (n + pi_nar_size info)"
          by (rule closed_in_visit[OF _ None info assms(1) v_def]) (use "1.prems" Cons in simp)
        ultimately have "\<exists>r. closure_loop get v (rest @ filter (\<lambda>r. bt_get v r = None) (pi_references info))
            (n + pi_nar_size info) = Some r \<and> closure_ok get root r"
          by (intro "1.hyps") auto
        then show ?thesis using Cons None info
          by (simp add: closure_loop_simps v_def Let_def)
      qed
    qed
  qed
qed

lemma compute_closure_ok:
  assumes "finite (reach get root)"
  shows "\<exists>r. compute_closure get root = Some r \<and> closure_ok get root r"
  unfolding compute_closure_def
  by (rule closure_loop_ok[OF assms]) (simp add: closed_in_def reach_root)

text \<open>A database with finitely many files gives every path a finite closure.\<close>

lemma pdb_get_SomeD:
  assumes "pdb_get fs db p w = Inr (Some info)"
  shows "\<exists>h text. dbf_exists fs (path_join db (h @ ''.json'')) w
    \<and> dbf_read fs (path_join db (h @ ''.json'')) w = Inr text \<and> dbf_decode fs text = Some info"
    and "pdb_is_registered fs db p w"
  using assms by (auto simp: pdb_get_def pdb_is_registered_def info_file_def store_path_hash_def
      split: option.splits sum.splits if_splits)

definition finite_db :: "('w, 'x) db_fs_scheme \<Rightarrow> path_buf \<Rightarrow> 'w \<Rightarrow> bool" where
  "finite_db fs db w \<longleftrightarrow> finite {h. dbf_exists fs (path_join db (h @ ''.json'')) w}"

lemma finite_reach:
  assumes "finite_db fs db w"
  shows "finite (reach (\<lambda>p. pdb_get fs db p w) root)"
proof -
  let ?get = "\<lambda>p. pdb_get fs db p w"
  define refs where "refs h = (case dbf_read fs (path_join db (h @ ''.json'')) w of
      Inl _ \<Rightarrow> {} | Inr text \<Rightarrow> (case dbf_decode fs text of None \<Rightarrow> {} | Some info \<Rightarrow> set (pi_references info)))" for h
  let ?A = "insert root (\<Union>h\<in>{h. dbf_exists fs (path_join db (h @ ''.json'')) w}. refs h)"
  have "refers ?get `` {p} \<subseteq> ?A" for p
    using pdb_get_SomeD(1)[of fs db p w] by (fastforce simp: refers_def refs_def)
  then have "reach ?get root \<subseteq> ?A" by (intro closed_reach) auto
  moreover have "finite (refs h)" for h by (simp add: refs_def split: sum.splits option.splits)
  then have "finite ?A" using assms by (simp add: finite_db_def)
  ultimately show ?thesis by (rule finite_subset)
qed

section \<open>What survives a collection\<close>

text \<open>
  \<open>complete\<close>: every path the root needs is registered. \<open>protected\<close>: the paths some complete
  root needs.
\<close>

definition complete_root :: "(string \<Rightarrow> path_info_error + path_info option) \<Rightarrow> string \<Rightarrow> bool" where
  "complete_root get target \<longleftrightarrow> (\<forall>q\<in>reach get target. registered get q)"

definition protected :: "(string \<Rightarrow> path_info_error + path_info option) \<Rightarrow> gc_root list \<Rightarrow> string set" where
  "protected get roots = (\<Union>root\<in>{root \<in> set roots. complete_root get (gr_target root)}. reach get (gr_target root))"

lemma protected_Cons:
  "protected get (root # roots) =
     (if complete_root get (gr_target root) then reach get (gr_target root) else {}) \<union> protected get roots"
  by (auto simp: protected_def)

lemma protected_Nil: "protected get [] = {}"
  by (simp add: protected_def)

lemma closure_ok_cases:
  assumes "closure_ok get root r"
  shows "complete_root get root \<Longrightarrow> \<exists>c. r = Inr c \<and> set (bt_keys (cl_paths c)) = reach get root"
    and "\<not> complete_root get root \<Longrightarrow> \<exists>e. r = Inl e"
  using assms by (cases r; auto simp: closure_ok_def complete_root_def)+

lemma live_loop_ok:
  assumes "finite_db fs db w" "bt_inv live"
  shows "\<exists>live'. live_loop fs db w roots live = Some live' \<and> bt_inv live'
    \<and> dom (bt_get live') = dom (bt_get live) \<union> protected (\<lambda>p. pdb_get fs db p w) roots"
  using assms(2)
proof (induction roots arbitrary: live)
  case Nil
  then show ?case by (simp add: protected_Nil)
next
  case (Cons root roots)
  let ?get = "\<lambda>p. pdb_get fs db p w" and ?t = "gr_target root"
  obtain r where r: "compute_closure ?get ?t = Some r" and ok: "closure_ok ?get ?t r"
    using compute_closure_ok[OF finite_reach[OF assms(1)]] by blast
  show ?case
  proof (cases "complete_root ?get ?t")
    case True
    then obtain c where c: "r = Inr c" "set (bt_keys (cl_paths c)) = reach ?get ?t"
      using closure_ok_cases(1)[OF ok] by blast
    have "registered ?get ?t" using True reach_root by (auto simp: complete_root_def)
    then have reg: "pdb_is_registered fs db ?t w" using pdb_get_SomeD(2) by (auto simp: registered_def)
    let ?live = "fold (\<lambda>p. bt_insert p ()) (bt_keys (cl_paths c)) live"
    have "bt_inv ?live" using btd.inv_fold[OF Cons.prems, of "\<lambda>p. p" "\<lambda>_. ()"] .
    moreover have "dom (bt_get ?live) = dom (bt_get live) \<union> reach ?get ?t"
      using btd.dom_fold[OF Cons.prems, of "\<lambda>p. p" "\<lambda>_. ()" "bt_keys (cl_paths c)"] c(2) by auto
    ultimately show ?thesis
      using Cons.IH[of ?live] r c(1) reg True by (auto simp: protected_Cons)
  next
    case False
    then obtain e where "r = Inl e" using closure_ok_cases(2)[OF ok] by blast
    then show ?thesis using Cons.IH[OF Cons.prems] r False by (simp add: protected_Cons)
  qed
qed

lemma garbage_collect_eq:
  assumes "finite_db fs db w" "all_paths_set fs db w = Inr all_paths" "list_roots fs roots_dir w = Inr roots"
  defines "live \<equiv> protected (\<lambda>p. pdb_get fs db p w) roots"
  shows "garbage_collect fs db roots_dir dry_run w =
    sweep fs db dry_run (filter (\<lambda>p. p \<notin> live) (bt_keys all_paths))
      \<lparr>paths_deleted = 0, bytes_freed = 0, paths_kept = of_nat (card live)\<rparr> w"
proof -
  obtain l where l: "live_loop fs db w roots [] = Some l" "bt_inv l" "dom (bt_get l) = live"
    using live_loop_ok[OF assms(1), of "[]" roots] by (auto simp: live_def)
  have "card live = length l"
    using bt_inv_distinct[OF l(2)] distinct_card[of "bt_keys l"] l(3) by (simp add: bt_keys_dom) (simp add: bt_keys_def)
  moreover have "(bt_get l p = None) = (p \<notin> live)" for p using l(3) by auto
  ultimately show ?thesis
    using assms(2,3) l(1) by (simp add: garbage_collect_def compute_live_set_def Let_def)
qed

lemma keeps_delete_dead:
  assumes "keeps P (gcf_remove_dir_all fs p)" "keeps P (dbf_remove_file fs p)"
    "\<And>h. keeps P (dbf_remove_file fs (path_join db (h @ ''.json'')))"
  shows "keeps P (delete_dead fs db p)"
proof (rule keepsI)
  fix w assume w: "P w"
  have del: "keeps P (pdb_delete fs db p)"
    by (rule keepsI) (auto simp: pdb_delete_def info_file_def store_path_hash_def
        intro: keeps_snd[OF keeps_map_err[OF assms(3)]] split: sum.splits option.splits)
  have "keeps P (bindS (if dbf_exists fs p w
        then map_err GcIo (if gcf_is_dir fs p w then gcf_remove_dir_all fs p else dbf_remove_file fs p) else ret ())
      (\<lambda>_. map_err GcDb (pdb_delete fs db p)))"
    by (intro keeps_bindS keeps_map_err del) (auto intro: keeps_map_err keeps_ret assms)
  from keeps_snd[OF this w] show "P (snd (delete_dead fs db p w))" by (simp add: delete_dead_def)
qed

lemma keeps_sweep:
  assumes "\<And>p. p \<in> set ps \<Longrightarrow> keeps P (delete_dead fs db p)" "P w" "sweep fs db dry_run ps stats w = Some (r, w')"
  shows "P w'"
  using assms
proof (induction ps arbitrary: stats w)
  case (Cons p ps)
  obtain d w1 where d: "delete_dead fs db p w = (d, w1)" by fastforce
  have "P w1" using keepsD[OF Cons.prems(1)[of p] Cons.prems(2) d] by simp
  with Cons d show ?case by (auto simp: Let_def split: option.splits sum.splits if_splits)
qed simp

lemma sweep_dry: "sweep fs db True ps stats w = Some (r, w') \<Longrightarrow> w' = w"
  by (induction ps arbitrary: stats) (auto simp: Let_def split: option.splits)

text \<open>
  The laws of removal on the store paths \<open>S\<close>, which do not lie inside one another: a removal that
  succeeds takes its path away and no other path of \<open>S\<close>; removing a metadata file takes none.
\<close>

definition removal_laws :: "('w, 'x) gc_fs_scheme \<Rightarrow> path_buf \<Rightarrow> string set \<Rightarrow> bool" where
  "removal_laws fs db S \<longleftrightarrow>
     (\<forall>p\<in>S. \<forall>q\<in>S. \<forall>w. q \<noteq> p \<longrightarrow> dbf_exists fs q (snd (gcf_remove_dir_all fs p w)) = dbf_exists fs q w
        \<and> dbf_exists fs q (snd (dbf_remove_file fs p w)) = dbf_exists fs q w)
   \<and> (\<forall>p\<in>S. \<forall>w w'. (gcf_remove_dir_all fs p w = (Inr (), w') \<longrightarrow> \<not> dbf_exists fs p w')
        \<and> (dbf_remove_file fs p w = (Inr (), w') \<longrightarrow> \<not> dbf_exists fs p w'))
   \<and> (\<forall>q\<in>S. \<forall>h w. dbf_exists fs q (snd (dbf_remove_file fs (path_join db (h @ ''.json'')) w)) = dbf_exists fs q w)"

lemma delete_dead_exists:
  assumes "removal_laws fs db S" "p \<in> S" "q \<in> S" "delete_dead fs db p w = (Inr (), w')"
  shows "dbf_exists fs q w' \<longleftrightarrow> dbf_exists fs q w \<and> q \<noteq> p"
proof -
  obtain w1 where
    one: "(if dbf_exists fs p w then
         map_err GcIo (if gcf_is_dir fs p w then gcf_remove_dir_all fs p else dbf_remove_file fs p)
       else ret ()) w = (Inr (), w1)"
    and two: "map_err GcDb (pdb_delete fs db p) w1 = (Inr (), w')"
    using assms(4) unfolding delete_dead_def by (auto elim!: bindS_InrE)
  have meta: "dbf_exists fs q (snd (dbf_remove_file fs (path_join db (h @ ''.json'')) w1)) = dbf_exists fs q w1" for h
    using assms(1,3) unfolding removal_laws_def by blast
  have "dbf_exists fs q w' = dbf_exists fs q w1"
    using two meta by (auto simp: map_err_def pdb_delete_def info_file_def store_path_hash_def
        split: sum.splits option.splits if_splits prod.splits) (metis snd_conv)+
  moreover have "dbf_exists fs q w1 \<longleftrightarrow> dbf_exists fs q w \<and> q \<noteq> p"
  proof (cases "q = p")
    case True
    then show ?thesis using one assms(1,2) unfolding removal_laws_def
      by (auto simp: map_err_def ret_def split: if_splits sum.splits prod.splits)
  next
    case False
    then have "dbf_exists fs q (snd (gcf_remove_dir_all fs p w)) = dbf_exists fs q w"
      "dbf_exists fs q (snd (dbf_remove_file fs p w)) = dbf_exists fs q w"
      using assms(1-3) unfolding removal_laws_def by blast+
    then show ?thesis using one False
      by (auto simp: map_err_def ret_def split: if_splits sum.splits prod.splits)
  qed
  ultimately show ?thesis by simp
qed

lemma sweep_exists:
  assumes "removal_laws fs db S" "set ps \<subseteq> S" "q \<in> S" "sweep fs db False ps stats w = Some (Inr stats', w')"
  shows "dbf_exists fs q w' \<longleftrightarrow> dbf_exists fs q w \<and> q \<notin> set ps"
  using assms(2,4)
proof (induction ps arbitrary: stats w)
  case (Cons p ps)
  obtain r w1 where d: "delete_dead fs db p w = (r, w1)" by fastforce
  with Cons.prems(2) have r: "r = Inr ()" by (cases r) (auto simp: Let_def split: option.splits)
  have "dbf_exists fs q w1 \<longleftrightarrow> dbf_exists fs q w \<and> q \<noteq> p"
    using delete_dead_exists[OF assms(1) _ assms(3)] d r Cons.prems(1) by auto
  moreover have "dbf_exists fs q w' \<longleftrightarrow> dbf_exists fs q w1 \<and> q \<notin> set ps"
    using Cons.IH Cons.prems d r by (auto simp: Let_def split: option.splits)
  ultimately show ?case by auto
qed simp

lemma collection_survivors:
  assumes "finite_db fs db w" "all_paths_set fs db w = Inr all_paths" "list_roots fs roots_dir w = Inr roots"
    and "removal_laws fs db (set (bt_keys all_paths))"
    and "garbage_collect fs db roots_dir False w = Some (Inr stats, w')" "p \<in> set (bt_keys all_paths)"
  shows "dbf_exists fs p w' \<longleftrightarrow> dbf_exists fs p w \<and> p \<in> protected (\<lambda>p. pdb_get fs db p w) roots"
  using sweep_exists[OF assms(4) _ assms(6) assms(5)[unfolded garbage_collect_eq[OF assms(1-3)]]] assms(6) by auto

lemma collect_keeps:
  assumes "finite_db fs db w" "all_paths_set fs db w = Inr all_paths" "list_roots fs roots_dir w = Inr roots"
    and "root \<in> set roots" "complete_root (\<lambda>p. pdb_get fs db p w) (gr_target root)"
    and "p \<in> reach (\<lambda>p. pdb_get fs db p w) (gr_target root)"
    and "\<And>q. q \<in> set (bt_keys all_paths) \<Longrightarrow> q \<noteq> p \<Longrightarrow> keeps P (gcf_remove_dir_all fs q) \<and> keeps P (dbf_remove_file fs q)"
    and "\<And>h. keeps P (dbf_remove_file fs (path_join db (h @ ''.json'')))"
    and "P w" "garbage_collect fs db roots_dir dry_run w = Some (r, w')"
  shows "P w'"
proof -
  have live: "p \<in> protected (\<lambda>p. pdb_get fs db p w) roots" using assms(4-6) by (auto simp: protected_def)
  show ?thesis
    by (rule keeps_sweep[where P = P, OF keeps_delete_dead assms(9) assms(10)[unfolded garbage_collect_eq[OF assms(1-3)]]])
      (use live assms(7,8) in auto)
qed

lemma sweep_returns: "(\<And>p w. path_size fs p w \<noteq> None) \<Longrightarrow> \<exists>r w'. sweep fs db dry_run ps stats w = Some (r, w')"
  by (induction ps arbitrary: stats w) (auto simp: Let_def split: option.splits sum.splits prod.splits)

section \<open>A store in memory\<close>

text \<open>
  Paths \<open>a\<close> and \<open>b\<close>, where \<open>a\<close> refers to \<open>b\<close>; a directory entry or a file is a key of the map.
\<close>

definition sample_info :: "string \<Rightarrow> string list \<Rightarrow> path_info" where
  "sample_info p refs = \<lparr>pi_store_path = p, pi_nar_hash = [], pi_nar_size = 5, pi_references = refs, pi_deriver = None,
     pi_registration_time = [], pi_signatures = [], pi_files = []\<rparr>"

definition mem_gc :: "string list \<Rightarrow> string \<Rightarrow> (path_buf \<rightharpoonup> string) gc_fs" where
  "mem_gc names target =
     \<lparr>dbf_hash = (\<lambda>p. strip_prefix p ''/nix/store/''), dbf_hex = (\<lambda>_. None),
      dbf_encode = pi_store_path,
      dbf_decode = (\<lambda>s. if s = ''a'' then Some (sample_info ''/nix/store/a'' [''/nix/store/b''])
                        else if s = ''b'' then Some (sample_info ''/nix/store/b'' []) else None),
      dbf_encode_files = (\<lambda>_. []), dbf_decode_files = (\<lambda>_. None),
      dbf_exists = (\<lambda>p w. w p \<noteq> None),
      dbf_read = (\<lambda>p w. case w p of Some s \<Rightarrow> Inr s | None \<Rightarrow> Inl NotFound),
      dbf_read_dir = (\<lambda>p w. Inr (if p = ''/db'' then map Inr names else if p = ''/roots'' then [Inr ''r''] else [])),
      dbf_create_dir_all = (\<lambda>_. ret ()), dbf_write = (\<lambda>p s w. (Inr (), w(p \<mapsto> s))),
      dbf_remove_file = (\<lambda>p w. (Inr (), w(p := None))),
      gcf_is_file = (\<lambda>p w. w p \<noteq> None), gcf_is_dir = (\<lambda>_ _. False), gcf_len = (\<lambda>_ _. Inr 5),
      gcf_lexists = (\<lambda>p w. w p \<noteq> None), gcf_read_link = (\<lambda>p w. Inr target),
      gcf_symlink = (\<lambda>s p w. (Inr (), w(p \<mapsto> s))), gcf_remove_dir_all = (\<lambda>p w. (Inr (), w(p := None)))\<rparr>"

definition full_store :: "path_buf \<rightharpoonup> string" where
  "full_store = [''/db/a.json'' \<mapsto> ''a'', ''/db/b.json'' \<mapsto> ''b'', ''/nix/store/a'' \<mapsto> [], ''/nix/store/b'' \<mapsto> []]"

definition partial_store :: "path_buf \<rightharpoonup> string" where
  "partial_store = [''/db/a.json'' \<mapsto> ''a'', ''/nix/store/a'' \<mapsto> []]"

lemmas mem_gc_eval = mem_gc_def full_store_def partial_store_def sample_info_def pdb_get_def info_file_def
  store_path_hash_def strip_prefix_def path_join_def

lemma mem_gc_finite:
  assumes "finite (dom w)"
  shows "finite_db (mem_gc names t) ''/db'' w"
proof -
  have "sublist h (path_join ''/db'' (h @ ''.json''))" for h
    by (simp add: path_join_def sublist_Cons_right)
  then have "{h. path_join ''/db'' (h @ ''.json'') \<in> dom w} \<subseteq> (\<Union>f\<in>dom w. set (sublists f))"
    by auto
  then have "finite {h. path_join ''/db'' (h @ ''.json'') \<in> dom w}"
    by (rule finite_subset) (simp add: assms)
  then show ?thesis by (simp add: finite_db_def mem_gc_def dom_def)
qed

lemma mem_gc_meta:
  assumes "p \<in> {''/nix/store/a'', ''/nix/store/b''}"
  shows "path_join ''/db'' (h @ ''.json'') \<noteq> p"
proof -
  have "last p \<noteq> CHR ''n''" using assms by auto
  moreover have "last (path_join ''/db'' (h @ ''.json'')) = CHR ''n''" by (simp add: path_join_def)
  ultimately show ?thesis by metis
qed

lemma mem_gc_ops:
  "dbf_exists (mem_gc names t) p w \<longleftrightarrow> w p \<noteq> None"
  "dbf_remove_file (mem_gc names t) p w = (Inr (), w(p := None))"
  "gcf_remove_dir_all (mem_gc names t) p w = (Inr (), w(p := None))"
  by (simp_all add: mem_gc_def)

lemma mem_gc_laws:
  assumes "S \<subseteq> {''/nix/store/a'', ''/nix/store/b''}"
  shows "removal_laws (mem_gc names t) ''/db'' S"
proof -
  have "q \<noteq> path_join ''/db'' (h @ ''.json'')" if "q \<in> S" for q h
    using mem_gc_meta[of q h] that assms by blast
  then show ?thesis unfolding removal_laws_def mem_gc_ops snd_conv by auto
qed

lemma path_size_loop_simps:
  "path_size_loop fs w [] n = Some (Inr n)"
  "path_size_loop fs w (Inr p # rest) n =
     (if gcf_is_file fs p w then
        (case gcf_len fs p w of Inl e \<Rightarrow> Some (Inl e) | Inr k \<Rightarrow> path_size_loop fs w rest (n + k))
      else if gcf_is_dir fs p w then
        (case dbf_read_dir fs p w of
           Inl e \<Rightarrow> Some (Inl e)
         | Inr es \<Rightarrow> path_size_loop fs w (map (map_sum id (path_join p)) es @ rest) n)
      else path_size_loop fs w rest n)"
  by (subst path_size_loop.simps, simp)+

lemma mem_gc_get:
  "pdb_get (mem_gc names t) ''/db'' ''/nix/store/a'' partial_store = Inr (Some (sample_info ''/nix/store/a'' [''/nix/store/b'']))"
  "pdb_get (mem_gc names t) ''/db'' ''/nix/store/b'' partial_store = Inr None"
  "pdb_get (mem_gc names t) ''/db'' ''/nix/store/a'' full_store = Inr (Some (sample_info ''/nix/store/a'' [''/nix/store/b'']))"
  "pdb_get (mem_gc names t) ''/db'' ''/nix/store/b'' full_store = Inr (Some (sample_info ''/nix/store/b'' []))"
  by (simp_all add: mem_gc_eval)

lemma mem_gc_lists:
  "all_paths_set (mem_gc [''a.json''] t) ''/db'' partial_store = Inr [(''/nix/store/a'', ())]"
  "all_paths_set (mem_gc [''b.json'', ''a.json''] t) ''/db'' full_store = Inr [(''/nix/store/a'', ()), (''/nix/store/b'', ())]"
  "list_roots (mem_gc names t) ''/roots'' w = Inr [\<lparr>gr_name = ''r'', gr_target = t\<rparr>]"
  by (simp_all add: all_paths_set_def list_paths_def list_roots_def mem_gc_eval suffix_def)

lemma mem_gc_reach:
  "reach (\<lambda>p. pdb_get (mem_gc names t) ''/db'' p full_store) ''/nix/store/a'' = {''/nix/store/a'', ''/nix/store/b''}"
  "reach (\<lambda>p. pdb_get (mem_gc names t) ''/db'' p full_store) ''/nix/store/b'' = {''/nix/store/b''}"
  "''/nix/store/b'' \<in> reach (\<lambda>p. pdb_get (mem_gc names t) ''/db'' p partial_store) ''/nix/store/a''"
proof -
  let ?full = "\<lambda>p. pdb_get (mem_gc names t) ''/db'' p full_store"
  have "reach ?full ''/nix/store/a'' \<subseteq> {''/nix/store/a'', ''/nix/store/b''}"
    by (rule closed_reach) (auto simp: refers_def mem_gc_get sample_info_def)
  moreover have "''/nix/store/b'' \<in> reach ?full ''/nix/store/a''"
    using reach_step[of _ ?full, OF reach_root mem_gc_get(3)[of names t]] by (simp add: sample_info_def)
  ultimately show "reach ?full ''/nix/store/a'' = {''/nix/store/a'', ''/nix/store/b''}"
    using reach_root[of "''/nix/store/a''" ?full] by blast
  have "reach ?full ''/nix/store/b'' \<subseteq> {''/nix/store/b''}"
    by (rule closed_reach) (auto simp: refers_def mem_gc_get sample_info_def)
  then show "reach ?full ''/nix/store/b'' = {''/nix/store/b''}"
    using reach_root[of "''/nix/store/b''" ?full] by blast
  show "''/nix/store/b'' \<in> reach (\<lambda>p. pdb_get (mem_gc names t) ''/db'' p partial_store) ''/nix/store/a''"
    using reach_step[of _ "\<lambda>p. pdb_get (mem_gc names t) ''/db'' p partial_store", OF reach_root mem_gc_get(1)[of names t]] by (simp add: sample_info_def)
qed

lemma mem_gc_sweep:
  assumes "\<forall>p\<in>set ps. prefix ''/nix/store/'' p"
  shows "\<exists>stats' w'. sweep (mem_gc names t) ''/db'' False ps stats w = Some (Inr stats', w')"
  using assms
proof (induction ps arbitrary: stats w)
  case (Cons p ps)
  obtain n where n: "path_size (mem_gc names t) p w = Some (Inr n)"
    by (cases "w p") (auto simp: path_size_def path_size_loop_simps mem_gc_def)
  obtain h where h: "strip_prefix p ''/nix/store/'' = Some h" using Cons.prems by (simp add: strip_prefix_def)
  have "fst (delete_dead (mem_gc names t) ''/db'' p w) = Inr ()"
    by (simp add: delete_dead_def pdb_delete_def info_file_def store_path_hash_def mem_gc_def io_defs h split: prod.splits)
  then obtain w1 where "delete_dead (mem_gc names t) ''/db'' p w = (Inr (), w1)"
    by (cases "delete_dead (mem_gc names t) ''/db'' p w") auto
  then show ?case using Cons n by (simp add: Let_def)
qed simp

lemma mem_gc_dbs: "finite_db (mem_gc names t) ''/db'' full_store" "finite_db (mem_gc names t) ''/db'' partial_store"
  by (auto intro!: mem_gc_finite simp: full_store_def partial_store_def)

lemma mem_gc_full:
  "\<exists>stats w'. garbage_collect (mem_gc [''b.json'', ''a.json''] t) ''/db'' ''/roots'' False full_store = Some (Inr stats, w')"
  unfolding garbage_collect_eq[OF mem_gc_dbs(1) mem_gc_lists(2,3)]
  by (rule mem_gc_sweep) (simp add: bt_keys_def)

lemma mem_gc_partial:
  "\<exists>stats w'. garbage_collect (mem_gc [''a.json''] t) ''/db'' ''/roots'' False partial_store = Some (Inr stats, w')"
  unfolding garbage_collect_eq[OF mem_gc_dbs(2) mem_gc_lists(1,3)]
  by (rule mem_gc_sweep) (simp add: bt_keys_def)

section \<open>Properties\<close>

text \<open>
  C13: computing a closure returns whenever the database has finitely many files. It succeeds exactly
  if every path reachable from the root through references is registered and readable; the result is then
  the sorted set of the reachable paths, with the sum of their sizes (modulo 2 to the 64).
\<close>

theorem compute_closure_reachable:
  assumes "finite_db fs db w"
  defines "get \<equiv> (\<lambda>p. pdb_get fs db p w)"
  shows "\<exists>r. compute_closure get root = Some r \<and>
    (case r of
       Inr c \<Rightarrow> (\<forall>p\<in>reach get root. registered get p) \<and> bt_keys (cl_paths c) = sorted_list_of_set (reach get root)
         \<and> cl_total_nar_size c = (\<Sum>p\<in>reach get root. nar_size_of get p)
     | Inl _ \<Rightarrow> \<exists>p\<in>reach get root. \<not> registered get p)"
proof -
  obtain r where r: "compute_closure get root = Some r" "closure_ok get root r"
    using compute_closure_ok[OF finite_reach[OF assms(1)]] unfolding get_def by blast
  have "bt_inv m \<Longrightarrow> bt_keys m = sorted_list_of_set (set (bt_keys m))" for m :: "(string, unit) btree"
    using btd.keys_sorted[of m] by (simp add: strict_sorted_iff sorted_list_of_set.idem_if_sorted_distinct)
  with r show ?thesis by (fastforce simp: closure_ok_def split: sum.splits)
qed

theorem compute_closure_reachable_witness:
  "\<exists>c. compute_closure (\<lambda>p. pdb_get (mem_gc [] []) ''/db'' p full_store) ''/nix/store/a'' = Some (Inr c)
    \<and> bt_keys (cl_paths c) = [''/nix/store/a'', ''/nix/store/b''] \<and> cl_total_nar_size c = 10"
proof -
  let ?get = "\<lambda>p. pdb_get (mem_gc [] []) ''/db'' p full_store"
  have reg: "registered ?get ''/nix/store/a''" "registered ?get ''/nix/store/b''"
    by (simp_all add: registered_def mem_gc_get)
  have size: "nar_size_of ?get ''/nix/store/a'' = 5" "nar_size_of ?get ''/nix/store/b'' = 5"
    by (simp_all add: nar_size_of_def mem_gc_get sample_info_def)
  obtain r where "compute_closure ?get ''/nix/store/a'' = Some r \<and>
      (case r of
         Inr c \<Rightarrow> (\<forall>p\<in>reach ?get ''/nix/store/a''. registered ?get p)
           \<and> bt_keys (cl_paths c) = sorted_list_of_set (reach ?get ''/nix/store/a'')
           \<and> cl_total_nar_size c = (\<Sum>p\<in>reach ?get ''/nix/store/a''. nar_size_of ?get p)
       | Inl _ \<Rightarrow> \<exists>p\<in>reach ?get ''/nix/store/a''. \<not> registered ?get p)"
    using compute_closure_reachable[OF mem_gc_dbs(1), of "[]" "[]" "''/nix/store/a''"] by blast
  then show ?thesis using reg size by (cases r) (auto simp: mem_gc_reach)
qed

text \<open>
  C5: a collection that succeeds takes away exactly the unprotected paths: a registered path is still
  on disk afterwards if and only if it was there before and a root, all of whose reachable paths are registered,
  reaches it.
\<close>

theorem collection_keeps_exactly_protected:
  assumes "finite_db fs db w" "all_paths_set fs db w = Inr all_paths" "list_roots fs roots_dir w = Inr roots"
    and "removal_laws fs db (set (bt_keys all_paths))"
    and "garbage_collect fs db roots_dir False w = Some (Inr stats, w')"
  shows "\<forall>p\<in>set (bt_keys all_paths).
    dbf_exists fs p w' \<longleftrightarrow> dbf_exists fs p w \<and> p \<in> protected (\<lambda>p. pdb_get fs db p w) roots"
  using collection_survivors[OF assms] by blast

theorem collection_keeps_exactly_protected_witness:
  "\<exists>stats w'. garbage_collect (mem_gc [''b.json'', ''a.json''] ''/nix/store/b'') ''/db'' ''/roots'' False full_store
      = Some (Inr stats, w')
    \<and> (w' ''/nix/store/a'' \<noteq> None \<longleftrightarrow> full_store ''/nix/store/a'' \<noteq> None \<and>
        ''/nix/store/a'' \<in> protected (\<lambda>p. pdb_get (mem_gc [''b.json'', ''a.json''] ''/nix/store/b'') ''/db'' p full_store)
          [\<lparr>gr_name = ''r'', gr_target = ''/nix/store/b''\<rparr>])"
proof -
  obtain stats w' where gc:
    "garbage_collect (mem_gc [''b.json'', ''a.json''] ''/nix/store/b'') ''/db'' ''/roots'' False full_store = Some (Inr stats, w')"
    using mem_gc_full by blast
  have "removal_laws (mem_gc [''b.json'', ''a.json''] ''/nix/store/b'') ''/db''
      (set (bt_keys [(''/nix/store/a'', ()), (''/nix/store/b'', ())]))"
    by (rule mem_gc_laws) (simp add: bt_keys_def)
  from collection_keeps_exactly_protected[OF mem_gc_dbs(1) mem_gc_lists(2,3) this gc] gc
  show ?thesis by (simp add: bt_keys_def) (simp add: mem_gc_def)
qed

text \<open>
  No run of the collector, dry or not, finished or stopped by an error, affects what a complete root
  reaches: whatever holds of such a path and is not affected by removing other registered paths or metadata
  files holds afterwards.
\<close>

theorem collection_spares_live:
  assumes "finite_db fs db w" "all_paths_set fs db w = Inr all_paths" "list_roots fs roots_dir w = Inr roots"
    and "root \<in> set roots" "complete_root (\<lambda>p. pdb_get fs db p w) (gr_target root)"
    and "p \<in> reach (\<lambda>p. pdb_get fs db p w) (gr_target root)"
    and "\<And>q. q \<in> set (bt_keys all_paths) \<Longrightarrow> q \<noteq> p \<Longrightarrow> keeps P (gcf_remove_dir_all fs q) \<and> keeps P (dbf_remove_file fs q)"
    and "\<And>h. keeps P (dbf_remove_file fs (path_join db (h @ ''.json'')))"
    and "P w" "garbage_collect fs db roots_dir dry_run w = Some (r, w')"
  shows "P w'"
  by (rule collect_keeps[OF assms])

theorem collection_spares_live_witness:
  "\<exists>r w'. garbage_collect (mem_gc [''b.json'', ''a.json''] ''/nix/store/b'') ''/db'' ''/roots'' False full_store
      = Some (r, w') \<and> w' ''/nix/store/b'' = Some []"
proof -
  let ?fs = "mem_gc [''b.json'', ''a.json''] ''/nix/store/b''"
  obtain stats w' where gc: "garbage_collect ?fs ''/db'' ''/roots'' False full_store = Some (Inr stats, w')"
    using mem_gc_full by blast
  have root: "complete_root (\<lambda>p. pdb_get ?fs ''/db'' p full_store) ''/nix/store/b''"
    by (simp add: complete_root_def mem_gc_reach registered_def mem_gc_get)
  have meta: "path_join ''/db'' (h @ ''.json'') \<noteq> ''/nix/store/b''" for h by (rule mem_gc_meta) simp
  have here: "full_store ''/nix/store/b'' = Some []" by (simp add: full_store_def)
  have keep: "keeps (\<lambda>w. w ''/nix/store/b'' = Some []) (gcf_remove_dir_all ?fs q)"
      "keeps (\<lambda>w. w ''/nix/store/b'' = Some []) (dbf_remove_file ?fs q)" if "q \<noteq> ''/nix/store/b''" for q
    using that by (auto simp: keeps_def mem_gc_def)
  have "w' ''/nix/store/b'' = Some []"
    by (rule collection_spares_live[OF mem_gc_dbs(1) mem_gc_lists(2,3) _ _ _ _ _ _ gc,
        of "\<lparr>gr_name = ''r'', gr_target = ''/nix/store/b''\<rparr>" "''/nix/store/b''"])
      (use root keep meta here in \<open>simp_all add: mem_gc_reach\<close>)
  with gc show ?thesis by blast
qed

text \<open>
  A path with a root of its own is collected when one path it reaches is not registered: the
  closure of the root cannot be computed, the root is skipped with a warning, and the path and everything that
  only it keeps alive is deleted.
\<close>

theorem rooted_path_collected:
  assumes "finite_db fs db w" "all_paths_set fs db w = Inr all_paths" "list_roots fs roots_dir w = Inr [root]"
    and "removal_laws fs db (set (bt_keys all_paths))"
    and "garbage_collect fs db roots_dir False w = Some (Inr stats, w')"
    and "q \<in> reach (\<lambda>p. pdb_get fs db p w) (gr_target root)" "pdb_get fs db q w = Inr None"
    and "gr_target root \<in> set (bt_keys all_paths)"
  shows "\<not> dbf_exists fs (gr_target root) w'"
proof -
  have "\<not> complete_root (\<lambda>p. pdb_get fs db p w) (gr_target root)"
    using assms(6,7) by (auto simp: complete_root_def registered_def intro!: bexI[of _ q])
  then show ?thesis using collection_survivors[OF assms(1-5) assms(8)] by (simp add: protected_Cons protected_Nil)
qed


theorem rooted_path_collected_witness:
  "\<exists>stats w'. garbage_collect (mem_gc [''a.json''] ''/nix/store/a'') ''/db'' ''/roots'' False partial_store
      = Some (Inr stats, w') \<and> partial_store ''/nix/store/a'' = Some [] \<and> w' ''/nix/store/a'' = None"
proof -
  let ?fs = "mem_gc [''a.json''] ''/nix/store/a''"
  obtain stats w' where gc: "garbage_collect ?fs ''/db'' ''/roots'' False partial_store = Some (Inr stats, w')"
    using mem_gc_partial by blast
  have laws: "removal_laws ?fs ''/db'' (set (bt_keys [(''/nix/store/a'', ())]))"
    by (rule mem_gc_laws) (simp add: bt_keys_def)
  have "\<not> dbf_exists ?fs ''/nix/store/a'' w'"
    using rooted_path_collected[OF mem_gc_dbs(2) mem_gc_lists(1,3) laws gc, of "''/nix/store/b''"]
    by (simp add: mem_gc_reach mem_gc_get bt_keys_def)
  then show ?thesis using gc by (simp add: mem_gc_def partial_store_def)
qed

end
