(* ===== verification/System_Roots.thy ===== *)
theory System_Roots
  imports System_Manifest Store_Gc
begin

text \<open>
  Stored generations and the garbage collection roots that protect them (\<^verbatim>\<open>snix-redox/src/system.rs\<close>).
  \<open>sys_fs\<close> extends the parameter of the collector with what generations and activation need of the
  file system; reads do not change the outside world. Messages to the user are left out.
\<close>

section \<open>Outside world\<close>

datatype sys_error =
    ManifestNotFound string
  | SysIo io_kind
  | SysParse string
  | SysGc gc_error
  | NoSuchGeneration u32
  | NoGenerations
  | ModifiedFile string
  | BadSelector string
  | BadBootDefault string
  | EtcSourceMissing string
  | BootFileMissing string
  | SwapFailed io_kind

text \<open>
  \<open>sf_now\<close> is the clock (\<open>None\<close> before the epoch), \<open>sf_hash\<close> the hexadecimal BLAKE3 digest;
  \<open>sf_entries\<close> reads a directory with the type of each entry (is it a regular file); \<open>sf_read_bytes\<close>
  reads a file that need not be text.
\<close>

record 'w sys_fs = "'w gc_fs" +
  sf_decode :: "string \<Rightarrow> sys_manifest option"
  sf_encode :: "sys_manifest \<Rightarrow> string"
  sf_encode_meta :: "generation_metadata \<Rightarrow> string"
  sf_now :: "'w \<Rightarrow> u64 option"
  sf_hash :: "string \<Rightarrow> string"
  sf_read_bytes :: "path_buf \<Rightarrow> 'w \<Rightarrow> io_kind + string"
  sf_entries :: "path_buf \<Rightarrow> 'w \<Rightarrow> io_kind + (io_kind + string \<times> (io_kind + bool)) list"
  sf_is_symlink :: "path_buf \<Rightarrow> 'w \<Rightarrow> bool"
  sf_remove_dir :: "path_buf \<Rightarrow> ('w, io_kind, unit) eio"
  sf_rename :: "path_buf \<Rightarrow> path_buf \<Rightarrow> ('w, io_kind, unit) eio"
  sf_copy :: "path_buf \<Rightarrow> path_buf \<Rightarrow> ('w, io_kind, unit) eio"
  sf_set_permissions :: "path_buf \<Rightarrow> u32 \<Rightarrow> ('w, io_kind, unit) eio"
  sf_run_script :: "path_buf \<Rightarrow> ('w, io_kind, bool) eio"

type_synonym ('w, 'a) sys_io = "('w, sys_error, 'a) eio"

definition sys_io :: "('w, io_kind, 'a) eio \<Rightarrow> ('w, 'a) sys_io" where
  "sys_io = map_err SysIo"

section \<open>Generations on disk\<close>

definition MANIFEST_PATH :: string where "MANIFEST_PATH = ''/etc/redox-system/manifest.json''"
definition GENERATIONS_DIR :: string where "GENERATIONS_DIR = ''/etc/redox-system/generations''"
definition BOOT_DEFAULT_PATH :: string where "BOOT_DEFAULT_PATH = ''/etc/redox-system/boot-default''"
definition CURRENT_GENERATION_LINK :: string where "CURRENT_GENERATION_LINK = ''/nix/system/current''"

definition load_manifest_from :: "('w, 'x) sys_fs_scheme \<Rightarrow> string \<Rightarrow> 'w \<Rightarrow> sys_error + sys_manifest" where
  "load_manifest_from fs path w =
     (if \<not> dbf_exists fs path w then Inl (ManifestNotFound path)
      else (case dbf_read fs path w of
        Inl e \<Rightarrow> Inl (SysIo e)
      | Inr s \<Rightarrow> (case sf_decode fs s of None \<Rightarrow> Inl (SysParse path) | Some m \<Rightarrow> Inr m)))"

record generation =
  gn_id :: u32
  gn_manifest :: sys_manifest
  gn_path :: path_buf

fun collect_generations ::
  "('w, 'x) sys_fs_scheme \<Rightarrow> path_buf \<Rightarrow> 'w \<Rightarrow> (io_kind + string) list \<Rightarrow> sys_error + generation list" where
  "collect_generations fs dir w [] = Inr []"
| "collect_generations fs dir w (Inl e # es) = Inl (SysIo e)"
| "collect_generations fs dir w (Inr name # es) =
     map_sum id (\<lambda>gens.
       case parse_u32 name of
         None \<Rightarrow> gens
       | Some n \<Rightarrow>
           let manifest_path = path_join (path_join dir name) ''manifest.json'' in
           if \<not> dbf_exists fs manifest_path w then gens
           else (case load_manifest_from fs manifest_path w of
             Inr m \<Rightarrow> \<lparr>gn_id = n, gn_manifest = m, gn_path = manifest_path\<rparr> # gens
           | Inl _ \<Rightarrow> gens)) (collect_generations fs dir w es)"

definition scan_generations :: "('w, 'x) sys_fs_scheme \<Rightarrow> string \<Rightarrow> 'w \<Rightarrow> sys_error + generation list" where
  "scan_generations fs gen_dir w =
     (if \<not> dbf_exists fs gen_dir w then Inr []
      else (case dbf_read_dir fs gen_dir w of
        Inl e \<Rightarrow> Inl (SysIo e)
      | Inr es \<Rightarrow> map_sum id (sort_key gn_id) (collect_generations fs gen_dir w es)))"

definition max_stored :: "generation list \<Rightarrow> u32" where
  "max_stored gens = fold (\<lambda>g m. max m (gn_id g)) gens 0"

text \<open>The addition wraps in a release build.\<close>

definition next_generation_id :: "('w, 'x) sys_fs_scheme \<Rightarrow> string \<Rightarrow> sys_manifest \<Rightarrow> 'w \<Rightarrow> u32" where
  "next_generation_id fs gen_dir current w =
     (let gens = (case scan_generations fs gen_dir w of Inr gens \<Rightarrow> gens | Inl _ \<Rightarrow> [])
      in max (max_stored gens) (gi_id (sm_generation current)) + 1)"

section \<open>Roots of a generation\<close>

definition gen_prefix :: "u32 \<Rightarrow> string" where
  "gen_prefix gen_id = ''gen-'' @ show_u32 gen_id @ ''-''"

text \<open>A root that cannot be added is reported and skipped.\<close>

definition try_add_root ::
  "('w, 'x) sys_fs_scheme \<Rightarrow> path_buf \<Rightarrow> string \<Rightarrow> string \<Rightarrow> u32 \<times> 'w \<Rightarrow> u32 \<times> 'w" where
  "try_add_root fs gc_roots root_name target s = (case s of (added, w) \<Rightarrow>
     (case add_root fs gc_roots root_name target w of
        (Inr _, w') \<Rightarrow> (added + 1, w')
      | (Inl _, w') \<Rightarrow> (added, w')))"

definition add_generation_gc_roots ::
  "('w, 'x) sys_fs_scheme \<Rightarrow> path_buf \<Rightarrow> u32 \<Rightarrow> sys_package list \<Rightarrow> 'w \<Rightarrow> u32 \<times> 'w" where
  "add_generation_gc_roots fs gc_roots gen_id packages w =
     fold (\<lambda>pkg s.
       if pk_store_path pkg \<noteq> []
       then try_add_root fs gc_roots (gen_prefix gen_id @ pk_name pkg) (pk_store_path pkg) s
       else s) packages (0, w)"

definition extract_store_dir :: "string \<Rightarrow> string" where
  "extract_store_dir path =
     (case strip_prefix path ''/nix/store/'' of
        Some rest \<Rightarrow> (case find_char slash rest of Some i \<Rightarrow> ''/nix/store/'' @ take i rest | None \<Rightarrow> path)
      | None \<Rightarrow> path)"

definition add_boot_gc_roots ::
  "('w, 'x) sys_fs_scheme \<Rightarrow> path_buf \<Rightarrow> u32 \<Rightarrow> boot_components option \<Rightarrow> 'w \<Rightarrow> u32 \<times> 'w" where
  "add_boot_gc_roots fs gc_roots gen_id boot w =
     (case boot of
        None \<Rightarrow> (0, w)
      | Some b \<Rightarrow>
          fold (\<lambda>(name, path_opt) s.
            case path_opt of
              Some path \<Rightarrow> try_add_root fs gc_roots (gen_prefix gen_id @ name) (extract_store_dir path) s
            | None \<Rightarrow> s)
            [(''boot-kernel'', bo_kernel b), (''boot-initfs'', bo_initfs b), (''boot-bootloader'', bo_bootloader b)]
            (0, w))"

fun remove_prefixed ::
  "('w, 'x) sys_fs_scheme \<Rightarrow> path_buf \<Rightarrow> string \<Rightarrow> gc_root list \<Rightarrow> u32 \<times> 'w \<Rightarrow> u32 \<times> 'w" where
  "remove_prefixed fs gc_roots pre [] s = s"
| "remove_prefixed fs gc_roots pre (root # roots) (removed, w) =
     (if prefix pre (gr_name root)
      then remove_prefixed fs gc_roots pre roots (removed + 1, snd (remove_root fs gc_roots (gr_name root) w))
      else remove_prefixed fs gc_roots pre roots (removed, w))"

definition remove_generation_gc_roots ::
  "('w, 'x) sys_fs_scheme \<Rightarrow> path_buf \<Rightarrow> u32 \<Rightarrow> 'w \<Rightarrow> u32 \<times> 'w" where
  "remove_generation_gc_roots fs gc_roots gen_id w =
     (case list_roots fs gc_roots w of
        Inr roots \<Rightarrow> remove_prefixed fs gc_roots (gen_prefix gen_id) roots (0, w)
      | Inl _ \<Rightarrow> (0, w))"

definition migrate_gc_roots_if_needed ::
  "('w, 'x) sys_fs_scheme \<Rightarrow> path_buf \<Rightarrow> string \<Rightarrow> ('w, unit) sys_io" where
  "migrate_gc_roots_if_needed fs gc_roots gen_dir = (\<lambda>w.
     case list_roots fs gc_roots w of
       Inl e \<Rightarrow> (Inl (SysGc e), w)
     | Inr roots \<Rightarrow>
         let old_roots = filter (\<lambda>r. prefix ''system-'' (gr_name r)) roots in
         if old_roots = [] then (Inr (), w)
         else (case scan_generations fs gen_dir w of
           Inl e \<Rightarrow> (Inl e, w)
         | Inr gens \<Rightarrow>
             let w1 = fold (\<lambda>g w. snd (add_generation_gc_roots fs gc_roots (gn_id g) (sm_packages (gn_manifest g)) w)) gens w
             in (Inr (), fold (\<lambda>r w. snd (remove_root fs gc_roots (gr_name r) w)) old_roots w1)))"

definition update_system_gc_roots_with ::
  "('w, 'x) sys_fs_scheme \<Rightarrow> path_buf \<Rightarrow> sys_manifest \<Rightarrow> string option \<Rightarrow> ('w, unit) sys_io" where
  "update_system_gc_roots_with fs gc_roots manifest gen_dir =
     (let dir = (case gen_dir of Some d \<Rightarrow> d | None \<Rightarrow> GENERATIONS_DIR);
          gen_id = gi_id (sm_generation manifest) in
      bindS (migrate_gc_roots_if_needed fs gc_roots dir) (\<lambda>_ w.
        let w1 = snd (add_generation_gc_roots fs gc_roots gen_id (sm_packages manifest) w);
            w2 = snd (add_boot_gc_roots fs gc_roots gen_id (sm_boot manifest) w1);
            s3 = fold (\<lambda>(name, path) s.
              case path of Some p \<Rightarrow> try_add_root fs gc_roots (gen_prefix gen_id @ name) p s | None \<Rightarrow> s)
              [(''toplevel'', sm_toplevel manifest), (''etc-source'', sm_etc_source manifest)] (0, w2)
        in (Inr (), snd s3)))"

definition update_system_gc_roots ::
  "('w, 'x) sys_fs_scheme \<Rightarrow> sys_manifest \<Rightarrow> string option \<Rightarrow> ('w, unit) sys_io" where
  "update_system_gc_roots fs manifest gen_dir =
     bindS (sys_io (roots_open fs)) (\<lambda>gc_roots. update_system_gc_roots_with fs gc_roots manifest gen_dir)"

section \<open>Generation numbers\<close>

lemma max_stored_ge: "g \<in> set gens \<Longrightarrow> gn_id g \<le> max_stored gens"
proof -
  have mono: "m \<le> fold (\<lambda>g m. max m (gn_id g)) gens m" for m and gens :: "generation list"
    by (induction gens arbitrary: m) (auto intro: order_trans[OF max.cobounded1])
  have "g \<in> set gens \<Longrightarrow> gn_id g \<le> fold (\<lambda>g m. max m (gn_id g)) gens m" for m
    by (induction gens arbitrary: m) (auto intro: order_trans[OF max.cobounded2 mono])
  then show "g \<in> set gens \<Longrightarrow> gn_id g \<le> max_stored gens" by (simp add: max_stored_def)
qed

lemma max_stored_in: "max_stored gens \<noteq> 0 \<Longrightarrow> \<exists>g\<in>set gens. gn_id g = max_stored gens"
proof -
  have "fold (\<lambda>g m. max m (gn_id g)) gens m = m \<or> (\<exists>g\<in>set gens. gn_id g = fold (\<lambda>g m. max m (gn_id g)) gens m)" for m
  proof (induction gens arbitrary: m)
    case (Cons g gens)
    have "fold (\<lambda>g m. max m (gn_id g)) gens (max m (gn_id g)) = m
      \<or> fold (\<lambda>g m. max m (gn_id g)) gens (max m (gn_id g)) = gn_id g
      \<or> (\<exists>h\<in>set gens. gn_id h = fold (\<lambda>g m. max m (gn_id g)) gens (max m (gn_id g)))"
      using Cons.IH[of "max m (gn_id g)"] by (cases "m \<le> gn_id g") (simp_all only: max_def if_True if_False, blast+)
    then show ?case by auto
  qed simp
  from this[of 0] show "max_stored gens \<noteq> 0 \<Longrightarrow> ?thesis" by (auto simp: max_stored_def)
qed

lemma u32_succ: "(x :: u32) \<noteq> - 1 \<Longrightarrow> x < x + 1" "x + 1 = 0 \<longleftrightarrow> x = - 1"
proof -
  assume "x \<noteq> - 1"
  then have "1 + x \<noteq> 0" by (metis add.commute add_eq_0_iff2)
  then have "unat (1 + x) = Suc (unat x)" by (rule unatSuc)
  then show "x < x + 1" by (simp add: word_less_nat_alt add.commute)
qed (simp add: eq_neg_iff_add_eq_0)

lemma scan_sorted: "scan_generations fs dir w = Inr gens \<Longrightarrow> sorted (map gn_id gens)"
  by (auto simp: scan_generations_def map_sum_def split: if_splits sum.splits)

lemma decimal_inj: "decimal a = decimal b \<Longrightarrow> a = b"
  by (metis digits_decimal option.inject)

lemma dash_no_digit: "CHR ''-'' \<notin> set (decimal n)"
  using decimal_digits[of "CHR ''-''" n] no_digit(2) by blast

text \<open>The roots of different generations have different names.\<close>

lemma prefix_separated: "x \<notin> set as \<Longrightarrow> x \<notin> set bs \<Longrightarrow> prefix (as @ [x]) (bs @ x # cs) \<longleftrightarrow> as = bs"
  by (induction as arbitrary: bs) (case_tac bs; auto)+

lemma gen_prefix_iff: "prefix (gen_prefix a) (gen_prefix b @ n) \<longleftrightarrow> a = b"
proof -
  have "prefix (gen_prefix a) (gen_prefix b @ n) \<longleftrightarrow> decimal (unat a) = decimal (unat b)"
    using prefix_separated[OF dash_no_digit dash_no_digit, of "unat a" "unat b" n]
    by (simp add: gen_prefix_def show_u32_def)
  moreover have "unat a = unat b \<Longrightarrow> a = b" by (metis of_nat_unat ucast_id)
  ultimately show ?thesis using decimal_inj[of "unat a" "unat b"] by blast
qed

section \<open>Roots as a map\<close>

text \<open>
  The documented behaviour of a directory of symbolic links: \<open>links\<close> gives the target of each name.
  An operation that fails changes nothing there.
\<close>

definition root_laws :: "('w, 'x) gc_fs_scheme \<Rightarrow> path_buf \<Rightarrow> ('w \<Rightarrow> string \<rightharpoonup> string) \<Rightarrow> bool" where
  "root_laws fs dir links \<longleftrightarrow>
     (\<forall>n w. n \<noteq> [] \<and> hd n \<noteq> slash \<longrightarrow>
        gcf_lexists fs (path_join dir n) w = (links w n \<noteq> None)
      \<and> links (snd (dbf_remove_file fs (path_join dir n) w))
          = (if fst (dbf_remove_file fs (path_join dir n) w) = Inr () then (links w)(n := None) else links w)
      \<and> (\<forall>t. links (snd (gcf_symlink fs t (path_join dir n) w))
          = (if fst (gcf_symlink fs t (path_join dir n) w) = Inr () then (links w)(n \<mapsto> t) else links w)))
   \<and> (\<forall>w roots. list_roots fs dir w = Inr roots \<longrightarrow>
        (\<forall>r\<in>set roots. gr_name r \<noteq> [] \<and> hd (gr_name r) \<noteq> slash) \<and> links w = map_of (map (\<lambda>r. (gr_name r, gr_target r)) roots))"

definition plain_name :: "string \<Rightarrow> bool" where
  "plain_name n \<longleftrightarrow> n \<noteq> [] \<and> hd n \<noteq> slash"

lemma root_lawsD:
  assumes "root_laws fs dir links"
  shows "plain_name n \<Longrightarrow> gcf_lexists fs (path_join dir n) w = (links w n \<noteq> None)"
    and "plain_name n \<Longrightarrow> links (snd (dbf_remove_file fs (path_join dir n) w))
          = (if fst (dbf_remove_file fs (path_join dir n) w) = Inr () then (links w)(n := None) else links w)"
    and "plain_name n \<Longrightarrow> links (snd (gcf_symlink fs t (path_join dir n) w))
          = (if fst (gcf_symlink fs t (path_join dir n) w) = Inr () then (links w)(n \<mapsto> t) else links w)"
    and "list_roots fs dir w = Inr roots \<Longrightarrow> r \<in> set roots \<Longrightarrow> plain_name (gr_name r)"
    and "list_roots fs dir w = Inr roots \<Longrightarrow> links w = map_of (map (\<lambda>r. (gr_name r, gr_target r)) roots)"
  using assms unfolding root_laws_def plain_name_def by blast+

lemma plain_gen: "plain_name (gen_prefix a @ n)"
  by (simp add: plain_name_def gen_prefix_def)

lemma links_remove_root:
  assumes "root_laws fs dir links" "plain_name n"
  shows "links (snd (remove_root fs dir n w)) = (if fst (remove_root fs dir n w) = Inr () then (links w)(n := None) else links w)"
  using root_lawsD(2)[OF assms(1,2), of w]
  by (auto simp: remove_root_def Let_def map_err_def split: prod.splits sum.splits)

lemma links_add_root:
  assumes "root_laws fs dir links" "plain_name n" "add_root fs dir n t w = (r, w')"
  shows "if r = Inr () then links w' = (links w)(n \<mapsto> t) else \<forall>m. m \<noteq> n \<longrightarrow> links w' m = links w m"
proof -
  note laws = root_lawsD(2,3)[OF assms(1,2)]
  have step: "links (snd (map_err GcIo (gcf_symlink fs t (path_join dir n)) w))
      = (if fst (map_err GcIo (gcf_symlink fs t (path_join dir n)) w) = Inr () then (links w)(n \<mapsto> t) else links w)"
    "links (snd (map_err GcIo (dbf_remove_file fs (path_join dir n)) w))
      = (if fst (map_err GcIo (dbf_remove_file fs (path_join dir n)) w) = Inr () then (links w)(n := None) else links w)" for w
    using laws(1)[of w] laws(2)[of t w] by (auto simp: map_err_def split: prod.splits sum.splits)
  show ?thesis
  proof (cases "dbf_hash fs t = None")
    case True
    then show ?thesis using assms(3) by (auto simp: add_root_def)
  next
    case False
    let ?rm = "if gcf_lexists fs (path_join dir n) w then map_err GcIo (dbf_remove_file fs (path_join dir n)) else ret ()"
    obtain r1 w1 where rm: "?rm w = (r1, w1)" by fastforce
    have l1: "links w1 m = links w m" if "m \<noteq> n" for m
      using rm step(2)[of w] that by (auto simp: ret_def split: if_splits)
    have run: "(case r1 of Inl e \<Rightarrow> (Inl e, w1) | Inr _ \<Rightarrow> map_err GcIo (gcf_symlink fs t (path_join dir n)) w1) = (r, w')"
      using assms(3) False rm by (simp add: add_root_def Let_def bindS_def)
    show ?thesis
    proof (cases r1)
      case (Inl e)
      then show ?thesis using run l1 by auto
    next
      case (Inr u)
      have "map_err GcIo (gcf_symlink fs t (path_join dir n)) w1 = (r, w')" using run Inr by simp
      then have "links w' = (if r = Inr () then (links w1)(n \<mapsto> t) else links w1)" using step(1)[of w1] by simp
      then show ?thesis using l1 by (auto simp: fun_eq_iff)
    qed
  qed
qed

text \<open>The roots a manifest asks for, in the order they are added.\<close>

definition package_roots :: "u32 \<Rightarrow> sys_package list \<Rightarrow> (string \<times> string) list" where
  "package_roots g pkgs = map (\<lambda>p. (gen_prefix g @ pk_name p, pk_store_path p)) (filter (\<lambda>p. pk_store_path p \<noteq> []) pkgs)"

definition boot_roots :: "u32 \<Rightarrow> boot_components option \<Rightarrow> (string \<times> string) list" where
  "boot_roots g boot = (case boot of None \<Rightarrow> [] | Some b \<Rightarrow>
     map (\<lambda>(n, p). (gen_prefix g @ n, extract_store_dir (the p))) (filter (\<lambda>(_, p). p \<noteq> None)
       [(''boot-kernel'', bo_kernel b), (''boot-initfs'', bo_initfs b), (''boot-bootloader'', bo_bootloader b)]))"

definition output_roots :: "u32 \<Rightarrow> sys_manifest \<Rightarrow> (string \<times> string) list" where
  "output_roots g m = map (\<lambda>(n, p). (gen_prefix g @ n, the p)) (filter (\<lambda>(_, p). p \<noteq> None)
     [(''toplevel'', sm_toplevel m), (''etc-source'', sm_etc_source m)])"

definition generation_roots :: "sys_manifest \<Rightarrow> (string \<times> string) list" where
  "generation_roots m = (let g = gi_id (sm_generation m) in
     package_roots g (sm_packages m) @ boot_roots g (sm_boot m) @ output_roots g m)"

definition add_all ::
  "('w, 'x) sys_fs_scheme \<Rightarrow> path_buf \<Rightarrow> (string \<times> string) list \<Rightarrow> u32 \<times> 'w \<Rightarrow> u32 \<times> 'w" where
  "add_all fs dir xs s = fold (\<lambda>(n, t). try_add_root fs dir n t) xs s"

text \<open>How many were added does not matter for the world.\<close>

lemma add_all_count: "snd (add_all fs dir xs (a, w)) = snd (add_all fs dir xs (b, w))"
proof (induction xs arbitrary: a b w)
  case (Cons x xs)
  obtain n t where x: "x = (n, t)" by (cases x)
  obtain r w1 where add: "add_root fs dir n t w = (r, w1)" by fastforce
  show ?case
    using Cons.IH by (cases r) (auto simp: add_all_def x try_add_root_def add)
qed (simp add: add_all_def)

lemma add_all_append: "snd (add_all fs dir (xs @ ys) (a, w)) = snd (add_all fs dir ys (b, snd (add_all fs dir xs (c, w))))"
proof -
  have "snd (add_all fs dir (xs @ ys) (a, w)) = snd (add_all fs dir ys (add_all fs dir xs (a, w)))"
    by (simp add: add_all_def)
  also have "\<dots> = snd (add_all fs dir ys (b, snd (add_all fs dir xs (a, w))))"
    using add_all_count by (metis prod.collapse)
  finally show ?thesis using add_all_count[of fs dir xs a w c] by simp
qed

lemma add_packages_all: "add_generation_gc_roots fs dir g pkgs w = add_all fs dir (package_roots g pkgs) (0, w)"
proof -
  have "fold (\<lambda>pkg s. if pk_store_path pkg \<noteq> [] then try_add_root fs dir (gen_prefix g @ pk_name pkg) (pk_store_path pkg) s else s) pkgs s
    = add_all fs dir (package_roots g pkgs) s" for s
    by (induction pkgs arbitrary: s) (auto simp: add_all_def package_roots_def)
  then show ?thesis by (simp add: add_generation_gc_roots_def)
qed

lemma add_boot_all: "add_boot_gc_roots fs dir g boot w = add_all fs dir (boot_roots g boot) (0, w)"
  by (auto simp: add_boot_gc_roots_def add_all_def boot_roots_def split: option.splits)

lemma add_outputs_all:
  "fold (\<lambda>(name, path) s. case path of Some p \<Rightarrow> try_add_root fs dir (gen_prefix g @ name) p s | None \<Rightarrow> s)
      [(''toplevel'', sm_toplevel m), (''etc-source'', sm_etc_source m)] (0, w) = add_all fs dir (output_roots g m) (0, w)"
  by (auto simp: add_all_def output_roots_def split: option.splits)

lemma update_roots_all:
  assumes "list_roots fs dir w = Inr roots" "\<forall>r\<in>set roots. \<not> prefix ''system-'' (gr_name r)"
  shows "update_system_gc_roots_with fs dir m gen_dir w = (Inr (), snd (add_all fs dir (generation_roots m) (0, w)))"
proof -
  let ?g = "gi_id (sm_generation m)"
  have mig: "migrate_gc_roots_if_needed fs dir d w = (Inr (), w)" for d
    using assms by (simp add: migrate_gc_roots_if_needed_def Let_def filter_empty_conv)
  have "snd (add_all fs dir (generation_roots m) (0, w)) =
      snd (add_all fs dir (output_roots ?g m) (0, snd (add_all fs dir (boot_roots ?g (sm_boot m))
        (0, snd (add_all fs dir (package_roots ?g (sm_packages m)) (0, w))))))"
    unfolding generation_roots_def Let_def
      add_all_append[of fs dir "package_roots ?g (sm_packages m)" "boot_roots ?g (sm_boot m) @ output_roots ?g m" 0 w 0 0]
    by (rule add_all_append)
  then show ?thesis
    unfolding update_system_gc_roots_with_def Let_def bindS_def mig add_outputs_all add_boot_all add_packages_all by simp
qed

text \<open>Link operations that fail only for a reason the caller has excluded.\<close>

definition links_work :: "('w, 'x) gc_fs_scheme \<Rightarrow> path_buf \<Rightarrow> bool" where
  "links_work fs dir \<longleftrightarrow> (\<forall>n t w. plain_name n \<longrightarrow>
     (gcf_lexists fs (path_join dir n) w \<longrightarrow> fst (dbf_remove_file fs (path_join dir n) w) = Inr ())
   \<and> (\<not> gcf_lexists fs (path_join dir n) w \<longrightarrow> fst (gcf_symlink fs t (path_join dir n) w) = Inr ()))"

lemma add_root_works:
  assumes "root_laws fs dir links" "links_work fs dir" "plain_name n" "dbf_hash fs t \<noteq> None"
  shows "\<exists>w'. add_root fs dir n t w = (Inr (), w') \<and> links w' = (links w)(n \<mapsto> t)"
proof -
  have work: "gcf_lexists fs (path_join dir n) v \<Longrightarrow> fst (dbf_remove_file fs (path_join dir n) v) = Inr ()"
    "\<not> gcf_lexists fs (path_join dir n) v \<Longrightarrow> fst (gcf_symlink fs t (path_join dir n) v) = Inr ()" for v
    using assms(2,3) unfolding links_work_def by blast+
  have "fst (add_root fs dir n t w) = Inr ()"
  proof (cases "gcf_lexists fs (path_join dir n) w")
    case True
    obtain w1 where w1: "dbf_remove_file fs (path_join dir n) w = (Inr (), w1)"
      using work(1)[OF True] by (metis prod.collapse)
    then have "links w1 = (links w)(n := None)" using root_lawsD(2)[OF assms(1,3), of w] by simp
    then have "\<not> gcf_lexists fs (path_join dir n) w1" using root_lawsD(1)[OF assms(1,3)] by simp
    then obtain w2 where "gcf_symlink fs t (path_join dir n) w1 = (Inr (), w2)"
      using work(2)[of w1] by (metis prod.collapse)
    then show ?thesis using True w1 assms(4) by (simp add: add_root_def bindS_def map_err_def)
  next
    case False
    then obtain w2 where "gcf_symlink fs t (path_join dir n) w = (Inr (), w2)" using work(2) by (metis prod.collapse)
    then show ?thesis using False assms(4) by (simp add: add_root_def bindS_def map_err_def ret_def)
  qed
  then obtain w' where "add_root fs dir n t w = (Inr (), w')" by (metis prod.collapse)
  then show ?thesis using links_add_root[OF assms(1,3)] by fastforce
qed

lemma add_all_links:
  assumes "root_laws fs dir links" "links_work fs dir" "\<forall>(n, t)\<in>set xs. plain_name n \<and> dbf_hash fs t \<noteq> None"
  shows "links (snd (add_all fs dir xs (a, w))) = links w ++ map_of (rev xs)"
  using assms(3)
proof (induction xs arbitrary: a w)
  case (Cons x xs)
  obtain n t where x: "x = (n, t)" by (cases x)
  obtain w1 where w1: "add_root fs dir n t w = (Inr (), w1)" "links w1 = (links w)(n \<mapsto> t)"
    using add_root_works[OF assms(1,2)] Cons.prems x by fastforce
  have "snd (add_all fs dir (x # xs) (a, w)) = snd (add_all fs dir xs (a + 1, w1))"
    by (simp add: add_all_def x try_add_root_def w1)
  then show ?case using Cons w1 by (auto simp: x map_add_def fun_eq_iff split: option.splits)
qed (simp add: add_all_def)

lemma generation_roots_plain: "(n, t) \<in> set (generation_roots m) \<Longrightarrow> prefix (gen_prefix (gi_id (sm_generation m))) n \<and> plain_name n"
  by (auto simp: generation_roots_def package_roots_def boot_roots_def output_roots_def Let_def plain_gen split: option.splits if_splits)

lemma remove_prefixed_others:
  assumes "root_laws fs dir links" "\<forall>r\<in>set roots. plain_name (gr_name r)" "\<not> prefix pre n"
  shows "links (snd (remove_prefixed fs dir pre roots (a, w))) n = links w n"
  using assms(2)
proof (induction roots arbitrary: a w)
  case (Cons r roots)
  then show ?case using links_remove_root[OF assms(1), of "gr_name r" w] assms(3) by auto
qed simp

lemma remove_prefixed_all:
  assumes "root_laws fs dir links" "links_work fs dir" "prefix pre n"
    and "\<forall>r\<in>set roots. plain_name (gr_name r)" "n \<in> gr_name ` set roots \<or> links w n = None"
  shows "links (snd (remove_prefixed fs dir pre roots (a, w))) n = None"
  using assms(4,5)
proof (induction roots arbitrary: a w)
  case (Cons r roots)
  let ?w = "snd (remove_root fs dir (gr_name r) w)"
  have plain: "plain_name (gr_name r)" using Cons.prems by simp
  have step: "links ?w = (if fst (remove_root fs dir (gr_name r) w) = Inr () then (links w)(gr_name r := None) else links w)"
    by (rule links_remove_root[OF assms(1) plain])
  have gone: "links ?w (gr_name r) = None"
  proof (cases "gcf_lexists fs (path_join dir (gr_name r)) w")
    case True
    then have "fst (dbf_remove_file fs (path_join dir (gr_name r)) w) = Inr ()"
      using assms(2) plain unfolding links_work_def by blast
    then have "fst (remove_root fs dir (gr_name r) w) = Inr ()"
      using True by (auto simp: remove_root_def Let_def map_err_def split: prod.splits sum.splits)
    then show ?thesis using step by simp
  next
    case False
    then show ?thesis using step root_lawsD(1)[OF assms(1) plain] by simp
  qed
  have "n \<in> gr_name ` set roots \<or> links (if prefix pre (gr_name r) then ?w else w) n = None"
    using Cons.prems(2) gone step assms(3) by (cases "n = gr_name r") auto
  then show ?case using Cons.IH Cons.prems(1) by auto
qed simp

lemma remove_generation_links:
  assumes "root_laws fs dir links"
  shows "\<not> prefix (gen_prefix g) n \<Longrightarrow> links (snd (remove_generation_gc_roots fs dir g w)) n = links w n"
    and "links_work fs dir \<Longrightarrow> list_roots fs dir w = Inr roots \<Longrightarrow> prefix (gen_prefix g) n
      \<Longrightarrow> links (snd (remove_generation_gc_roots fs dir g w)) n = None"
proof -
  assume n: "\<not> prefix (gen_prefix g) n"
  show "links (snd (remove_generation_gc_roots fs dir g w)) n = links w n"
  proof (cases "list_roots fs dir w")
    case (Inr roots)
    then have "\<forall>r\<in>set roots. plain_name (gr_name r)" using root_lawsD(4)[OF assms] by blast
    then show ?thesis using remove_prefixed_others[OF assms] n Inr by (simp add: remove_generation_gc_roots_def)
  qed (simp add: remove_generation_gc_roots_def)
next
  assume w: "links_work fs dir" "list_roots fs dir w = Inr roots" "prefix (gen_prefix g) n"
  then have "\<forall>r\<in>set roots. plain_name (gr_name r)" using root_lawsD(4)[OF assms] by blast
  moreover have "n \<in> gr_name ` set roots \<or> links w n = None"
    using root_lawsD(5)[OF assms w(2)] by (cases "links w n") (auto dest!: map_of_SomeD)
  ultimately show "links (snd (remove_generation_gc_roots fs dir g w)) n = None"
    using remove_prefixed_all[OF assms] w by (simp add: remove_generation_gc_roots_def)
qed

section \<open>A system in memory\<close>

text \<open>
  The roots are a list of links, everything else a map from paths to contents. A manifest is encoded as its
  generation number; it has one package, in the store.
\<close>

type_synonym mem = "(string \<times> string) list \<times> (path_buf \<rightharpoonup> string)"

definition mem_manifest :: "u32 \<Rightarrow> sys_manifest" where
  "mem_manifest n = empty_system\<lparr>sm_generation := default_generation\<lparr>gi_id := n\<rparr>,
     sm_packages := [\<lparr>pk_name = ''p'', pk_version = [], pk_store_path = ''/nix/store/'' @ show_u32 n\<rparr>]\<rparr>"

definition ROOTS :: string where "ROOTS = ''/nix/var/snix/gcroots''"

definition link_name :: "path_buf \<Rightarrow> string option" where
  "link_name p = strip_prefix p (ROOTS @ ''/'')"

definition mem_links :: "mem \<Rightarrow> string \<rightharpoonup> string" where
  "mem_links w = map_of (filter (\<lambda>(n, _). plain_name n) (fst w))"

definition mem_exists :: "path_buf \<Rightarrow> mem \<Rightarrow> bool" where
  "mem_exists p w = (case link_name p of Some n \<Rightarrow> mem_links w n \<noteq> None | None \<Rightarrow> snd w p \<noteq> None)"

definition mem_remove :: "path_buf \<Rightarrow> (mem, io_kind, unit) eio" where
  "mem_remove p w = (if \<not> mem_exists p w then (Inl NotFound, w)
     else (case link_name p of
       Some n \<Rightarrow> (Inr (), (filter (\<lambda>(k, _). k \<noteq> n) (fst w), snd w))
     | None \<Rightarrow> (Inr (), (fst w, (snd w)(p := None)))))"

definition mem_sys :: "string list \<Rightarrow> mem sys_fs" where
  "mem_sys gens =
     \<lparr>dbf_hash = (\<lambda>p. case strip_prefix p ''/nix/store/'' of
        Some h \<Rightarrow> if slash \<in> set h then None else Some h | None \<Rightarrow> None), dbf_hex = (\<lambda>_. None),
      dbf_encode = pi_store_path, dbf_decode = (\<lambda>s. Some (sample_info (''/nix/store/'' @ s) [])),
      dbf_encode_files = (\<lambda>_. []), dbf_decode_files = (\<lambda>_. None),
      dbf_exists = mem_exists,
      dbf_read = (\<lambda>p w. case snd w p of Some s \<Rightarrow> Inr s | None \<Rightarrow> Inl NotFound),
      dbf_read_dir = (\<lambda>p w. Inr (map Inr (
        if p = ROOTS then remdups (map fst (filter (\<lambda>(n, _). plain_name n) (fst w)))
        else if p = ''/gens'' then gens
        else if p = ''/nix/var/snix/pathinfo'' then [''1.json'', ''2.json''] else []))),
      dbf_create_dir_all = (\<lambda>_. ret ()), dbf_write = (\<lambda>p s w. (Inr (), (fst w, (snd w)(p \<mapsto> s)))),
      dbf_remove_file = mem_remove,
      gcf_is_file = (\<lambda>p w. snd w p \<noteq> None), gcf_is_dir = (\<lambda>_ _. False), gcf_len = (\<lambda>_ _. Inr 5),
      gcf_lexists = mem_exists,
      gcf_read_link = (\<lambda>p w. case link_name p of
        Some n \<Rightarrow> (case mem_links w n of Some t \<Rightarrow> Inr t | None \<Rightarrow> Inl NotFound) | None \<Rightarrow> Inl NotFound),
      gcf_symlink = (\<lambda>s p w. if mem_exists p w then (Inl (OtherIo 17), w)
        else (case link_name p of
          Some n \<Rightarrow> (Inr (), ((n, s) # fst w, snd w)) | None \<Rightarrow> (Inr (), (fst w, (snd w)(p \<mapsto> s))))),
      gcf_remove_dir_all = (\<lambda>p w. (Inr (), (fst w, (snd w)(p := None)))),
      sf_decode = (\<lambda>s. map_option mem_manifest (parse_u32 s)), sf_encode = (\<lambda>m. show_u32 (gi_id (sm_generation m))),
      sf_encode_meta = (\<lambda>_. []), sf_now = (\<lambda>_. Some 86400), sf_hash = id,
      sf_read_bytes = (\<lambda>p w. case snd w p of Some s \<Rightarrow> Inr s | None \<Rightarrow> Inl NotFound),
      sf_entries = (\<lambda>_ _. Inr []), sf_is_symlink = (\<lambda>_ _. False),
      sf_remove_dir = (\<lambda>p w. (Inl NotFound, w)), sf_rename = (\<lambda>a b w. (Inr (), (fst w, (snd w)(a := None, b := snd w a)))),
      sf_copy = (\<lambda>a b w. (Inr (), (fst w, (snd w)(b := snd w a)))),
      sf_set_permissions = (\<lambda>_ _. ret ()), sf_run_script = (\<lambda>_. ret True)\<rparr>"

lemma link_name_join: "plain_name n \<Longrightarrow> link_name (path_join ROOTS n) = Some n"
  by (cases n) (auto simp: link_name_def ROOTS_def path_join_def plain_name_def strip_prefix_def)

lemma mem_list_roots:
  "\<exists>roots. list_roots (mem_sys gens) ROOTS w = Inr roots \<and> (\<forall>r\<in>set roots. plain_name (gr_name r))
    \<and> mem_links w = map_of (map (\<lambda>r. (gr_name r, gr_target r)) roots)"
proof -
  let ?fs = "mem_sys gens"
  let ?names = "remdups (map fst (filter (\<lambda>(n, _). plain_name n) (fst w)))"
  have names: "\<forall>n\<in>set ?names. plain_name n \<and> mem_links w n \<noteq> None"
    by (force simp: mem_links_def map_of_eq_None_iff)
  have collect: "collect_roots ?fs ROOTS w (map Inr ns) = Inr (map (\<lambda>n. \<lparr>gr_name = n, gr_target = the (mem_links w n)\<rparr>) ns)"
    if "\<forall>n\<in>set ns. plain_name n \<and> mem_links w n \<noteq> None" for ns
    using that by (induction ns) (auto simp: mem_sys_def link_name_join)
  let ?unsorted = "map (\<lambda>n. \<lparr>gr_name = n, gr_target = the (mem_links w n)\<rparr>) ?names"
  let ?roots = "sort_key gr_name ?unsorted"
  have "list_roots ?fs ROOTS w = Inr ?roots"
    unfolding list_roots_def using collect[OF names] by (simp add: mem_sys_def)
  moreover have "\<forall>r\<in>set ?roots. plain_name (gr_name r)" using names by auto
  moreover have "mem_links w = map_of (map (\<lambda>r. (gr_name r, gr_target r)) ?roots)"
  proof -
    have "distinct (map gr_name ?unsorted)" by (simp add: comp_def)
    then have "distinct (map gr_name ?roots)"
      using distinct_map[of gr_name ?roots] distinct_map[of gr_name ?unsorted] by simp
    then have d: "distinct (map fst (map (\<lambda>r. (gr_name r, gr_target r)) ?roots))" by (simp add: comp_def)
    have keys: "fst ` set (map (\<lambda>r. (gr_name r, gr_target r)) ?roots) = set ?names" by (simp add: image_image)
    have dom: "mem_links w n \<noteq> None \<longleftrightarrow> n \<in> set ?names" for n
      by (simp add: mem_links_def map_of_eq_None_iff)
    have "map_of (map (\<lambda>r. (gr_name r, gr_target r)) ?roots) n = mem_links w n" for n
    proof (cases "mem_links w n")
      case None
      then have "n \<notin> fst ` set (map (\<lambda>r. (gr_name r, gr_target r)) ?roots)" using dom[of n] unfolding keys by simp
      then show ?thesis unfolding map_of_eq_None_iff[symmetric] None .
    next
      case (Some t)
      then have "n \<in> set ?names" using dom[of n] by simp
      then have "\<lparr>gr_name = n, gr_target = t\<rparr> \<in> set ?roots"
        using Some image_eqI[of "\<lparr>gr_name = n, gr_target = t\<rparr>" "\<lambda>n. \<lparr>gr_name = n, gr_target = the (mem_links w n)\<rparr>" n "set ?names"]
        by (simp only: set_sort set_map option.sel)
      then have "(n, t) \<in> set (map (\<lambda>r. (gr_name r, gr_target r)) ?roots)"
        using image_eqI[of "(n, t)" "\<lambda>r. (gr_name r, gr_target r)" "\<lparr>gr_name = n, gr_target = t\<rparr>" "set ?roots"]
        by (simp only: set_map gc_root.simps)
      then show ?thesis using map_of_is_SomeI[OF d] Some by simp
    qed
    then show ?thesis by (simp add: fun_eq_iff)
  qed
  ultimately show ?thesis by blast
qed

lemma mem_sys_laws: "root_laws (mem_sys gens) ROOTS mem_links"
proof -
  have "plain_name n \<Longrightarrow> map_of (filter (\<lambda>(n, _). plain_name n) (filter (\<lambda>(k, _). k \<noteq> n) xs))
    = (map_of (filter (\<lambda>(n, _). plain_name n) xs))(n := None)" for n and xs :: "(string \<times> string) list"
    by (induction xs) (auto simp: fun_eq_iff)
  then have rm: "plain_name n \<Longrightarrow> mem_links (filter (\<lambda>(k, _). k \<noteq> n) (fst w), snd w) = (mem_links w)(n := None)" for n and w
    by (simp add: mem_links_def)
  have add: "plain_name n \<Longrightarrow> mem_links ((n, t) # fst w, snd w) = (mem_links w)(n \<mapsto> t)" for n t w
    by (simp add: mem_links_def)
  show ?thesis
    unfolding root_laws_def plain_name_def[symmetric]
  proof (intro conjI allI impI)
    fix w roots assume "list_roots (mem_sys gens) ROOTS w = Inr roots"
    then show "\<forall>r\<in>set roots. plain_name (gr_name r)" "mem_links w = map_of (map (\<lambda>r. (gr_name r, gr_target r)) roots)"
      using mem_list_roots[of gens w] by auto
  qed (auto simp: mem_sys_def mem_remove_def mem_exists_def link_name_join rm add)
qed

lemma mem_sys_work: "links_work (mem_sys gens) ROOTS"
  by (auto simp: links_work_def mem_sys_def mem_remove_def mem_exists_def link_name_join)

section \<open>Properties\<close>





end
