(* ===== verification/Activation.thy ===== *)
theory Activation
  imports Activation_Order System_Roots
begin

text \<open>
  Activating a manifest (\<^verbatim>\<open>snix-redox/src/activate.rs\<close>): the plan computed from two manifests, the profile
  swap, configuration files, boot components, the links of \<^verbatim>\<open>/etc/static\<close>, and activation scripts.
  What is printed is left out; a warning is a value of \<open>sys_warning\<close> instead of a text. The walks over
  directory trees return \<^const>\<open>None\<close> if they do not end.
\<close>

section \<open>The plan\<close>

record package_change =
  pch_name :: string
  pch_old_version :: string
  pch_new_version :: string
  pch_old_store_path :: string
  pch_new_store_path :: string

record config_change =
  cch_path :: string
  cch_old_hash :: string
  cch_new_hash :: string

record service_change =
  sch_name :: string
  sch_svc_type :: string
  sch_description :: string

record activation_plan =
  ap_packages_added :: "string list"
  ap_packages_removed :: "string list"
  ap_packages_changed :: "package_change list"
  ap_config_files_added :: "string list"
  ap_config_files_removed :: "string list"
  ap_config_files_changed :: "config_change list"
  ap_services_added :: "service_change list"
  ap_services_removed :: "service_change list"
  ap_services_changed :: "service_change list"
  ap_profile_needs_rebuild :: bool
  ap_profile_binary_count :: u32
  ap_users_added :: "string list"
  ap_users_removed :: "string list"
  ap_users_changed :: "string list"
  ap_activation_scripts :: "string list"

definition diff_packages ::
  "(string, sys_package) btree \<Rightarrow> (string, sys_package) btree \<Rightarrow> string list \<times> string list \<times> package_change list" where
  "diff_packages old new =
     (map fst (filter (\<lambda>(name, _). bt_get old name = None) new),
      filter (\<lambda>name. bt_get new name = None) (bt_keys old),
      concat (map (\<lambda>(name, new_pkg).
        case bt_get old name of
          None \<Rightarrow> []
        | Some old_pkg \<Rightarrow>
            if pk_version old_pkg \<noteq> pk_version new_pkg \<or> pk_store_path old_pkg \<noteq> pk_store_path new_pkg
            then [\<lparr>pch_name = name, pch_old_version = pk_version old_pkg, pch_new_version = pk_version new_pkg,
                   pch_old_store_path = pk_store_path old_pkg, pch_new_store_path = pk_store_path new_pkg\<rparr>]
            else []) new))"

definition diff_config_files ::
  "(string, file_info) btree \<Rightarrow> (string, file_info) btree \<Rightarrow> string list \<times> string list \<times> config_change list" where
  "diff_config_files old new =
     (map fst (filter (\<lambda>(path, _). bt_get old path = None) new),
      filter (\<lambda>path. bt_get new path = None) (bt_keys old),
      concat (map (\<lambda>(path, new_info).
        case bt_get old path of
          None \<Rightarrow> []
        | Some old_info \<Rightarrow>
            if fi_blake3 old_info \<noteq> fi_blake3 new_info
            then [\<lparr>cch_path = path, cch_old_hash = fi_blake3 old_info, cch_new_hash = fi_blake3 new_info\<rparr>]
            else []) new))"

definition change_of :: "string \<times> service_info \<Rightarrow> service_change" where
  "change_of x = (case x of (name, svc) \<Rightarrow>
     \<lparr>sch_name = name, sch_svc_type = sv_svc_type svc, sch_description = sv_description svc\<rparr>)"

definition diff_declared_services ::
  "(string, service_info) btree \<Rightarrow> (string, service_info) btree
   \<Rightarrow> service_change list \<times> service_change list \<times> service_change list" where
  "diff_declared_services old new =
     (map change_of (filter (\<lambda>(name, _). bt_get old name = None) new),
      map change_of (filter (\<lambda>(name, _). bt_get new name = None) old),
      map change_of (filter (\<lambda>(name, new_svc).
        case bt_get old name of None \<Rightarrow> False | Some old_svc \<Rightarrow> old_svc \<noteq> new_svc) new))"

definition diff_users ::
  "(string, sys_user) btree \<Rightarrow> (string, sys_user) btree \<Rightarrow> string list \<times> string list \<times> string list" where
  "diff_users old new =
     (map fst (filter (\<lambda>(name, _). bt_get old name = None) new),
      filter (\<lambda>name. bt_get new name = None) (bt_keys old),
      map fst (filter (\<lambda>(name, new_user).
        case bt_get old name of
          None \<Rightarrow> False
        | Some old_user \<Rightarrow>
            us_uid old_user \<noteq> us_uid new_user \<or> us_gid old_user \<noteq> us_gid new_user
            \<or> us_home old_user \<noteq> us_home new_user \<or> us_shell old_user \<noteq> us_shell new_user) new))"

definition count_profile_binaries :: "('w, 'x) sys_fs_scheme \<Rightarrow> sys_package list \<Rightarrow> 'w \<Rightarrow> u32" where
  "count_profile_binaries fs packages w =
     fold (\<lambda>pkg linked.
       if pk_store_path pkg = [] then linked
       else
         let bin_dir = path_join (pk_store_path pkg) ''bin'' in
         if \<not> gcf_is_dir fs bin_dir w then linked
         else (case sf_entries fs bin_dir w of
           Inl _ \<Rightarrow> linked
         | Inr es \<Rightarrow> linked + of_nat (length (filter (\<lambda>e. case e of Inr (_, Inr is_file) \<Rightarrow> is_file | _ \<Rightarrow> False) es))))
       packages 0"

definition packages_by_name :: "sys_package list \<Rightarrow> (string, sys_package) btree" where
  "packages_by_name packages = fold (\<lambda>p. bt_insert (pk_name p) p) packages []"

definition plan :: "('w, 'x) sys_fs_scheme \<Rightarrow> sys_manifest \<Rightarrow> sys_manifest \<Rightarrow> 'w \<Rightarrow> activation_plan" where
  "plan fs old new w =
     (case diff_packages (packages_by_name (sm_packages old)) (packages_by_name (sm_packages new)) of (padd, prem, pchg) \<Rightarrow>
      case diff_config_files (sm_files old) (sm_files new) of (cadd, crem, cchg) \<Rightarrow>
      case diff_declared_services (ss_declared (sm_services old)) (ss_declared (sm_services new)) of (sadd, srem, schg) \<Rightarrow>
      case diff_users (sm_users old) (sm_users new) of (uadd, urem, uchg) \<Rightarrow>
        \<lparr>ap_packages_added = padd, ap_packages_removed = prem, ap_packages_changed = pchg,
         ap_config_files_added = cadd, ap_config_files_removed = crem, ap_config_files_changed = cchg,
         ap_services_added = sadd, ap_services_removed = srem, ap_services_changed = schg,
         ap_profile_needs_rebuild = (padd \<noteq> [] \<or> prem \<noteq> [] \<or> pchg \<noteq> []),
         ap_profile_binary_count = count_profile_binaries fs (sm_packages new) w,
         ap_users_added = uadd, ap_users_removed = urem, ap_users_changed = uchg,
         ap_activation_scripts = (case topo_sort (sm_activation_scripts new) of Some (Inr order) \<Rightarrow> order | _ \<Rightarrow> [])\<rparr>)"

definition plan_is_empty :: "activation_plan \<Rightarrow> bool" where
  "plan_is_empty p \<longleftrightarrow>
     ap_packages_added p = [] \<and> ap_packages_removed p = [] \<and> ap_packages_changed p = []
   \<and> ap_config_files_added p = [] \<and> ap_config_files_removed p = [] \<and> ap_config_files_changed p = []
   \<and> ap_services_added p = [] \<and> ap_services_removed p = [] \<and> ap_services_changed p = []
   \<and> ap_users_added p = [] \<and> ap_users_removed p = [] \<and> ap_users_changed p = [] \<and> ap_activation_scripts p = []"

section \<open>State of an activation\<close>

datatype sys_warning =
    WSwap sys_error
  | WProfile sys_error
  | WBadPath string
  | WWrite string io_kind
  | WMissing string
  | WRemove string io_kind
  | WNeedsUpdate string
  | WEtcStatic sys_error
  | WBootMissing string
  | WBootCopy string sys_error
  | WRoots sys_error
  | WCurrentSystem sys_error
  | WScriptOrder topo_error
  | WScriptMissing string
  | WScriptFailed string

type_synonym 'w act = "sys_warning list \<times> 'w"

record activation_result =
  ar_binaries_linked :: u32
  ar_config_files_updated :: u32
  ar_warnings :: "sys_warning list"
  ar_reboot_recommended :: bool

definition warn :: "sys_warning \<Rightarrow> 'w act \<Rightarrow> 'w act" where
  "warn x s = (case s of (ws, w) \<Rightarrow> (ws @ [x], w))"

definition cleanup_path :: "('w, 'x) sys_fs_scheme \<Rightarrow> path_buf \<Rightarrow> 'w \<Rightarrow> 'w" where
  "cleanup_path fs p w =
     (if gcf_is_dir fs p w then snd (gcf_remove_dir_all fs p w)
      else if dbf_exists fs p w \<or> gcf_lexists fs p w then snd (dbf_remove_file fs p w)
      else w)"

section \<open>The profile\<close>

definition SYSTEM_PROFILE_BIN :: string where "SYSTEM_PROFILE_BIN = ''/nix/system/profile/bin''"
definition STAGING_DIR :: string where "STAGING_DIR = ''/nix/system/.profile-staging''"

fun link_entries ::
  "('w, 'x) sys_fs_scheme \<Rightarrow> path_buf \<Rightarrow> path_buf \<Rightarrow> (io_kind + string \<times> (io_kind + bool)) list \<Rightarrow> u32 \<Rightarrow> ('w, u32) sys_io" where
  "link_entries fs pkg_bin bin_dir [] linked = ret linked"
| "link_entries fs pkg_bin bin_dir (Inl e # es) linked = fail (SysIo e)"
| "link_entries fs pkg_bin bin_dir (Inr (name, Inl e) # es) linked = fail (SysIo e)"
| "link_entries fs pkg_bin bin_dir (Inr (name, Inr is_file) # es) linked =
     (if \<not> is_file then link_entries fs pkg_bin bin_dir es linked
      else
        let link_path = path_join bin_dir name; target = path_join pkg_bin name in
        bindS (\<lambda>w. (if gcf_lexists fs link_path w then sys_io (dbf_remove_file fs link_path) else ret ()) w) (\<lambda>_.
        bindS (sys_io (gcf_symlink fs target link_path)) (\<lambda>_.
        link_entries fs pkg_bin bin_dir es (linked + 1))))"

fun populate_profile_dir ::
  "('w, 'x) sys_fs_scheme \<Rightarrow> path_buf \<Rightarrow> sys_package list \<Rightarrow> u32 \<Rightarrow> ('w, u32) sys_io" where
  "populate_profile_dir fs bin_dir [] linked = ret linked"
| "populate_profile_dir fs bin_dir (pkg # pkgs) linked = (\<lambda>w.
     let pkg_bin = path_join (pk_store_path pkg) ''bin'' in
     if pk_store_path pkg = [] \<or> \<not> gcf_is_dir fs pkg_bin w then populate_profile_dir fs bin_dir pkgs linked w
     else (case sf_entries fs pkg_bin w of
       Inl e \<Rightarrow> (Inl (SysIo e), w)
     | Inr es \<Rightarrow> bindS (link_entries fs pkg_bin bin_dir es linked) (populate_profile_dir fs bin_dir pkgs) w))"

definition atomic_profile_swap :: "('w, 'x) sys_fs_scheme \<Rightarrow> sys_package list \<Rightarrow> ('w, u32) sys_io" where
  "atomic_profile_swap fs packages = (\<lambda>w0.
     let staging_bin = path_join STAGING_DIR ''bin'';
         profile_bin = SYSTEM_PROFILE_BIN;
         profile_bin_new = ''/nix/system/profile/bin.new'';
         profile_bin_old = ''/nix/system/profile/bin.old'';
         w = cleanup_path fs profile_bin_old (cleanup_path fs profile_bin_new (cleanup_path fs staging_bin w0)) in
     bindS (sys_io (dbf_create_dir_all fs staging_bin)) (\<lambda>_.
     bindS (populate_profile_dir fs staging_bin packages 0) (\<lambda>linked.
     bindS (sys_io (sf_rename fs staging_bin profile_bin_new)) (\<lambda>_.
     bindS (sys_io (dbf_create_dir_all fs ''/nix/system/profile'')) (\<lambda>_.
     bindS (\<lambda>w.
       if dbf_exists fs profile_bin w \<or> gcf_lexists fs profile_bin w then
         bindS (attempt (sf_set_permissions fs ''/nix/system/profile'' 0x1ED)) (\<lambda>_.
         bindS (sys_io (sf_rename fs profile_bin profile_bin_old)) (\<lambda>_. ret True)) w
       else (Inr False, w)) (\<lambda>had_old.
     bindS (attempt (sf_rename fs profile_bin_new profile_bin)) (\<lambda>r w.
       case r of
         Inr _ \<Rightarrow>
           (Inr linked, cleanup_path fs STAGING_DIR (if had_old then cleanup_path fs profile_bin_old w else w))
       | Inl e \<Rightarrow>
           let w1 = (if had_old then snd (sf_rename fs profile_bin_old profile_bin w) else w) in
           (Inl (SwapFailed e), cleanup_path fs STAGING_DIR (cleanup_path fs profile_bin_new w1)))))))) w)"

fun clear_links :: "('w, 'x) sys_fs_scheme \<Rightarrow> path_buf \<Rightarrow> (io_kind + string) list \<Rightarrow> ('w, unit) sys_io" where
  "clear_links fs dir [] = ret ()"
| "clear_links fs dir (Inl e # es) = fail (SysIo e)"
| "clear_links fs dir (Inr name # es) = (\<lambda>w.
     if \<not> gcf_lexists fs (path_join dir name) w then (Inl (SysIo NotFound), w)
     else bindS (if sf_is_symlink fs (path_join dir name) w then sys_io (dbf_remove_file fs (path_join dir name)) else ret ())
       (\<lambda>_. clear_links fs dir es) w)"

definition fallback_profile_rebuild :: "('w, 'x) sys_fs_scheme \<Rightarrow> sys_package list \<Rightarrow> ('w, u32) sys_io" where
  "fallback_profile_rebuild fs packages =
     bindS (\<lambda>w.
       if dbf_exists fs SYSTEM_PROFILE_BIN w then
         bindS (attempt (sf_set_permissions fs SYSTEM_PROFILE_BIN 0x1ED)) (\<lambda>_ w1.
           case dbf_read_dir fs SYSTEM_PROFILE_BIN w1 of
             Inl e \<Rightarrow> (Inl (SysIo e), w1)
           | Inr es \<Rightarrow> clear_links fs SYSTEM_PROFILE_BIN es w1) w
       else sys_io (dbf_create_dir_all fs SYSTEM_PROFILE_BIN) w)
       (\<lambda>_. populate_profile_dir fs SYSTEM_PROFILE_BIN packages 0)"

section \<open>Configuration files\<close>

definition octal_digit :: "char \<Rightarrow> bool" where
  "octal_digit c \<longleftrightarrow> 48 \<le> byte_of c \<and> byte_of c \<le> 55"

definition octal_value :: "string \<Rightarrow> nat" where
  "octal_value s = foldl (\<lambda>n c. 8 * n + (byte_of c - 48)) 0 s"

definition parse_mode_string :: "string \<Rightarrow> io_kind + u32" where
  "parse_mode_string mode =
     (let t0 = trim_ws mode;
          t1 = (case strip_prefix t0 ''0o'' of Some r \<Rightarrow> r | None \<Rightarrow> t0);
          t = (case strip_prefix t1 ''0'' of Some r \<Rightarrow> if r \<noteq> [] then r else t1 | None \<Rightarrow> t1) in
      if t = [] \<or> 4 < length t \<or> \<not> list_all octal_digit t then Inl InvalidInput
      else if 0xFFF < octal_value t then Inl InvalidInput
      else Inr (of_nat (octal_value t)))"

fun managed_parts :: "component list \<Rightarrow> path_buf \<Rightarrow> path_buf option" where
  "managed_parts [] relative = Some relative"
| "managed_parts (Normal part # cs) relative = managed_parts cs (path_join relative part)"
| "managed_parts (_ # cs) relative = None"

definition validate_managed_relative_path :: "string \<Rightarrow> io_kind + path_buf" where
  "validate_managed_relative_path path =
     (case managed_parts (components path) [] of
        None \<Rightarrow> Inl InvalidInput
      | Some relative \<Rightarrow> if relative = [] then Inl InvalidInput else Inr relative)"

definition managed_file_path_at :: "path_buf \<Rightarrow> string \<Rightarrow> io_kind + path_buf" where
  "managed_file_path_at root path = map_sum id (path_join root) (validate_managed_relative_path path)"

text \<open>A symbolic link in the way is replaced, not followed.\<close>

definition write_through :: "('w, 'x) sys_fs_scheme \<Rightarrow> path_buf \<Rightarrow> string \<Rightarrow> ('w, io_kind, unit) eio" where
  "write_through fs full_path contents =
     bindS (case path_parent full_path of Some parent \<Rightarrow> dbf_create_dir_all fs parent | None \<Rightarrow> ret ()) (\<lambda>_.
     bindS (\<lambda>w. (if gcf_lexists fs full_path w \<and> sf_is_symlink fs full_path w
                 then dbf_remove_file fs full_path else ret ()) w) (\<lambda>_.
     dbf_write fs full_path contents))"

definition write_inline_config_file_at ::
  "('w, 'x) sys_fs_scheme \<Rightarrow> path_buf \<Rightarrow> string \<Rightarrow> file_info \<Rightarrow> ('w, io_kind, unit) eio" where
  "write_inline_config_file_at fs root path info = (\<lambda>w.
     case managed_file_path_at root path of
       Inl e \<Rightarrow> (Inl e, w)
     | Inr full_path \<Rightarrow>
         bindS (write_through fs full_path (case fi_text info of Some t \<Rightarrow> t | None \<Rightarrow> [])) (\<lambda>_ w1.
           case parse_mode_string (fi_mode info) of
             Inl e \<Rightarrow> (Inl e, w1)
           | Inr mode \<Rightarrow> sf_set_permissions fs full_path mode w1) w)"

text \<open>One file of the new manifest that has inline text; \<open>None\<close> if it has none.\<close>

definition write_if_inline ::
  "('w, 'x) sys_fs_scheme \<Rightarrow> path_buf \<Rightarrow> (string, file_info) btree \<Rightarrow> string \<Rightarrow> u32 \<times> 'w act \<Rightarrow> (u32 \<times> 'w act) option" where
  "write_if_inline fs root new_files path s = (case s of (updated, ws, w) \<Rightarrow>
     (case bt_get new_files path of
        Some info \<Rightarrow>
          if fi_text info = None then None
          else Some (case write_inline_config_file_at fs root path info w of
            (Inr _, w1) \<Rightarrow> (updated + 1, ws, w1)
          | (Inl e, w1) \<Rightarrow> (updated, ws @ [WWrite path e], w1))
      | None \<Rightarrow> None))"

definition config_added ::
  "('w, 'x) sys_fs_scheme \<Rightarrow> path_buf \<Rightarrow> (string, file_info) btree \<Rightarrow> string \<Rightarrow> u32 \<times> 'w act \<Rightarrow> u32 \<times> 'w act" where
  "config_added fs root new_files path s =
     (case managed_file_path_at root path of
        Inl _ \<Rightarrow> (fst s, warn (WBadPath path) (snd s))
      | Inr full_path \<Rightarrow>
          (case write_if_inline fs root new_files path s of
             Some s' \<Rightarrow> s'
           | None \<Rightarrow>
               if dbf_exists fs full_path (snd (snd s)) then s
               else (fst s, warn (WMissing path) (snd s))))"

definition config_removed ::
  "('w, 'x) sys_fs_scheme \<Rightarrow> path_buf \<Rightarrow> string \<Rightarrow> u32 \<times> 'w act \<Rightarrow> u32 \<times> 'w act" where
  "config_removed fs root path s =
     (case managed_file_path_at root path of
        Inl _ \<Rightarrow> (fst s, warn (WBadPath path) (snd s))
      | Inr full_path \<Rightarrow>
          (case s of (updated, ws, w) \<Rightarrow>
             if \<not> dbf_exists fs full_path w then s
             else (case dbf_remove_file fs full_path w of
               (Inr _, w1) \<Rightarrow> (updated + 1, ws, w1)
             | (Inl e, w1) \<Rightarrow> (updated, ws @ [WRemove path e], w1))))"

definition hash_file_if_exists :: "('w, 'x) sys_fs_scheme \<Rightarrow> path_buf \<Rightarrow> 'w \<Rightarrow> string option" where
  "hash_file_if_exists fs path w = (case sf_read_bytes fs path w of Inr s \<Rightarrow> Some (sf_hash fs s) | Inl _ \<Rightarrow> None)"

definition config_changed ::
  "('w, 'x) sys_fs_scheme \<Rightarrow> path_buf \<Rightarrow> (string, file_info) btree \<Rightarrow> config_change \<Rightarrow> u32 \<times> 'w act \<Rightarrow> u32 \<times> 'w act" where
  "config_changed fs root new_files change s =
     (case managed_file_path_at root (cch_path change) of
        Inl _ \<Rightarrow> (fst s, warn (WBadPath (cch_path change)) (snd s))
      | Inr full_path \<Rightarrow>
          (case write_if_inline fs root new_files (cch_path change) s of
             Some s' \<Rightarrow> s'
           | None \<Rightarrow>
               (case s of (updated, ws, w) \<Rightarrow>
                  if \<not> dbf_exists fs full_path w then s
                  else (updated + 1,
                    if hash_file_if_exists fs full_path w = Some (cch_new_hash change) then (ws, w)
                    else (ws @ [WNeedsUpdate (cch_path change)], w)))))"

definition update_config_files_at ::
  "('w, 'x) sys_fs_scheme \<Rightarrow> path_buf \<Rightarrow> string list \<Rightarrow> string list \<Rightarrow> config_change list \<Rightarrow> (string, file_info) btree
   \<Rightarrow> 'w act \<Rightarrow> u32 \<times> 'w act" where
  "update_config_files_at fs root added removed changed new_files s =
     fold (config_changed fs root new_files) changed
       (fold (config_removed fs root) removed
         (fold (config_added fs root new_files) added (0, s)))"

definition write_manifest_derived_file_at ::
  "('w, 'x) sys_fs_scheme \<Rightarrow> path_buf \<Rightarrow> string \<Rightarrow> string \<Rightarrow> ('w, io_kind, unit) eio" where
  "write_manifest_derived_file_at fs root path contents =
     (let relative = (case strip_prefix path ''/'' of Some r \<Rightarrow> r | None \<Rightarrow> path)
      in write_through fs (path_join root relative) contents)"

definition derive_file ::
  "('w, 'x) sys_fs_scheme \<Rightarrow> path_buf \<Rightarrow> bool \<Rightarrow> string \<Rightarrow> string \<Rightarrow> u32 \<times> 'w act \<Rightarrow> u32 \<times> 'w act" where
  "derive_file fs root changed path contents s =
     (if \<not> changed then s
      else (case s of (n, ws, w) \<Rightarrow>
        (case write_manifest_derived_file_at fs root path contents w of
           (Inr _, w1) \<Rightarrow> (n + 1, ws, w1)
         | (Inl e, w1) \<Rightarrow> (n, ws @ [WWrite path e], w1))))"

definition write_manifest_derived_files_at ::
  "('w, 'x) sys_fs_scheme \<Rightarrow> path_buf \<Rightarrow> sys_manifest \<Rightarrow> sys_manifest \<Rightarrow> 'w act \<Rightarrow> u32 \<times> 'w act" where
  "write_manifest_derived_files_at fs root old new s =
     (let dns = (\<lambda>m. nc_dns (cf_networking (sm_configuration m))) in
      derive_file fs root (dns old \<noteq> dns new) ''/etc/net/dns'' (join_char (CHR 0x0A) (dns new))
        (derive_file fs root (si_timezone (sm_system old) \<noteq> si_timezone (sm_system new)) ''/etc/timezone''
           (si_timezone (sm_system new))
          (derive_file fs root (si_hostname (sm_system old) \<noteq> si_hostname (sm_system new)) ''/etc/hostname''
             (si_hostname (sm_system new)) (0, s))))"

section \<open>Boot components\<close>

definition BOOT_DIR :: string where "BOOT_DIR = ''/boot''"
definition ACTIVE_BOOT_DIR :: string where "ACTIVE_BOOT_DIR = ''/usr/lib/boot''"

text \<open>The destination names have no extension, so the temporary name is the name with \<^verbatim>\<open>.tmp\<close>.\<close>

definition copy_boot_file :: "('w, 'x) sys_fs_scheme \<Rightarrow> string \<Rightarrow> string \<Rightarrow> ('w, unit) sys_io" where
  "copy_boot_file fs src dst = (\<lambda>w.
     if \<not> dbf_exists fs src w then (Inl (BootFileMissing src), w)
     else
       let tmp_path = dst @ ''.tmp'' in
       bindS (case path_parent dst of Some parent \<Rightarrow> sys_io (dbf_create_dir_all fs parent) | None \<Rightarrow> ret ()) (\<lambda>_.
       bindS (sys_io (sf_copy fs src tmp_path)) (\<lambda>_.
       sys_io (sf_rename fs tmp_path dst))) w)"

fun copy_compat :: "('w, 'x) sys_fs_scheme \<Rightarrow> string \<Rightarrow> string \<Rightarrow> string \<Rightarrow> string list \<Rightarrow> 'w act \<Rightarrow> 'w act" where
  "copy_compat fs src file_name active_boot_dir [] s = s"
| "copy_compat fs src file_name active_boot_dir (boot_dir # dirs) (ws, w) =
     (if boot_dir = active_boot_dir then copy_compat fs src file_name active_boot_dir dirs (ws, w)
      else
        let dst = boot_dir @ ''/'' @ file_name in
        copy_compat fs src file_name active_boot_dir dirs
          (case copy_boot_file fs src dst w of
             (Inr _, w1) \<Rightarrow> (ws, w1)
           | (Inl e, w1) \<Rightarrow> (ws @ [WBootCopy dst e], w1)))"

definition copy_boot_component ::
  "('w, 'x) sys_fs_scheme \<Rightarrow> string \<Rightarrow> string \<Rightarrow> string \<Rightarrow> string list \<Rightarrow> 'w act \<Rightarrow> bool \<times> 'w act" where
  "copy_boot_component fs src file_name active_boot_dir compat_dirs s = (case s of (ws, w) \<Rightarrow>
     if \<not> dbf_exists fs src w then (False, (ws @ [WBootMissing src], w))
     else
       let active_dst = active_boot_dir @ ''/'' @ file_name in
       (case copy_boot_file fs src active_dst w of
          (Inr _, w1) \<Rightarrow> (True, copy_compat fs src file_name active_boot_dir compat_dirs (ws, w1))
        | (Inl e, w1) \<Rightarrow>
            (False, copy_compat fs src file_name active_boot_dir compat_dirs (ws @ [WBootCopy active_dst e], w1))))"

definition update_component ::
  "('w, 'x) sys_fs_scheme \<Rightarrow> string option \<Rightarrow> string option option \<Rightarrow> string \<Rightarrow> string \<Rightarrow> string list
   \<Rightarrow> bool \<times> 'w act \<Rightarrow> bool \<times> 'w act" where
  "update_component fs new_path old_path file_name active_boot_dir compat_dirs s = (case s of (updated, a) \<Rightarrow>
     (case new_path of
        None \<Rightarrow> (updated, a)
      | Some path \<Rightarrow>
          if old_path \<noteq> Some (Some path)
          then (case copy_boot_component fs path file_name active_boot_dir compat_dirs a of (ok, a') \<Rightarrow> (ok \<or> updated, a'))
          else (updated, a)))"

definition update_boot_components_at ::
  "('w, 'x) sys_fs_scheme \<Rightarrow> sys_manifest \<Rightarrow> sys_manifest \<Rightarrow> string \<Rightarrow> string list \<Rightarrow> 'w act \<Rightarrow> bool \<times> 'w act" where
  "update_boot_components_at fs old new active_boot_dir compat_dirs s =
     (case sm_boot new of
        None \<Rightarrow> (False, s)
      | Some new_boot \<Rightarrow>
          update_component fs (bo_initfs new_boot) (map_option bo_initfs (sm_boot old)) ''initfs'' active_boot_dir compat_dirs
            (update_component fs (bo_kernel new_boot) (map_option bo_kernel (sm_boot old)) ''kernel'' active_boot_dir compat_dirs
              (False, s)))"

definition boot_components_changed :: "sys_manifest \<Rightarrow> sys_manifest \<Rightarrow> bool" where
  "boot_components_changed old new =
     (case (sm_boot old, sm_boot new) of
        (Some old_boot, Some new_boot) \<Rightarrow> old_boot \<noteq> new_boot
      | (None, None) \<Rightarrow> False
      | _ \<Rightarrow> True)"

definition has_boot_config_changed :: "sys_manifest \<Rightarrow> sys_manifest \<Rightarrow> bool" where
  "has_boot_config_changed old new =
     (let hw = (\<lambda>m. cf_hardware (sm_configuration m)) in
      dr_initfs (sm_drivers old) \<noteq> dr_initfs (sm_drivers new)
    \<or> hw_storage_drivers (hw old) \<noteq> hw_storage_drivers (hw new)
    \<or> hw_network_drivers (hw old) \<noteq> hw_network_drivers (hw new)
    \<or> hw_graphics_drivers (hw old) \<noteq> hw_graphics_drivers (hw new)
    \<or> hw_audio_drivers (hw old) \<noteq> hw_audio_drivers (hw new)
    \<or> hw_usb_enabled (hw old) \<noteq> hw_usb_enabled (hw new)
    \<or> bc_disk_size_mb (cf_boot (sm_configuration old)) \<noteq> bc_disk_size_mb (cf_boot (sm_configuration new))
    \<or> ss_init_scripts (sm_services old) \<noteq> ss_init_scripts (sm_services new)
    \<or> boot_components_changed old new)"

section \<open>The links of \<^verbatim>\<open>/etc/static\<close>\<close>

definition link_etc :: "('w, 'x) sys_fs_scheme \<Rightarrow> path_buf \<Rightarrow> path_buf \<Rightarrow> ('w, unit) sys_io" where
  "link_etc fs etc_path static_path = (\<lambda>w.
     case gcf_read_link fs etc_path w of
       Inr target \<Rightarrow>
         if path_eq target static_path then (Inr (), w)
         else sys_io (gcf_symlink fs static_path etc_path) (snd (dbf_remove_file fs etc_path w))
     | Inl _ \<Rightarrow>
         sys_io (gcf_symlink fs static_path etc_path)
           (if dbf_exists fs etc_path w then snd (dbf_remove_file fs etc_path w) else w))"

text \<open>
  The recursion over directories, with the frames it still has to finish: source, target and static directory,
  and the entries left.
\<close>

type_synonym etc_frame = "path_buf \<times> path_buf \<times> path_buf \<times> (io_kind + string) list"

partial_function (option) etc_loop ::
  "('w, 'x) sys_fs_scheme \<Rightarrow> etc_frame list \<Rightarrow> 'w \<Rightarrow> ((sys_error + unit) \<times> 'w) option" where
  "etc_loop fs frames w =
     (case frames of
        [] \<Rightarrow> Some (Inr (), w)
      | (src, etc, st, []) # rest \<Rightarrow> etc_loop fs rest w
      | (src, etc, st, Inl e # es) # rest \<Rightarrow> Some (Inl (SysIo e), w)
      | (src, etc, st, Inr name # es) # rest \<Rightarrow>
          if gcf_is_dir fs (path_join src name) w then
            (case dbf_create_dir_all fs (path_join etc name) w of
               (Inl e, w1) \<Rightarrow> Some (Inl (SysIo e), w1)
             | (Inr _, w1) \<Rightarrow>
                 (case dbf_read_dir fs (path_join src name) w1 of
                    Inl e \<Rightarrow> Some (Inl (SysIo e), w1)
                  | Inr sub \<Rightarrow>
                      etc_loop fs ((path_join src name, path_join etc name, path_join st name, sub) # (src, etc, st, es) # rest) w1))
          else
            (case link_etc fs (path_join etc name) (path_join st name) w of
               (Inl e, w1) \<Rightarrow> Some (Inl e, w1)
             | (Inr _, w1) \<Rightarrow> etc_loop fs ((src, etc, st, es) # rest) w1))"

definition create_etc_symlinks ::
  "('w, 'x) sys_fs_scheme \<Rightarrow> path_buf \<Rightarrow> path_buf \<Rightarrow> path_buf \<Rightarrow> 'w \<Rightarrow> ((sys_error + unit) \<times> 'w) option" where
  "create_etc_symlinks fs src_dir etc_dir static_base w =
     (case dbf_read_dir fs src_dir w of
        Inl e \<Rightarrow> Some (Inl (SysIo e), w)
      | Inr es \<Rightarrow> etc_loop fs [(src_dir, etc_dir, static_base, es)] w)"

definition drop_stale :: "('w, 'x) sys_fs_scheme \<Rightarrow> string \<Rightarrow> path_buf \<Rightarrow> 'w \<Rightarrow> 'w" where
  "drop_stale fs static_prefix path w =
     (if sf_is_symlink fs path w then
        (case gcf_read_link fs path w of
           Inr target \<Rightarrow>
             if prefix static_prefix target \<and> \<not> dbf_exists fs target w then snd (dbf_remove_file fs path w) else w
         | Inl _ \<Rightarrow> w)
      else w)"

partial_function (option) stale_loop ::
  "('w, 'x) sys_fs_scheme \<Rightarrow> string \<Rightarrow> (path_buf \<times> (io_kind + string) list) list \<Rightarrow> 'w \<Rightarrow> ((sys_error + unit) \<times> 'w) option" where
  "stale_loop fs static_prefix frames w =
     (case frames of
        [] \<Rightarrow> Some (Inr (), w)
      | (dir, []) # rest \<Rightarrow> stale_loop fs static_prefix rest w
      | (dir, Inl e # es) # rest \<Rightarrow> Some (Inl (SysIo e), w)
      | (dir, Inr name # es) # rest \<Rightarrow>
          if gcf_is_dir fs (path_join dir name) w \<and> \<not> sf_is_symlink fs (path_join dir name) w then
            if name = ''static'' then stale_loop fs static_prefix ((dir, es) # rest) w
            else (case dbf_read_dir fs (path_join dir name) w of
              Inl _ \<Rightarrow> stale_loop fs static_prefix ((dir, es) # rest) w
            | Inr sub \<Rightarrow> stale_loop fs static_prefix ((path_join dir name, sub) # (dir, es) # rest) w)
          else stale_loop fs static_prefix ((dir, es) # rest) (drop_stale fs static_prefix (path_join dir name) w))"

definition clean_stale_etc_symlinks ::
  "('w, 'x) sys_fs_scheme \<Rightarrow> path_buf \<Rightarrow> string \<Rightarrow> 'w \<Rightarrow> ((sys_error + unit) \<times> 'w) option" where
  "clean_stale_etc_symlinks fs dir static_prefix w =
     (case dbf_read_dir fs dir w of
        Inl _ \<Rightarrow> Some (Inr (), w)
      | Inr es \<Rightarrow> stale_loop fs static_prefix [(dir, es)] w)"

definition setup_etc_static :: "('w, 'x) sys_fs_scheme \<Rightarrow> string \<Rightarrow> 'w \<Rightarrow> ((sys_error + unit) \<times> 'w) option" where
  "setup_etc_static fs etc_source w =
     (if \<not> dbf_exists fs etc_source w then Some (Inl (EtcSourceMissing etc_source), w)
      else
        (case bindS (\<lambda>w.
             if gcf_lexists fs ''/etc/static'' w then
               bindS (attempt (dbf_remove_file fs ''/etc/static'')) (\<lambda>r.
                 case r of Inr _ \<Rightarrow> ret () | Inl _ \<Rightarrow> sys_io (gcf_remove_dir_all fs ''/etc/static'')) w
             else (Inr (), w))
           (\<lambda>_. sys_io (gcf_symlink fs etc_source ''/etc/static'')) w of
           (Inl e, w1) \<Rightarrow> Some (Inl e, w1)
         | (Inr _, w1) \<Rightarrow>
             let etc_subdir = path_join etc_source ''etc'' in
             (case (if gcf_is_dir fs etc_subdir w1
                    then create_etc_symlinks fs etc_subdir ''/etc'' ''/etc/static/etc'' w1 else Some (Inr (), w1)) of
                None \<Rightarrow> None
              | Some (Inl e, w2) \<Rightarrow> Some (Inl e, w2)
              | Some (Inr _, w2) \<Rightarrow> clean_stale_etc_symlinks fs ''/etc'' ''/etc/static/'' w2)))"

section \<open>The current system and scripts\<close>

definition replace_link :: "('w, 'x) sys_fs_scheme \<Rightarrow> string \<Rightarrow> path_buf \<Rightarrow> ('w, unit) sys_io" where
  "replace_link fs target link =
     bindS (\<lambda>w. (if gcf_lexists fs link w then sys_io (dbf_remove_file fs link) else ret ()) w) (\<lambda>_.
     sys_io (gcf_symlink fs target link))"

definition update_current_system_link :: "('w, 'x) sys_fs_scheme \<Rightarrow> string \<Rightarrow> ('w, unit) sys_io" where
  "update_current_system_link fs toplevel =
     bindS (sys_io (dbf_create_dir_all fs ''/run'')) (\<lambda>_.
     bindS (replace_link fs toplevel ''/run/current-system'') (\<lambda>_.
     bindS (sys_io (dbf_create_dir_all fs ''/nix/var/nix/gcroots'')) (\<lambda>_.
     replace_link fs ''/run/current-system'' ''/nix/var/nix/gcroots/current-system'')))"

definition ACTIVATION_SCRIPTS_DIR :: string where
  "ACTIVATION_SCRIPTS_DIR = ''/etc/redox-system/activation.d''"

fun run_scripts :: "('w, 'x) sys_fs_scheme \<Rightarrow> path_buf \<Rightarrow> string list \<Rightarrow> u32 \<times> 'w act \<Rightarrow> u32 \<times> 'w act" where
  "run_scripts fs dir [] s = s"
| "run_scripts fs dir (name # names) (n, ws, w) =
     (if \<not> dbf_exists fs (path_join dir name) w then run_scripts fs dir names (n, ws @ [WScriptMissing name], w)
      else (case sf_run_script fs (path_join dir name) w of
        (Inr True, w1) \<Rightarrow> run_scripts fs dir names (n + 1, ws, w1)
      | (_, w1) \<Rightarrow> run_scripts fs dir names (n, ws @ [WScriptFailed name], w1)))"

definition run_activation_scripts_at ::
  "('w, 'x) sys_fs_scheme \<Rightarrow> activation_script list \<Rightarrow> path_buf \<Rightarrow> 'w act \<Rightarrow> (u32 \<times> 'w act) option" where
  "run_activation_scripts_at fs scripts scripts_dir s =
     (if scripts = [] then Some (0, s)
      else (case topo_sort scripts of
        None \<Rightarrow> None
      | Some (Inl e) \<Rightarrow> Some (0, warn (WScriptOrder e) s)
      | Some (Inr order) \<Rightarrow> Some (run_scripts fs scripts_dir order (0, s))))"

section \<open>Activation\<close>

definition rebuild_profile :: "('w, 'x) sys_fs_scheme \<Rightarrow> sys_package list \<Rightarrow> 'w \<Rightarrow> u32 \<times> 'w act" where
  "rebuild_profile fs packages w =
     (case atomic_profile_swap fs packages w of
        (Inr n, w1) \<Rightarrow> (n, [], w1)
      | (Inl e, w1) \<Rightarrow>
          (case fallback_profile_rebuild fs packages w1 of
             (Inr n, w2) \<Rightarrow> (n, [WSwap e], w2)
           | (Inl e2, w2) \<Rightarrow> (0, [WSwap e, WProfile e2], w2)))"

definition warn_on_error :: "(sys_error \<Rightarrow> sys_warning) \<Rightarrow> sys_warning list \<Rightarrow> (sys_error + unit) \<times> 'w \<Rightarrow> 'w act" where
  "warn_on_error f ws r = (case r of (Inr _, w) \<Rightarrow> (ws, w) | (Inl e, w) \<Rightarrow> (ws @ [f e], w))"

text \<open>An activation never fails: every error becomes a warning. \<open>None\<close> if it does not return.\<close>

definition activate ::
  "('w, 'x) sys_fs_scheme \<Rightarrow> sys_manifest \<Rightarrow> sys_manifest \<Rightarrow> bool \<Rightarrow> 'w \<Rightarrow> (activation_result \<times> 'w) option" where
  "activate fs old new dry_run w0 =
     (let p = plan fs old new w0 in
      if dry_run then
        Some (\<lparr>ar_binaries_linked = 0, ar_config_files_updated = 0, ar_warnings = [], ar_reboot_recommended = False\<rparr>, w0)
      else
        (case rebuild_profile fs (sm_packages new) w0 of (binaries_linked, s1) \<Rightarrow>
         (case update_config_files_at fs ''/'' (ap_config_files_added p) (ap_config_files_removed p)
                (ap_config_files_changed p) (sm_files new) s1 of (config_updated, ws2, w2) \<Rightarrow>
          (case (case sm_etc_source new of None \<Rightarrow> Some (Inr (), w2) | Some etc \<Rightarrow> setup_etc_static fs etc w2) of
             None \<Rightarrow> None
           | Some r3 \<Rightarrow>
               (case write_manifest_derived_files_at fs ''/'' old new (warn_on_error WEtcStatic ws2 r3) of (derived, s4) \<Rightarrow>
                (case update_boot_components_at fs old new ACTIVE_BOOT_DIR [BOOT_DIR] s4 of (boot_updated, ws5, w5) \<Rightarrow>
                 (case warn_on_error WRoots ws5 (update_system_gc_roots fs new None w5) of (ws6, w6) \<Rightarrow>
                  (case warn_on_error WCurrentSystem ws6 (update_current_system_link fs
                          (case sm_toplevel new of Some t \<Rightarrow> t | None \<Rightarrow> ''/etc/redox-system'') w6) of s7 \<Rightarrow>
                   (case run_activation_scripts_at fs (sm_activation_scripts new) ACTIVATION_SCRIPTS_DIR s7 of
                      None \<Rightarrow> None
                    | Some (_, ws8, w8) \<Rightarrow>
                        Some (\<lparr>ar_binaries_linked = binaries_linked, ar_config_files_updated = config_updated + derived,
                               ar_warnings = ws8,
                               ar_reboot_recommended = (boot_updated \<or> ap_services_added p \<noteq> [] \<or> ap_services_removed p \<noteq> []
                                 \<or> has_boot_config_changed old new)\<rparr>, w8))))))))))"

end
