(* ===== verification/Generations.thy ===== *)
theory Generations
  imports Activation
begin

text \<open>
  Switching between system generations, choosing the one to boot, and deleting old ones
  (\<^verbatim>\<open>snix-redox/src/system.rs\<close>). An operation that activates a manifest may not return, as activation
  may not; it is \<^const>\<open>None\<close> then. What the commands print is left out.
\<close>

section \<open>Operations that may not return\<close>

type_synonym ('w, 'e, 'a) epio = "'w \<Rightarrow> (('e + 'a) \<times> 'w) option"
type_synonym ('w, 'a) sys_pio = "('w, sys_error, 'a) epio"

definition bindP :: "('w, 'e, 'a) epio \<Rightarrow> ('a \<Rightarrow> ('w, 'e, 'b) epio) \<Rightarrow> ('w, 'e, 'b) epio" where
  "bindP m f = (\<lambda>w. case m w of None \<Rightarrow> None | Some (Inl e, w') \<Rightarrow> Some (Inl e, w') | Some (Inr x, w') \<Rightarrow> f x w')"

definition now :: "('w, 'e, 'a) eio \<Rightarrow> ('w, 'e, 'a) epio" where
  "now m = (\<lambda>w. Some (m w))"

text \<open>A read that may fail.\<close>

definition look :: "('w \<Rightarrow> 'e + 'a) \<Rightarrow> ('w, 'e, 'a) epio" where
  "look f = (\<lambda>w. Some (f w, w))"

section \<open>Stored generations\<close>

definition current_generation_link_path :: "string \<Rightarrow> path_buf" where
  "current_generation_link_path gen_dir =
     (if path_eq gen_dir GENERATIONS_DIR then CURRENT_GENERATION_LINK
      else path_join (case path_parent gen_dir of Some p \<Rightarrow> p | None \<Rightarrow> ''/nix/system'') ''current'')"

definition write_generation_metadata :: "('w, 'x) sys_fs_scheme \<Rightarrow> path_buf \<Rightarrow> generation_info \<Rightarrow> ('w, unit) sys_io" where
  "write_generation_metadata fs gen_dir info =
     sys_io (dbf_write fs (path_join gen_dir ''metadata.json'')
       (sf_encode_meta fs \<lparr>gm_id = gi_id info, gm_description = gi_description info, gm_timestamp = gi_timestamp info\<rparr>))"

definition update_current_generation_link :: "('w, 'x) sys_fs_scheme \<Rightarrow> string \<Rightarrow> u32 \<Rightarrow> ('w, unit) sys_io" where
  "update_current_generation_link fs gen_dir generation_id =
     (let current_link = current_generation_link_path gen_dir in
      bindS (case path_parent current_link of Some parent \<Rightarrow> sys_io (dbf_create_dir_all fs parent) | None \<Rightarrow> ret ()) (\<lambda>_.
      bindS (\<lambda>w. if dbf_exists fs current_link w \<or> gcf_lexists fs current_link w
          then (Inr (), snd (sf_remove_dir fs current_link (snd (dbf_remove_file fs current_link w))))
          else (Inr (), w)) (\<lambda>_.
      sys_io (gcf_symlink fs (path_join gen_dir (show_u32 generation_id)) current_link))))"

text \<open>The directory of a generation with its manifest and metadata.\<close>

definition save_generation :: "('w, 'x) sys_fs_scheme \<Rightarrow> string \<Rightarrow> sys_manifest \<Rightarrow> ('w, unit) sys_io" where
  "save_generation fs dir m =
     (let gen_dir = path_join dir (show_u32 (gi_id (sm_generation m))) in
      bindS (sys_io (dbf_create_dir_all fs gen_dir)) (\<lambda>_.
      bindS (sys_io (dbf_write fs (path_join gen_dir ''manifest.json'') (sf_encode fs m))) (\<lambda>_.
      write_generation_metadata fs gen_dir (sm_generation m))))"

fun snapshot_files ::
  "('w, 'x) sys_fs_scheme \<Rightarrow> path_buf \<Rightarrow> 'w \<Rightarrow> (string, file_info) btree \<Rightarrow> sys_error + (string, file_info) btree \<times> bool" where
  "snapshot_files fs root w [] = Inr ([], False)"
| "snapshot_files fs root w ((path, info) # files) =
     (if fi_text info \<noteq> None \<or> \<not> (prefix ''usr/lib/init.d/'' path \<or> path = ''startup.sh'')
      then map_sum id (\<lambda>(rest, changed). ((path, info) # rest, changed)) (snapshot_files fs root w files)
      else (case dbf_read fs (path_join root path) w of
        Inl e \<Rightarrow> Inl (SysIo e)
      | Inr text \<Rightarrow>
          if sf_hash fs text \<noteq> fi_blake3 info then Inl (ModifiedFile path)
          else map_sum id (\<lambda>(rest, _). ((path, info\<lparr>fi_text := Some text\<rparr>) # rest, True)) (snapshot_files fs root w files)))"

definition snapshot_root_files ::
  "('w, 'x) sys_fs_scheme \<Rightarrow> sys_manifest \<Rightarrow> path_buf \<Rightarrow> 'w \<Rightarrow> sys_error + sys_manifest \<times> bool" where
  "snapshot_root_files fs manifest root w =
     map_sum id (\<lambda>(files, changed). (manifest\<lparr>sm_files := files\<rparr>, changed)) (snapshot_files fs root w (sm_files manifest))"

section \<open>The boot default\<close>

definition read_boot_default :: "('w, 'x) sys_fs_scheme \<Rightarrow> string option \<Rightarrow> 'w \<Rightarrow> sys_error + u32 option" where
  "read_boot_default fs boot_default_path w =
     (let path = (case boot_default_path of Some p \<Rightarrow> p | None \<Rightarrow> BOOT_DEFAULT_PATH) in
      if \<not> dbf_exists fs path w then Inr None
      else (case dbf_read fs path w of
        Inl e \<Rightarrow> Inl (SysIo e)
      | Inr s \<Rightarrow>
          let contents = trim_ws s in
          if contents = [] then Inr None
          else (case parse_u32 contents of None \<Rightarrow> Inl (BadBootDefault path) | Some n \<Rightarrow> Inr (Some n))))"

definition write_boot_default :: "('w, 'x) sys_fs_scheme \<Rightarrow> u32 \<Rightarrow> string option \<Rightarrow> ('w, unit) sys_io" where
  "write_boot_default fs generation_id boot_default_path =
     (let path = (case boot_default_path of Some p \<Rightarrow> p | None \<Rightarrow> BOOT_DEFAULT_PATH) in
      bindS (case path_parent path of Some parent \<Rightarrow> sys_io (dbf_create_dir_all fs parent) | None \<Rightarrow> ret ()) (\<lambda>_.
      sys_io (dbf_write fs path (show_u32 generation_id @ [CHR 0x0A]))))"

definition boot_cmd ::
  "('w, 'x) sys_fs_scheme \<Rightarrow> u32 option \<Rightarrow> string option \<Rightarrow> string option \<Rightarrow> ('w, unit) sys_io" where
  "boot_cmd fs generation_id gen_dir boot_default_path = (\<lambda>w.
     let dir = (case gen_dir of Some d \<Rightarrow> d | None \<Rightarrow> GENERATIONS_DIR) in
     case generation_id of
       Some n \<Rightarrow>
         (case scan_generations fs dir w of
            Inl e \<Rightarrow> (Inl e, w)
          | Inr gens \<Rightarrow>
              if \<not> list_ex (\<lambda>g. gn_id g = n) gens then (Inl (NoSuchGeneration n), w)
              else write_boot_default fs n boot_default_path w)
     | None \<Rightarrow> (map_sum id (\<lambda>_. ()) (read_boot_default fs boot_default_path w), w))"

section \<open>Switching\<close>

definition activate_now :: "('w, 'x) sys_fs_scheme \<Rightarrow> sys_manifest \<Rightarrow> sys_manifest \<Rightarrow> ('w, activation_result) sys_pio" where
  "activate_now fs old new w = map_option (\<lambda>(r, w'). (Inr r, w')) (activate fs old new False w)"

text \<open>Publishing a generation that has been activated; a boot default that cannot be written is only reported.\<close>

definition publish :: "('w, 'x) sys_fs_scheme \<Rightarrow> string \<Rightarrow> string \<Rightarrow> sys_manifest \<Rightarrow> ('w, unit) sys_io" where
  "publish fs dir mpath m =
     bindS (sys_io (dbf_write fs mpath (sf_encode fs m))) (\<lambda>_.
     bindS (update_current_generation_link fs dir (gi_id (sm_generation m))) (\<lambda>_ w.
     (Inr (), snd (write_boot_default fs (gi_id (sm_generation m)) None w))))"

definition new_generation ::
  "('w, 'x) sys_fs_scheme \<Rightarrow> string \<Rightarrow> sys_manifest \<Rightarrow> sys_manifest \<Rightarrow> string option \<Rightarrow> 'w \<Rightarrow> sys_manifest" where
  "new_generation fs dir current target description w =
     target\<lparr>sm_generation := (sm_generation target)
       \<lparr>gi_id := next_generation_id fs dir current w, gi_timestamp := sys_current_timestamp (sf_now fs w),
        gi_description := (case description of Some d \<Rightarrow> d | None \<Rightarrow> gi_description (sm_generation target))\<rparr>\<rparr>"

definition switch ::
  "('w, 'x) sys_fs_scheme \<Rightarrow> string \<Rightarrow> string option \<Rightarrow> bool \<Rightarrow> string option \<Rightarrow> string option \<Rightarrow> ('w, unit) sys_pio" where
  "switch fs new_manifest_path description dry_run gen_dir manifest_path =
     (let dir = (case gen_dir of Some d \<Rightarrow> d | None \<Rightarrow> GENERATIONS_DIR);
          mpath = (case manifest_path of Some p \<Rightarrow> p | None \<Rightarrow> MANIFEST_PATH) in
      bindP (look (load_manifest_from fs mpath)) (\<lambda>current.
      bindP (look (load_manifest_from fs new_manifest_path)) (\<lambda>target w.
      let new_manifest = new_generation fs dir current target description w in
      if dry_run then map_option (\<lambda>(_, w'). (Inr (), w')) (activate fs current new_manifest True w)
      else
        bindP (look (snapshot_root_files fs current ''/'')) (\<lambda>(current, enriched).
        bindP (now (\<lambda>w.
          if \<not> dbf_exists fs (path_join dir (show_u32 (gi_id (sm_generation current)))) w \<or> enriched
          then save_generation fs dir current w else (Inr (), w))) (\<lambda>_ w.
        let w1 = snd (update_system_gc_roots fs current gen_dir w) in
        bindP (now (save_generation fs dir new_manifest)) (\<lambda>_.
        bindP (activate_now fs current new_manifest) (\<lambda>_.
        now (publish fs dir mpath new_manifest))) w1)) w)))"

definition switch_generation_with ::
  "('w, 'x) sys_fs_scheme \<Rightarrow> u32 \<Rightarrow> string option \<Rightarrow> string option
   \<Rightarrow> (sys_manifest \<Rightarrow> sys_manifest \<Rightarrow> ('w, activation_result) sys_pio) \<Rightarrow> ('w, unit) sys_pio" where
  "switch_generation_with fs target_id gen_dir manifest_path act =
     (let dir = (case gen_dir of Some d \<Rightarrow> d | None \<Rightarrow> GENERATIONS_DIR);
          mpath = (case manifest_path of Some p \<Rightarrow> p | None \<Rightarrow> MANIFEST_PATH) in
      bindP (look (load_manifest_from fs mpath)) (\<lambda>current.
      bindP (look (scan_generations fs dir)) (\<lambda>gens.
      case find (\<lambda>g. gn_id g = target_id) gens of
        None \<Rightarrow> now (fail (NoSuchGeneration target_id))
      | Some target \<Rightarrow>
          if gn_id target = gi_id (sm_generation current) then now (ret ())
          else
            bindP (act current (gn_manifest target)) (\<lambda>_.
            bindP (now (sys_io (dbf_write fs mpath (sf_encode fs (gn_manifest target))))) (\<lambda>_.
            now (update_current_generation_link fs dir (gn_id target)))))))"

definition switch_generation ::
  "('w, 'x) sys_fs_scheme \<Rightarrow> u32 \<Rightarrow> string option \<Rightarrow> string option \<Rightarrow> ('w, unit) sys_pio" where
  "switch_generation fs target_id gen_dir manifest_path =
     switch_generation_with fs target_id gen_dir manifest_path (activate_now fs)"

text \<open>The most recent generation before the current one, else the latest one stored.\<close>

definition rollback_target :: "generation list \<Rightarrow> u32 option \<Rightarrow> u32 \<Rightarrow> sys_error + generation" where
  "rollback_target gens target_id current_id =
     (case target_id of
        Some n \<Rightarrow> (case find (\<lambda>g. gn_id g = n) gens of Some g \<Rightarrow> Inr g | None \<Rightarrow> Inl (NoSuchGeneration n))
      | None \<Rightarrow>
          (case find (\<lambda>g. gn_id g < current_id) (rev gens) of
             Some g \<Rightarrow> Inr g
           | None \<Rightarrow> if gens = [] then Inl NoGenerations else Inr (last gens)))"

definition rollback ::
  "('w, 'x) sys_fs_scheme \<Rightarrow> u32 option \<Rightarrow> string option \<Rightarrow> string option \<Rightarrow> ('w, unit) sys_pio" where
  "rollback fs target_id gen_dir manifest_path =
     (let dir = (case gen_dir of Some d \<Rightarrow> d | None \<Rightarrow> GENERATIONS_DIR);
          mpath = (case manifest_path of Some p \<Rightarrow> p | None \<Rightarrow> MANIFEST_PATH) in
      bindP (look (load_manifest_from fs mpath)) (\<lambda>current.
      bindP (look (scan_generations fs dir)) (\<lambda>gens.
      if gens = [] then now (fail NoGenerations)
      else
        bindP (look (\<lambda>_. rollback_target gens target_id (gi_id (sm_generation current)))) (\<lambda>target.
        if gn_id target = gi_id (sm_generation current) then now (ret ())
        else
          bindP (now (\<lambda>w.
            if \<not> dbf_exists fs (path_join dir (show_u32 (gi_id (sm_generation current)))) w
            then save_generation fs dir current w else (Inr (), w))) (\<lambda>_ w.
          let rolled_back = new_generation fs dir current (gn_manifest target)
                (Some (''rollback to generation '' @ show_u32 (gn_id target))) w in
          bindP (now (save_generation fs dir rolled_back)) (\<lambda>_.
          bindP (activate_now fs current rolled_back) (\<lambda>_.
          now (publish fs dir mpath rolled_back))) w)))))"

definition activate_boot ::
  "('w, 'x) sys_fs_scheme \<Rightarrow> u32 \<Rightarrow> string option \<Rightarrow> string option \<Rightarrow> ('w, unit) sys_pio" where
  "activate_boot fs generation_id gen_dir manifest_path =
     (let dir = (case gen_dir of Some d \<Rightarrow> d | None \<Rightarrow> GENERATIONS_DIR);
          mpath = (case manifest_path of Some p \<Rightarrow> p | None \<Rightarrow> MANIFEST_PATH) in
      bindP (look (load_manifest_from fs mpath)) (\<lambda>current.
      if gi_id (sm_generation current) = generation_id then now (ret ())
      else
        bindP (look (scan_generations fs dir)) (\<lambda>gens.
        case find (\<lambda>g. gn_id g = generation_id) gens of
          None \<Rightarrow> now (fail (NoSuchGeneration generation_id))
        | Some target \<Rightarrow>
            bindP (activate_now fs current (gn_manifest target)) (\<lambda>_.
            now (sys_io (dbf_write fs mpath (sf_encode fs (gn_manifest target))))))))"

definition activate_cmd ::
  "('w, 'x) sys_fs_scheme \<Rightarrow> string \<Rightarrow> bool \<Rightarrow> string option \<Rightarrow> ('w, unit) sys_pio" where
  "activate_cmd fs target_path dry_run manifest_path =
     (let mpath = (case manifest_path of Some p \<Rightarrow> p | None \<Rightarrow> MANIFEST_PATH) in
      bindP (look (load_manifest_from fs mpath)) (\<lambda>current.
      bindP (look (load_manifest_from fs target_path)) (\<lambda>target w.
      map_option (\<lambda>(_, w'). (Inr (), w')) (activate fs current target dry_run w))))"

section \<open>The profile and the tracked files\<close>

fun link_packages :: "('w, 'x) sys_fs_scheme \<Rightarrow> sys_package list \<Rightarrow> u32 \<Rightarrow> ('w, u32) sys_io" where
  "link_packages fs [] linked = ret linked"
| "link_packages fs (pkg # pkgs) linked = (\<lambda>w.
     let bin_dir = path_join (pk_store_path pkg) ''bin'' in
     if pk_store_path pkg = [] \<or> \<not> dbf_exists fs bin_dir w then link_packages fs pkgs linked w
     else (case sf_entries fs bin_dir w of
       Inl e \<Rightarrow> (Inl (SysIo e), w)
     | Inr es \<Rightarrow> bindS (link_entries fs bin_dir SYSTEM_PROFILE_BIN es linked) (link_packages fs pkgs) w))"

definition rebuild_system_profile :: "('w, 'x) sys_fs_scheme \<Rightarrow> sys_manifest \<Rightarrow> ('w, unit) sys_io" where
  "rebuild_system_profile fs manifest =
     bindS (\<lambda>w.
       if dbf_exists fs SYSTEM_PROFILE_BIN w then
         bindS (sys_io (sf_set_permissions fs SYSTEM_PROFILE_BIN 0x1ED)) (\<lambda>_ w1.
           case dbf_read_dir fs SYSTEM_PROFILE_BIN w1 of
             Inl e \<Rightarrow> (Inl (SysIo e), w1)
           | Inr es \<Rightarrow> clear_links fs SYSTEM_PROFILE_BIN es w1) w
       else sys_io (dbf_create_dir_all fs SYSTEM_PROFILE_BIN) w) (\<lambda>_.
     bindS (link_packages fs (sm_packages manifest) 0) (\<lambda>_. ret ()))"

datatype file_verdict = Verified | Modified | Missing | Unreadable

definition hash_file :: "('w, 'x) sys_fs_scheme \<Rightarrow> path_buf \<Rightarrow> 'w \<Rightarrow> io_kind + string" where
  "hash_file fs path w = map_sum id (sf_hash fs) (sf_read_bytes fs path w)"

definition verify_file :: "('w, 'x) sys_fs_scheme \<Rightarrow> string \<Rightarrow> file_info \<Rightarrow> 'w \<Rightarrow> file_verdict" where
  "verify_file fs path expected w =
     (let full_path = path_join ''/'' path in
      if \<not> dbf_exists fs full_path w then Missing
      else (case hash_file fs full_path w of
        Inr actual_hash \<Rightarrow> if actual_hash = fi_blake3 expected then Verified else Modified
      | Inl _ \<Rightarrow> Unreadable))"

datatype verify_outcome =
    VerifyPanic
  | VerifyFails u32 u32
  | VerifyOk u32

text \<open>
  The report of a modified file prints the first twelve bytes of both hashes and panics if one is shorter; the
  hashes are hexadecimal here, so that a byte is a character. The files of a manifest are sorted by path already.
\<close>

definition verify_system :: "('w, 'x) sys_fs_scheme \<Rightarrow> string option \<Rightarrow> 'w \<Rightarrow> sys_error + verify_outcome" where
  "verify_system fs manifest_path w =
     map_sum id (\<lambda>manifest.
       let verdicts = map (\<lambda>(path, expected). (path, expected, verify_file fs path expected w)) (sm_files manifest);
           n = (\<lambda>v. of_nat (length (filter (\<lambda>(_, _, v'). v' = v) verdicts)))
       in if list_ex (\<lambda>(path, expected, v). v = Modified \<and>
              (length (fi_blake3 expected) < 12
             \<or> (case hash_file fs (path_join ''/'' path) w of Inr h \<Rightarrow> length h < 12 | Inl _ \<Rightarrow> False))) verdicts
          then VerifyPanic
          else if list_ex (\<lambda>(_, _, v). v \<noteq> Verified) verdicts then VerifyFails (n Modified) (n Missing)
          else VerifyOk (n Verified))
       (load_manifest_from fs (case manifest_path of Some p \<Rightarrow> p | None \<Rightarrow> MANIFEST_PATH) w)"

section \<open>Deletion\<close>

datatype generation_selector =
    Ids "u32 list"
  | KeepLast u32
  | OlderThanDays u32
  | Old

definition parse_generation_selector :: "string \<Rightarrow> sys_error + generation_selector" where
  "parse_generation_selector input =
     (let trimmed = trim_ws input in
      if trimmed = ''old'' then Inr Old
      else (case strip_prefix trimmed ''+'' of
        Some n \<Rightarrow>
          (case parse_u32 n of
             None \<Rightarrow> Inl (BadSelector trimmed)
           | Some k \<Rightarrow> if k = 0 then Inl (BadSelector trimmed) else Inr (KeepLast k))
      | None \<Rightarrow>
          (case strip_suffix trimmed ''d'' of
             Some n \<Rightarrow> (case parse_u32 n of None \<Rightarrow> Inl (BadSelector trimmed) | Some k \<Rightarrow> Inr (OlderThanDays k))
           | None \<Rightarrow>
               let ids = map parse_u32 (split_ws [] trimmed) in
               if list_all (\<lambda>i. i \<noteq> None) ids \<and> ids \<noteq> [] then Inr (Ids (map the ids)) else Inl (BadSelector trimmed))))"

record delete_stats =
  ds_generations_deleted :: u32
  ds_roots_removed :: u32
  ds_deleted_ids :: "u32 list"
  ds_protected_ids :: "u32 list"

definition protected_ids :: "u32 \<Rightarrow> u32 option \<Rightarrow> u32 \<Rightarrow> bool" where
  "protected_ids current_id boot_default_id n \<longleftrightarrow> n = current_id \<or> boot_default_id = Some n"

text \<open>A timestamp that makes the parser panic is \<^const>\<open>None\<close>, and so is the choice then.\<close>

fun older_than :: "u64 \<Rightarrow> (u32 \<Rightarrow> bool) \<Rightarrow> generation list \<Rightarrow> u32 list option" where
  "older_than cutoff prot [] = Some []"
| "older_than cutoff prot (g # gens) =
     (if prot (gn_id g) then older_than cutoff prot gens
      else (case parse_timestamp_to_epoch (gi_timestamp (sm_generation (gn_manifest g))) of
        None \<Rightarrow> None
      | Some gen_epoch \<Rightarrow>
          map_option (\<lambda>rest. if gen_epoch < cutoff then gn_id g # rest else rest) (older_than cutoff prot gens)))"

definition to_delete ::
  "u64 option \<Rightarrow> generation_selector \<Rightarrow> (u32 \<Rightarrow> bool) \<Rightarrow> generation list \<Rightarrow> u32 list option" where
  "to_delete clock parsed prot gens =
     (case parsed of
        Ids ids \<Rightarrow> Some (filter (\<lambda>n. \<not> prot n) ids)
      | KeepLast n \<Rightarrow>
          let sorted_ids = sort (map gn_id gens); keep_count = unat n in
          Some (if keep_count < length sorted_ids
                then filter (\<lambda>n. \<not> prot n) (take (length sorted_ids - keep_count) sorted_ids) else [])
      | OlderThanDays days \<Rightarrow>
          let secs = (case clock of Some s \<Rightarrow> s | None \<Rightarrow> 0);
              span = ucast days * 86400;
              cutoff = (if span \<le> secs then secs - span else 0)
          in older_than cutoff prot gens
      | Old \<Rightarrow> Some (filter (\<lambda>n. \<not> prot n) (map gn_id gens)))"

fun delete_each ::
  "('w, 'x) sys_fs_scheme \<Rightarrow> path_buf \<Rightarrow> string \<Rightarrow> bool \<Rightarrow> u32 list \<Rightarrow> delete_stats \<Rightarrow> ('w, delete_stats) sys_io" where
  "delete_each fs gc_roots dir dry_run [] stats = ret stats"
| "delete_each fs gc_roots dir dry_run (n # ns) stats =
     (let gen_path = path_join dir (show_u32 n) in
      bindS (\<lambda>w.
        if dry_run then (Inr stats, w)
        else (case remove_generation_gc_roots fs gc_roots n w of (roots_removed, w1) \<Rightarrow>
          bindS (\<lambda>w. if dbf_exists fs gen_path w then sys_io (gcf_remove_dir_all fs gen_path) w else (Inr (), w))
            (\<lambda>_. ret (stats\<lparr>ds_roots_removed := ds_roots_removed stats + roots_removed\<rparr>)) w1)) (\<lambda>stats.
      delete_each fs gc_roots dir dry_run ns
        (stats\<lparr>ds_generations_deleted := ds_generations_deleted stats + 1,
               ds_deleted_ids := ds_deleted_ids stats @ [n]\<rparr>)))"

text \<open>\<^const>\<open>None\<close> is the panic of the timestamp parser.\<close>

definition delete_generations_with ::
  "('w, 'x) sys_fs_scheme \<Rightarrow> path_buf \<Rightarrow> string \<Rightarrow> bool \<Rightarrow> string option \<Rightarrow> string option \<Rightarrow> string option
   \<Rightarrow> ('w, delete_stats) sys_pio" where
  "delete_generations_with fs gc_roots selector dry_run gen_dir manifest_path boot_default_path =
     (let dir = (case gen_dir of Some d \<Rightarrow> d | None \<Rightarrow> GENERATIONS_DIR);
          mpath = (case manifest_path of Some p \<Rightarrow> p | None \<Rightarrow> MANIFEST_PATH) in
      bindP (look (load_manifest_from fs mpath)) (\<lambda>current.
      bindP (look (read_boot_default fs boot_default_path)) (\<lambda>boot_default_id.
      bindP (look (scan_generations fs dir)) (\<lambda>gens.
      bindP (look (\<lambda>_. parse_generation_selector selector)) (\<lambda>parsed w.
      let prot = protected_ids (gi_id (sm_generation current)) boot_default_id;
          stats = \<lparr>ds_generations_deleted = 0, ds_roots_removed = 0, ds_deleted_ids = [],
                   ds_protected_ids = (case parsed of Ids ids \<Rightarrow> filter prot ids | _ \<Rightarrow> [])\<rparr>
      in (case to_delete (sf_now fs w) parsed prot gens of
            None \<Rightarrow> None
          | Some ns \<Rightarrow> Some (delete_each fs gc_roots dir dry_run ns stats w)))))))"

definition delete_generations ::
  "('w, 'x) sys_fs_scheme \<Rightarrow> string \<Rightarrow> bool \<Rightarrow> string option \<Rightarrow> string option \<Rightarrow> string option
   \<Rightarrow> ('w, delete_stats) sys_pio" where
  "delete_generations fs selector dry_run gen_dir manifest_path boot_default_path =
     bindP (now (sys_io (roots_open fs))) (\<lambda>gc_roots.
     delete_generations_with fs gc_roots selector dry_run gen_dir manifest_path boot_default_path)"

definition system_gc ::
  "('w, 'x) sys_fs_scheme \<Rightarrow> u32 option \<Rightarrow> bool \<Rightarrow> string option \<Rightarrow> string option \<Rightarrow> string option \<Rightarrow> ('w, unit) sys_pio" where
  "system_gc fs keep dry_run gen_dir manifest_path boot_default_path =
     (let selector = (case keep of Some n \<Rightarrow> ''+'' @ show_u32 n | None \<Rightarrow> ''old'') in
      bindP (delete_generations fs selector dry_run gen_dir manifest_path boot_default_path) (\<lambda>stats w.
      map_option (\<lambda>(r, w'). (map_sum SysGc id r, w')) (run_gc fs dry_run w)))"

end
