(* ===== verification/Activation_Safety.thy ===== *)
theory Activation_Safety
  imports Activation
begin

text \<open>
  What an activation promises: configuration files stay inside the root directory, the profile and the boot files are
  replaced as a whole or not at all, and a plan is empty exactly if the manifests agree on what it compares.
\<close>

section \<open>Managed paths\<close>

definition valid_names :: "string list \<Rightarrow> bool" where
  "valid_names ns \<longleftrightarrow> (\<forall>n\<in>set ns. valid_name n)"

lemma managed_parts_canon:
  assumes "valid_names ms" "\<forall>n. Normal n \<in> set cs \<longrightarrow> valid_name n" "managed_parts cs (canon_path False ms) = Some r"
  shows "\<exists>ns. cs = map Normal ns \<and> valid_names ns \<and> r = canon_path False (ms @ ns)"
  using assms
proof (induction cs "canon_path False ms" arbitrary: ms rule: managed_parts.induct)
  case (2 part cs)
  have part: "valid_name part" using 2(3) by simp
  have join: "path_join (canon_path False ms) part = canon_path False (ms @ [part])"
    using push_canon 2(2) part by (simp add: valid_names_def)
  obtain ns where ns: "cs = map Normal ns" "valid_names ns" "r = canon_path False ((ms @ [part]) @ ns)"
    using 2(1)[OF join] 2(2-4) part join by (auto simp: valid_names_def)
  show ?case
    by (rule exI[of _ "part # ns"]) (use ns part in \<open>simp add: valid_names_def\<close>)
qed (auto simp: valid_names_def)

lemma join_canon:
  assumes "valid_names rs" "valid_names ns" "ns \<noteq> []"
  shows "path_join (canon_path True rs) (canon_path False ns) = canon_path True (rs @ ns)"
proof -
  have n: "valid_name (hd ns)" using assms(2,3) by (simp add: valid_names_def)
  then have "hd (hd ns) \<noteq> slash" "hd ns \<noteq> []" using hd_in_set[of "hd ns"] by (metis valid_name_def)+
  then have hd: "hd (join_char slash ns) \<noteq> slash" using join_char_hd[OF assms(3)] by simp
  have join: "xs \<noteq> [] \<Longrightarrow> join_char slash (xs @ ns) = join_char slash xs @ slash # join_char slash ns" for xs
  proof (induction xs)
    case (Cons x xs)
    then show ?case using assms(3) by (cases xs; cases ns) auto
  qed simp
  show ?thesis
    using assms(1) hd join[of rs] join_char_last[of rs]
    by (cases "rs = []") (auto simp: canon_path_def path_join_def valid_names_def)
qed

lemma managed_file_path_canon:
  assumes "valid_names rs" "managed_file_path_at (canon_path True rs) path = Inr p"
  shows "\<exists>ns. ns \<noteq> [] \<and> valid_names ns \<and> components path = map Normal ns \<and> p = canon_path True (rs @ ns)"
proof -
  obtain r where r: "managed_parts (components path) (canon_path False []) = Some r" "r \<noteq> []"
    and p: "p = path_join (canon_path True rs) r"
    using assms(2) by (auto simp: managed_file_path_at_def validate_managed_relative_path_def canon_empty split: option.splits if_splits)
  obtain ns where "components path = map Normal ns" "valid_names ns" "r = canon_path False ns"
    using managed_parts_canon[OF _ _ r(1)] components_Normal_valid by (fastforce simp: valid_names_def)
  moreover have "ns \<noteq> []" using r(2) calculation(3) by (auto simp: canon_empty)
  ultimately show ?thesis using p join_canon assms(1) by metis
qed

lemma mode_bound: "parse_mode_string s = Inr m \<Longrightarrow> m \<le> 0xFFF"
proof -
  assume "parse_mode_string s = Inr m"
  then obtain n :: nat where "n \<le> 0xFFF" "m = of_nat n"
    by (auto simp: parse_mode_string_def Let_def not_less split: if_splits)
  then show ?thesis by (simp add: word_le_nat_alt unat_of_nat)
qed

section \<open>Configuration files stay inside the root\<close>

definition inside :: "string list \<Rightarrow> path_buf \<Rightarrow> bool" where
  "inside rs p \<longleftrightarrow> (\<exists>ns. valid_names ns \<and> p = canon_path True (rs @ ns))"

definition keeps_inside :: "('w, 'x) sys_fs_scheme \<Rightarrow> ('w \<Rightarrow> bool) \<Rightarrow> string list \<Rightarrow> bool" where
  "keeps_inside fs P rs \<longleftrightarrow> (\<forall>p. inside rs p \<longrightarrow>
     keeps P (dbf_create_dir_all fs p) \<and> keeps P (dbf_remove_file fs p)
   \<and> (\<forall>s. keeps P (dbf_write fs p s)) \<and> (\<forall>mode \<le> 0xFFF. keeps P (sf_set_permissions fs p mode)))"

lemma write_through_keeps:
  assumes "keeps_inside fs P rs" "valid_names rs" "valid_names ns" "ns \<noteq> []"
  shows "keeps P (write_through fs (canon_path True (rs @ ns)) s)"
proof -
  let ?p = "canon_path True (rs @ ns)"
  have "valid_names (butlast ns)" using assms(3) by (auto simp: valid_names_def dest: in_set_butlastD)
  then have ins: "inside rs ?p" "inside rs (canon_path True (rs @ butlast ns))" using assms(3) by (auto simp: inside_def)
  have parent: "path_parent ?p = Some (canon_path True (rs @ butlast ns))"
    using parent_canon[of "rs @ ns" True] assms(2-4) by (auto simp: valid_names_def butlast_append)
  have k: "keeps P (dbf_create_dir_all fs (canon_path True (rs @ butlast ns)))" "keeps P (dbf_remove_file fs ?p)"
    "keeps P (dbf_write fs ?p s)"
    using assms(1) ins unfolding keeps_inside_def by blast+
  have "keeps P (\<lambda>w. (if gcf_lexists fs ?p w \<and> sf_is_symlink fs ?p w then dbf_remove_file fs ?p else ret ()) w)"
    by (rule keepsI) (simp add: keeps_snd[OF k(2)] ret_def)
  then show ?thesis unfolding write_through_def parent option.case by (intro keeps_bindS k)
qed

lemma write_inline_keeps:
  assumes "keeps_inside fs P rs" "valid_names rs"
  shows "keeps P (write_inline_config_file_at fs (canon_path True rs) path info)"
proof (cases "managed_file_path_at (canon_path True rs) path")
  case (Inr p)
  then obtain ns where ns: "ns \<noteq> []" "valid_names ns" "p = canon_path True (rs @ ns)"
    using managed_file_path_canon[OF assms(2)] by blast
  have "keeps P (sf_set_permissions fs p mode)" if "parse_mode_string m = Inr mode" for m mode
    using assms(1) ns mode_bound[OF that] unfolding keeps_inside_def inside_def by blast
  then have "keeps P (\<lambda>w1. case parse_mode_string (fi_mode info) of
      Inl e \<Rightarrow> (Inl e, w1) | Inr mode \<Rightarrow> sf_set_permissions fs p mode w1)"
    by (auto intro!: keepsI simp: keeps_snd split: sum.splits)
  then have "keeps P (bindS (write_through fs p (case fi_text info of Some t \<Rightarrow> t | None \<Rightarrow> [])) (\<lambda>_ w1.
      case parse_mode_string (fi_mode info) of Inl e \<Rightarrow> (Inl e, w1) | Inr mode \<Rightarrow> sf_set_permissions fs p mode w1))"
    unfolding ns(3) by (intro keeps_bindS write_through_keeps[OF assms ns(2,1)])
  then show ?thesis using Inr by (simp add: write_inline_config_file_at_def)
qed (simp add: write_inline_config_file_at_def keeps_def)

lemma write_if_inline_keeps:
  assumes "keeps_inside fs P rs" "valid_names rs" "P (snd (snd s))"
    and "write_if_inline fs (canon_path True rs) files path s = Some s'"
  shows "P (snd (snd s'))"
  using assms(3,4) write_inline_keeps[OF assms(1,2), of path]
  by (auto simp: write_if_inline_def split: prod.splits option.splits if_splits sum.splits) (metis keepsD)+

lemma config_steps_keep:
  assumes "keeps_inside fs P rs" "valid_names rs" "P (snd (snd s))"
  shows "P (snd (snd (config_added fs (canon_path True rs) files path s)))"
    and "P (snd (snd (config_removed fs (canon_path True rs) path s)))"
    and "P (snd (snd (config_changed fs (canon_path True rs) files change s)))"
proof -
  have warn: "snd (warn x a) = snd a" for x and a :: "'a act" by (simp add: warn_def split: prod.splits)
  note w = write_if_inline_keeps[OF assms]
  show "P (snd (snd (config_added fs (canon_path True rs) files path s)))"
    using assms(3) by (auto simp: config_added_def warn split: sum.splits option.splits dest: w)
  show "P (snd (snd (config_changed fs (canon_path True rs) files change s)))"
  proof (cases "write_if_inline fs (canon_path True rs) files (cch_path change) s")
    case None
    then show ?thesis using assms(3) by (auto simp: config_changed_def warn split: sum.splits prod.splits)
  next
    case (Some s')
    then show ?thesis using assms(3) w by (auto simp: config_changed_def warn split: sum.splits)
  qed
  show "P (snd (snd (config_removed fs (canon_path True rs) path s)))"
  proof (cases "managed_file_path_at (canon_path True rs) path")
    case (Inr p)
    then obtain ns where "valid_names ns" "p = canon_path True (rs @ ns)"
      using managed_file_path_canon[OF assms(2)] by blast
    then have "keeps P (dbf_remove_file fs p)"
      using assms(1) unfolding keeps_inside_def inside_def by blast
    then show ?thesis
      using Inr assms(3) by (auto simp: config_removed_def split: prod.splits sum.splits dest: keepsD)
  qed (use assms(3) in \<open>simp add: config_removed_def warn\<close>)
qed

lemma fold_keeps: "Q s \<Longrightarrow> (\<And>x s. Q s \<Longrightarrow> Q (f x s)) \<Longrightarrow> Q (fold f xs s)"
  by (induction xs arbitrary: s) auto

section \<open>The profile swap\<close>

text \<open>
  \<open>contents\<close> is what lies at a path, \<open>None\<close> for nothing. The laws concern the four places of a profile: a
  rename that succeeds moves what is at the first path to the second, one that fails changes nothing, and
  the other operations of the swap leave the profile and its old version alone.
\<close>

definition PROFILE_NEW :: string where "PROFILE_NEW = ''/nix/system/profile/bin.new''"
definition PROFILE_OLD :: string where "PROFILE_OLD = ''/nix/system/profile/bin.old''"
definition STAGING_BIN :: string where "STAGING_BIN = path_join STAGING_DIR ''bin''"

definition rename_law :: "('w, 'x) sys_fs_scheme \<Rightarrow> ('w \<Rightarrow> path_buf \<Rightarrow> 'c option) \<Rightarrow> path_buf set \<Rightarrow> path_buf \<Rightarrow> path_buf \<Rightarrow> bool" where
  "rename_law fs contents Q a b \<longleftrightarrow> (\<forall>w. \<forall>q\<in>Q. contents (snd (sf_rename fs a b w)) q =
     (if \<exists>e. fst (sf_rename fs a b w) = Inl e then contents w q
      else if q = b then contents w a else if q = a then None else contents w q))"

definition leaves :: "('w \<Rightarrow> path_buf \<Rightarrow> 'c option) \<Rightarrow> path_buf set \<Rightarrow> ('w, 'e, 'a) eio \<Rightarrow> bool" where
  "leaves contents Q m \<longleftrightarrow> (\<forall>w. \<forall>q\<in>Q. contents (snd (m w)) q = contents w q)"

definition staging_laws :: "('w, 'x) sys_fs_scheme \<Rightarrow> ('w \<Rightarrow> path_buf \<Rightarrow> 'c option) \<Rightarrow> bool" where
  "staging_laws fs contents \<longleftrightarrow>
     (\<forall>p w es name kind. sf_entries fs p w = Inr es \<and> Inr (name, kind) \<in> set es \<longrightarrow> valid_name name)
   \<and> (\<forall>name. valid_name name \<longrightarrow> leaves contents {SYSTEM_PROFILE_BIN} (dbf_remove_file fs (path_join STAGING_BIN name))
      \<and> (\<forall>t. leaves contents {SYSTEM_PROFILE_BIN} (gcf_symlink fs t (path_join STAGING_BIN name))))"

definition swap_laws :: "('w, 'x) sys_fs_scheme \<Rightarrow> ('w \<Rightarrow> path_buf \<Rightarrow> 'c option) \<Rightarrow> bool" where
  "swap_laws fs contents \<longleftrightarrow>
     (\<forall>w. dbf_exists fs SYSTEM_PROFILE_BIN w \<or> gcf_lexists fs SYSTEM_PROFILE_BIN w \<longleftrightarrow> contents w SYSTEM_PROFILE_BIN \<noteq> None)
   \<and> rename_law fs contents {SYSTEM_PROFILE_BIN, PROFILE_NEW, PROFILE_OLD} STAGING_BIN PROFILE_NEW
   \<and> rename_law fs contents {SYSTEM_PROFILE_BIN, PROFILE_NEW, PROFILE_OLD} SYSTEM_PROFILE_BIN PROFILE_OLD
   \<and> rename_law fs contents {SYSTEM_PROFILE_BIN, PROFILE_NEW, PROFILE_OLD} PROFILE_NEW SYSTEM_PROFILE_BIN
   \<and> rename_law fs contents {SYSTEM_PROFILE_BIN, PROFILE_NEW, PROFILE_OLD} PROFILE_OLD SYSTEM_PROFILE_BIN
   \<and> (\<forall>p\<in>{STAGING_BIN, PROFILE_NEW, PROFILE_OLD, STAGING_DIR}.
        leaves contents ({SYSTEM_PROFILE_BIN, PROFILE_OLD} - {p}) (gcf_remove_dir_all fs p)
      \<and> leaves contents ({SYSTEM_PROFILE_BIN, PROFILE_OLD} - {p}) (dbf_remove_file fs p))
   \<and> (\<forall>p. leaves contents {SYSTEM_PROFILE_BIN, PROFILE_NEW, PROFILE_OLD} (dbf_create_dir_all fs p))
   \<and> (\<forall>p mode. leaves contents {SYSTEM_PROFILE_BIN, PROFILE_NEW, PROFILE_OLD} (sf_set_permissions fs p mode))
   \<and> staging_laws fs contents"

lemma leaves_keeps: "leaves contents Q m \<Longrightarrow> q \<in> Q \<Longrightarrow> keeps (\<lambda>w. contents w q = c) m"
  by (simp add: leaves_def keeps_def)

lemma keeps_if: "keeps P m \<Longrightarrow> keeps P m' \<Longrightarrow> keeps P (\<lambda>w. (if c w then m else m') w)"
  by (simp add: keeps_def)

lemma keeps_sys_io: "keeps P m \<Longrightarrow> keeps P (sys_io m)"
  unfolding sys_io_def by (rule keeps_map_err)

lemma link_entries_keeps:
  assumes "\<And>n. valid_name n \<Longrightarrow> keeps P (dbf_remove_file fs (path_join bin_dir n))"
    "\<And>n t. valid_name n \<Longrightarrow> keeps P (gcf_symlink fs t (path_join bin_dir n))"
    and "\<And>n k. Inr (n, k) \<in> set es \<Longrightarrow> valid_name n"
  shows "keeps P (link_entries fs pkg_bin bin_dir es linked)"
  using assms
proof (induction fs pkg_bin bin_dir es linked rule: link_entries.induct)
  case (4 fs pkg_bin bin_dir name is_file es linked)
  have name: "valid_name name" by (rule 4(5)[of name "Inr is_file"]) simp
  have rest: "Inr (n, k) \<in> set es \<Longrightarrow> valid_name n" for n k using 4(5)[of n k] by simp
  show ?case
  proof (cases is_file)
    case True
    have "keeps P (link_entries fs pkg_bin bin_dir es (linked + 1))"
      using 4(2)[OF _ refl refl 4(3,4) rest] True by simp
    then show ?thesis
      using True unfolding link_entries.simps Let_def
      by (simp, intro keeps_bindS keeps_if keeps_sys_io keeps_ret 4(3)[OF name] 4(4)[OF name]) simp
  qed (use 4(1)[OF _ 4(3,4) rest] in simp)
qed (auto intro: keeps_ret keeps_fail)

lemma populate_keeps:
  assumes "\<And>n. valid_name n \<Longrightarrow> keeps P (dbf_remove_file fs (path_join bin_dir n))"
    "\<And>n t. valid_name n \<Longrightarrow> keeps P (gcf_symlink fs t (path_join bin_dir n))"
    and "\<And>p w es n k. sf_entries fs p w = Inr es \<Longrightarrow> Inr (n, k) \<in> set es \<Longrightarrow> valid_name n"
  shows "keeps P (populate_profile_dir fs bin_dir pkgs linked)"
proof (induction pkgs arbitrary: linked)
  case (Cons pkg pkgs)
  let ?bin = "path_join (pk_store_path pkg) ''bin''"
  have "keeps P (bindS (link_entries fs ?bin bin_dir es linked) (populate_profile_dir fs bin_dir pkgs))"
    if "sf_entries fs ?bin w = Inr es" for es w
    by (rule keeps_bindS[OF link_entries_keeps Cons.IH]) (use assms(1,2) assms(3)[OF that] in blast)+
  then show ?case using Cons.IH by (auto simp: keeps_def Let_def split: sum.splits)
qed (simp add: keeps_ret)

lemma cleanup_keeps:
  assumes "leaves contents Q (gcf_remove_dir_all fs p)" "leaves contents Q (dbf_remove_file fs p)" "q \<in> Q"
  shows "contents (cleanup_path fs p w) q = contents w q"
  using assms by (auto simp: cleanup_path_def leaves_def)

definition swap_outcome ::
  "('w, 'x) sys_fs_scheme \<Rightarrow> ('w \<Rightarrow> path_buf \<Rightarrow> 'c option) \<Rightarrow> sys_package list \<Rightarrow> 'w \<Rightarrow> sys_error + u32 \<Rightarrow> 'w \<Rightarrow> bool" where
  "swap_outcome fs contents packages w r w' \<longleftrightarrow>
     (case r of
        Inr n \<Rightarrow> \<exists>w1 w2. populate_profile_dir fs STAGING_BIN packages 0 w1 = (Inr n, w2)
          \<and> contents w' SYSTEM_PROFILE_BIN = contents w2 STAGING_BIN
      | Inl e \<Rightarrow> contents w' SYSTEM_PROFILE_BIN = contents w SYSTEM_PROFILE_BIN
          \<or> contents w' SYSTEM_PROFILE_BIN = None \<and> contents w' PROFILE_OLD = contents w SYSTEM_PROFILE_BIN)"

lemma swap_lawsD:
  assumes "swap_laws fs contents"
  shows "dbf_exists fs SYSTEM_PROFILE_BIN w \<or> gcf_lexists fs SYSTEM_PROFILE_BIN w \<longleftrightarrow> contents w SYSTEM_PROFILE_BIN \<noteq> None"
    and "q \<in> {SYSTEM_PROFILE_BIN, PROFILE_NEW, PROFILE_OLD} \<Longrightarrow>
      (a, b) \<in> {(STAGING_BIN, PROFILE_NEW), (SYSTEM_PROFILE_BIN, PROFILE_OLD), (PROFILE_NEW, SYSTEM_PROFILE_BIN), (PROFILE_OLD, SYSTEM_PROFILE_BIN)} \<Longrightarrow>
      contents (snd (sf_rename fs a b w)) q = (if \<exists>e. fst (sf_rename fs a b w) = Inl e then contents w q
        else if q = b then contents w a else if q = a then None else contents w q)"
    and "p \<in> {STAGING_BIN, PROFILE_NEW, PROFILE_OLD, STAGING_DIR} \<Longrightarrow> q \<in> {SYSTEM_PROFILE_BIN, PROFILE_OLD} - {p} \<Longrightarrow>
      contents (cleanup_path fs p w) q = contents w q"
    and "q \<in> {SYSTEM_PROFILE_BIN, PROFILE_NEW, PROFILE_OLD} \<Longrightarrow> contents (snd (dbf_create_dir_all fs p w)) q = contents w q"
    and "q \<in> {SYSTEM_PROFILE_BIN, PROFILE_NEW, PROFILE_OLD} \<Longrightarrow> contents (snd (sf_set_permissions fs p mode w)) q = contents w q"
    and "contents (snd (populate_profile_dir fs STAGING_BIN packages n w)) SYSTEM_PROFILE_BIN = contents w SYSTEM_PROFILE_BIN"
proof -
  note laws = assms[unfolded swap_laws_def]
  show "dbf_exists fs SYSTEM_PROFILE_BIN w \<or> gcf_lexists fs SYSTEM_PROFILE_BIN w \<longleftrightarrow> contents w SYSTEM_PROFILE_BIN \<noteq> None"
    using laws by blast
  show "contents (snd (sf_rename fs a b w)) q = (if \<exists>e. fst (sf_rename fs a b w) = Inl e then contents w q
        else if q = b then contents w a else if q = a then None else contents w q)"
    if "q \<in> {SYSTEM_PROFILE_BIN, PROFILE_NEW, PROFILE_OLD}"
      "(a, b) \<in> {(STAGING_BIN, PROFILE_NEW), (SYSTEM_PROFILE_BIN, PROFILE_OLD), (PROFILE_NEW, SYSTEM_PROFILE_BIN), (PROFILE_OLD, SYSTEM_PROFILE_BIN)}"
  proof -
    have "rename_law fs contents {SYSTEM_PROFILE_BIN, PROFILE_NEW, PROFILE_OLD} a b" using that(2) laws by blast
    then show ?thesis unfolding rename_law_def using that(1) by blast
  qed
  show "contents (cleanup_path fs p w) q = contents w q"
    if "p \<in> {STAGING_BIN, PROFILE_NEW, PROFILE_OLD, STAGING_DIR}" "q \<in> {SYSTEM_PROFILE_BIN, PROFILE_OLD} - {p}"
    using laws that by (intro cleanup_keeps[of contents "{SYSTEM_PROFILE_BIN, PROFILE_OLD} - {p}"]) blast+
  show "contents (snd (dbf_create_dir_all fs p w)) q = contents w q"
    "contents (snd (sf_set_permissions fs p mode w)) q = contents w q"
    if "q \<in> {SYSTEM_PROFILE_BIN, PROFILE_NEW, PROFILE_OLD}"
    using laws that unfolding leaves_def by blast+
  have "keeps (\<lambda>v. contents v SYSTEM_PROFILE_BIN = contents w SYSTEM_PROFILE_BIN) (populate_profile_dir fs STAGING_BIN packages n)"
  proof (rule populate_keeps)
    have st: "staging_laws fs contents" using laws by blast
    fix p w es t name and kind :: "io_kind + bool"
    show "sf_entries fs p w = Inr es \<Longrightarrow> Inr (name, kind) \<in> set es \<Longrightarrow> valid_name name" using st unfolding staging_laws_def by blast
    assume "valid_name name"
    then show "keeps (\<lambda>v. contents v SYSTEM_PROFILE_BIN = c) (dbf_remove_file fs (path_join STAGING_BIN name))"
      "keeps (\<lambda>v. contents v SYSTEM_PROFILE_BIN = c) (gcf_symlink fs t (path_join STAGING_BIN name))" for c
      using st unfolding staging_laws_def by (auto simp: leaves_def keeps_def)
  qed
  then show "contents (snd (populate_profile_dir fs STAGING_BIN packages n w)) SYSTEM_PROFILE_BIN = contents w SYSTEM_PROFILE_BIN"
    by (simp add: keeps_def)
qed

lemma profile_places: "distinct [SYSTEM_PROFILE_BIN, PROFILE_NEW, PROFILE_OLD, STAGING_BIN, STAGING_DIR]"
  by (simp add: SYSTEM_PROFILE_BIN_def PROFILE_NEW_def PROFILE_OLD_def STAGING_BIN_def STAGING_DIR_def path_join_def)

text \<open>The last two steps of the swap.\<close>

definition set_aside :: "('w, 'x) sys_fs_scheme \<Rightarrow> ('w, bool) sys_io" where
  "set_aside fs = (\<lambda>w.
     if dbf_exists fs SYSTEM_PROFILE_BIN w \<or> gcf_lexists fs SYSTEM_PROFILE_BIN w then
       bindS (attempt (sf_set_permissions fs ''/nix/system/profile'' 0x1ED)) (\<lambda>_.
       bindS (sys_io (sf_rename fs SYSTEM_PROFILE_BIN PROFILE_OLD)) (\<lambda>_. ret True)) w
     else (Inr False, w))"

definition move_in :: "('w, 'x) sys_fs_scheme \<Rightarrow> u32 \<Rightarrow> bool \<Rightarrow> ('w, u32) sys_io" where
  "move_in fs linked had_old =
     bindS (attempt (sf_rename fs PROFILE_NEW SYSTEM_PROFILE_BIN)) (\<lambda>r w.
       case r of
         Inr _ \<Rightarrow>
           (Inr linked, cleanup_path fs STAGING_DIR (if had_old then cleanup_path fs PROFILE_OLD w else w))
       | Inl e \<Rightarrow>
           let w1 = (if had_old then snd (sf_rename fs PROFILE_OLD SYSTEM_PROFILE_BIN w) else w) in
           (Inl (SwapFailed e), cleanup_path fs STAGING_DIR (cleanup_path fs PROFILE_NEW w1)))"

lemma swap_steps:
  "atomic_profile_swap fs packages w0 =
     bindS (sys_io (dbf_create_dir_all fs STAGING_BIN)) (\<lambda>_.
     bindS (populate_profile_dir fs STAGING_BIN packages 0) (\<lambda>linked.
     bindS (sys_io (sf_rename fs STAGING_BIN PROFILE_NEW)) (\<lambda>_.
     bindS (sys_io (dbf_create_dir_all fs ''/nix/system/profile'')) (\<lambda>_.
     bindS (set_aside fs) (move_in fs linked)))))
       (cleanup_path fs PROFILE_OLD (cleanup_path fs PROFILE_NEW (cleanup_path fs STAGING_BIN w0)))"
  unfolding atomic_profile_swap_def set_aside_def move_in_def Let_def PROFILE_NEW_def PROFILE_OLD_def STAGING_BIN_def ..

lemma bindS_sys_io: "bindS (sys_io m) f w = (case m w of (Inl e, w') \<Rightarrow> (Inl (SysIo e), w') | (Inr x, w') \<Rightarrow> f x w')"
  by (auto simp: bindS_def sys_io_def map_err_def split: prod.splits sum.splits)

lemma set_aside_contents:
  assumes "swap_laws fs contents" "set_aside fs w = (r, w')"
  shows "case r of
      Inl e \<Rightarrow> contents w' SYSTEM_PROFILE_BIN = contents w SYSTEM_PROFILE_BIN
    | Inr had_old \<Rightarrow> contents w' SYSTEM_PROFILE_BIN = None \<and> contents w' PROFILE_NEW = contents w PROFILE_NEW
        \<and> (if had_old then contents w' PROFILE_OLD else None) = contents w SYSTEM_PROFILE_BIN"
proof (cases "contents w SYSTEM_PROFILE_BIN = None")
  case True
  then have "\<not> (dbf_exists fs SYSTEM_PROFILE_BIN w \<or> gcf_lexists fs SYSTEM_PROFILE_BIN w)"
    using swap_lawsD(1)[OF assms(1)] by blast
  then show ?thesis using assms(2) True by (auto simp: set_aside_def)
next
  case False
  then have ex: "dbf_exists fs SYSTEM_PROFILE_BIN w \<or> gcf_lexists fs SYSTEM_PROFILE_BIN w"
    using swap_lawsD(1)[OF assms(1)] by blast
  obtain x1 w1 where x1: "sf_set_permissions fs ''/nix/system/profile'' 0x1ED w = (x1, w1)" by fastforce
  obtain x2 w2 where x2: "sf_rename fs SYSTEM_PROFILE_BIN PROFILE_OLD w1 = (x2, w2)" by fastforce
  have c1: "contents w1 SYSTEM_PROFILE_BIN = contents w SYSTEM_PROFILE_BIN" "contents w1 PROFILE_NEW = contents w PROFILE_NEW"
    using swap_lawsD(5)[OF assms(1), of _ "''/nix/system/profile''" "0x1ED" w] by (simp_all add: x1)
  note move = swap_lawsD(2)[OF assms(1), of _ SYSTEM_PROFILE_BIN PROFILE_OLD w1, simplified x2 fst_conv snd_conv]
  have "\<exists>e. x2 = Inl e \<Longrightarrow> contents w2 SYSTEM_PROFILE_BIN = contents w SYSTEM_PROFILE_BIN"
    using move[of SYSTEM_PROFILE_BIN] c1 by simp
  moreover have "\<nexists>e. x2 = Inl e \<Longrightarrow> contents w2 SYSTEM_PROFILE_BIN = None \<and> contents w2 PROFILE_NEW = contents w PROFILE_NEW
      \<and> contents w2 PROFILE_OLD = contents w SYSTEM_PROFILE_BIN"
    using move[of SYSTEM_PROFILE_BIN] move[of PROFILE_NEW] move[of PROFILE_OLD] c1 profile_places by (simp add: eq_commute[of PROFILE_NEW])
  moreover have "r = map_sum SysIo (\<lambda>_. True) x2" "w' = w2"
    using assms(2) ex x2 unfolding set_aside_def by (cases x2; auto simp: bindS_attempt x1 bindS_sys_io ret_def)+
  ultimately show ?thesis by (cases x2) simp_all
qed

lemma move_in_contents:
  assumes laws: "swap_laws fs contents" and gone: "contents w SYSTEM_PROFILE_BIN = None"
    and run: "move_in fs linked had_old w = (r, w')"
  shows "case r of
      Inr n \<Rightarrow> n = linked \<and> contents w' SYSTEM_PROFILE_BIN = contents w PROFILE_NEW
    | Inl e \<Rightarrow> contents w' SYSTEM_PROFILE_BIN = (if had_old then contents w PROFILE_OLD else None)
        \<or> contents w' SYSTEM_PROFILE_BIN = None \<and> contents w' PROFILE_OLD = contents w PROFILE_OLD"
proof -
  note laws = swap_lawsD[OF laws] and d = profile_places
  obtain x w1 where x: "sf_rename fs PROFILE_NEW SYSTEM_PROFILE_BIN w = (x, w1)" by fastforce
  have c1: "contents w1 q = (if \<exists>e. x = Inl e then contents w q else if q = SYSTEM_PROFILE_BIN then contents w PROFILE_NEW
      else if q = PROFILE_NEW then None else contents w q)" if "q \<in> {SYSTEM_PROFILE_BIN, PROFILE_NEW, PROFILE_OLD}" for q
    using laws(2)[OF that, of PROFILE_NEW SYSTEM_PROFILE_BIN w] by (simp add: x)
  show ?thesis
  proof (cases x)
    case (Inr u)
    then have "contents w1 SYSTEM_PROFILE_BIN = contents w PROFILE_NEW" using c1 by simp
    moreover have "r = Inr linked" "w' = cleanup_path fs STAGING_DIR (if had_old then cleanup_path fs PROFILE_OLD w1 else w1)"
      using run x Inr by (auto simp: move_in_def bindS_attempt)
    ultimately show ?thesis using laws(3) d by simp
  next
    case (Inl e)
    let ?w2 = "if had_old then snd (sf_rename fs PROFILE_OLD SYSTEM_PROFILE_BIN w1) else w1"
    have r: "r = Inl (SwapFailed e)" and w': "w' = cleanup_path fs STAGING_DIR (cleanup_path fs PROFILE_NEW ?w2)"
      using run x Inl by (auto simp: move_in_def bindS_attempt Let_def)
    have "contents w' q = contents ?w2 q" if "q \<in> {SYSTEM_PROFILE_BIN, PROFILE_OLD}" for q
      using laws(3) d that unfolding w' by fastforce
    moreover have "contents w1 SYSTEM_PROFILE_BIN = None" "contents w1 PROFILE_OLD = contents w PROFILE_OLD"
      using c1 Inl gone by auto
    moreover have "contents ?w2 SYSTEM_PROFILE_BIN = contents w1 PROFILE_OLD
        \<or> contents ?w2 SYSTEM_PROFILE_BIN = contents w1 SYSTEM_PROFILE_BIN \<and> contents ?w2 PROFILE_OLD = contents w1 PROFILE_OLD" if had_old
      using that laws(2)[of SYSTEM_PROFILE_BIN PROFILE_OLD SYSTEM_PROFILE_BIN w1]
        laws(2)[of PROFILE_OLD PROFILE_OLD SYSTEM_PROFILE_BIN w1] by auto
    ultimately show ?thesis unfolding r by auto
  qed
qed

lemma staged_contents:
  assumes laws: "swap_laws fs contents" and gone: "contents v SYSTEM_PROFILE_BIN = contents w SYSTEM_PROFILE_BIN"
    and staged: "populate_profile_dir fs STAGING_BIN packages 0 w1 = (Inr linked, w2)"
    and new: "contents v PROFILE_NEW = contents w2 STAGING_BIN"
    and run: "bindS (set_aside fs) (move_in fs linked) v = (r, w')"
  shows "swap_outcome fs contents packages w r w'"
proof -
  obtain x v1 where x: "set_aside fs v = (x, v1)" by fastforce
  show ?thesis
  proof (cases x)
    case (Inl e)
    then show ?thesis using set_aside_contents[OF laws x] run gone x by (auto simp: bindS_def swap_outcome_def)
  next
    case (Inr had_old)
    then have v1: "contents v1 SYSTEM_PROFILE_BIN = None" "contents v1 PROFILE_NEW = contents w2 STAGING_BIN"
      "(if had_old then contents v1 PROFILE_OLD else None) = contents w SYSTEM_PROFILE_BIN"
      using set_aside_contents[OF laws x] new gone by auto
    have "move_in fs linked had_old v1 = (r, w')" using run x Inr by (simp add: bindS_def)
    from move_in_contents[OF laws v1(1) this] v1(2,3) staged show ?thesis
      by (auto simp: swap_outcome_def split: sum.splits if_splits)
  qed
qed

lemma swap_contents:
  assumes laws: "swap_laws fs contents" and run: "atomic_profile_swap fs packages w = (r, w')"
  shows "swap_outcome fs contents packages w r w'"
proof -
  note l = swap_lawsD[OF laws] and d = profile_places
  define w0 where "w0 = cleanup_path fs PROFILE_OLD (cleanup_path fs PROFILE_NEW (cleanup_path fs STAGING_BIN w))"
  obtain x1 w1 where x1: "dbf_create_dir_all fs STAGING_BIN w0 = (x1, w1)" by fastforce
  obtain x2 w2 where x2: "populate_profile_dir fs STAGING_BIN packages 0 w1 = (x2, w2)" by fastforce
  obtain x3 w3 where x3: "sf_rename fs STAGING_BIN PROFILE_NEW w2 = (x3, w3)" by fastforce
  obtain x4 w4 where x4: "dbf_create_dir_all fs ''/nix/system/profile'' w3 = (x4, w4)" by fastforce
  have "contents w0 SYSTEM_PROFILE_BIN = contents w SYSTEM_PROFILE_BIN" using l(3) d by (simp add: w0_def)
  then have b1: "contents w1 SYSTEM_PROFILE_BIN = contents w SYSTEM_PROFILE_BIN"
    using l(4)[of SYSTEM_PROFILE_BIN STAGING_BIN w0] by (simp add: x1)
  then have b2: "contents w2 SYSTEM_PROFILE_BIN = contents w SYSTEM_PROFILE_BIN" using l(6)[of packages 0 w1] by (simp add: x2)
  then have b3: "contents w3 SYSTEM_PROFILE_BIN = contents w SYSTEM_PROFILE_BIN"
    using l(2)[of SYSTEM_PROFILE_BIN STAGING_BIN PROFILE_NEW w2] d by (simp add: x3)
  then have b4: "contents w4 SYSTEM_PROFILE_BIN = contents w SYSTEM_PROFILE_BIN"
    using l(4)[of SYSTEM_PROFILE_BIN "''/nix/system/profile''" w3] by (simp add: x4)
  note eqs = run[unfolded swap_steps w0_def[symmetric] bindS_sys_io x1] x2 x3 x4
  show ?thesis
  proof (cases "isl x1 \<or> isl x2 \<or> isl x3 \<or> isl x4")
    case True
    then have "(\<exists>e. r = Inl e) \<and> w' \<in> {w1, w2, w3, w4}"
      using eqs by (cases x1; cases x2; cases x3; cases x4) (auto simp: bindS_sys_io bindS_def[of "populate_profile_dir fs STAGING_BIN packages 0"])
    then show ?thesis using b1 b2 b3 b4 by (auto simp: swap_outcome_def)
  next
    case False
    then obtain u1 n u3 u4 where ok: "x1 = Inr u1" "x2 = Inr n" "x3 = Inr u3" "x4 = Inr u4"
      by (cases x1; cases x2; cases x3; cases x4) auto
    have "contents w4 PROFILE_NEW = contents w2 STAGING_BIN"
      using l(4)[of PROFILE_NEW "''/nix/system/profile''" w3] l(2)[of PROFILE_NEW STAGING_BIN PROFILE_NEW w2] ok by (simp add: x3 x4)
    moreover have "bindS (set_aside fs) (move_in fs n) w4 = (r, w')"
      using eqs ok by (simp add: bindS_sys_io bindS_def[of "populate_profile_dir fs STAGING_BIN packages 0"])
    ultimately show ?thesis using staged_contents[OF laws b4 x2[unfolded ok]] by blast
  qed
qed

section \<open>Boot files\<close>

text \<open>
  For a boot file: the copy to the temporary name and the creation of the directory leave the file itself alone, a
  copy that succeeds makes the temporary file equal to the source, and the rename moves it.
\<close>

definition boot_laws :: "('w, 'x) sys_fs_scheme \<Rightarrow> ('w \<Rightarrow> path_buf \<Rightarrow> 'c option) \<Rightarrow> path_buf \<Rightarrow> path_buf \<Rightarrow> bool" where
  "boot_laws fs contents src dst \<longleftrightarrow>
     (\<forall>p. leaves contents {src, dst} (dbf_create_dir_all fs p))
   \<and> leaves contents {dst} (sf_copy fs src (dst @ ''.tmp''))
   \<and> (\<forall>w w'. sf_copy fs src (dst @ ''.tmp'') w = (Inr (), w') \<longrightarrow> contents w' (dst @ ''.tmp'') = contents w src)
   \<and> rename_law fs contents {dst} (dst @ ''.tmp'') dst"

lemma copy_boot_contents:
  assumes "boot_laws fs contents src dst" "copy_boot_file fs src dst w = (r, w')"
  shows "contents w' dst = (if r = Inr () then contents w src else contents w dst)"
proof (cases "dbf_exists fs src w")
  case True
  let ?mk = "case path_parent dst of Some parent \<Rightarrow> sys_io (dbf_create_dir_all fs parent) | None \<Rightarrow> ret ()"
  obtain x1 w1 where x1: "?mk w = (x1, w1)" by fastforce
  obtain x2 w2 where x2: "sf_copy fs src (dst @ ''.tmp'') w1 = (x2, w2)" by fastforce
  obtain x3 w3 where x3: "sf_rename fs (dst @ ''.tmp'') dst w2 = (x3, w3)" by fastforce
  have "contents w1 q = contents w q" if "q \<in> {src, dst}" for q
  proof -
    have "keeps (\<lambda>v. contents v q = contents w q) ?mk"
      using assms(1) that unfolding boot_laws_def
      by (cases "path_parent dst") (auto intro!: keeps_ret keeps_sys_io leaves_keeps[of contents "{src, dst}"])
    from keeps_snd[OF this refl] show ?thesis by (simp add: x1)
  qed
  moreover have "contents w2 dst = contents w1 dst" using assms(1) x2 unfolding boot_laws_def leaves_def by (metis insertI1 snd_conv)
  moreover have "x2 = Inr () \<Longrightarrow> contents w2 (dst @ ''.tmp'') = contents w1 src" using assms(1) x2 unfolding boot_laws_def by blast
  moreover have "contents w3 dst = (if \<exists>e. x3 = Inl e then contents w2 dst else contents w2 (dst @ ''.tmp''))"
    using assms(1) x3 unfolding boot_laws_def rename_law_def by (metis fst_conv snd_conv insertI1)
  moreover have "(r, w') = (case x1 of Inl e \<Rightarrow> (Inl e, w1) | Inr _ \<Rightarrow>
      (case x2 of Inl e \<Rightarrow> (Inl (SysIo e), w2) | Inr _ \<Rightarrow> (map_sum SysIo id x3, w3)))"
    using assms(2) True x1 x2 x3
    by (auto simp: copy_boot_file_def Let_def bindS_def sys_io_def map_err_def split: sum.splits prod.splits)
  ultimately show ?thesis by (cases x3) (auto split: sum.splits)
qed (use assms(2) in \<open>auto simp: copy_boot_file_def\<close>)

section \<open>Plans\<close>

lemma packages_by_name_get: "bt_get (packages_by_name ps) n = find (\<lambda>p. pk_name p = n) (rev ps)"
  and packages_by_name_inv: "bt_inv (packages_by_name ps)"
proof -
  have inv: "bt_inv (fold (\<lambda>p. bt_insert (pk_name p) p) ps m)" if "bt_inv m" for m and ps :: "sys_package list"
    using btd.inv_fold[OF that, of pk_name "\<lambda>p. p"] by simp
  show "bt_inv (packages_by_name ps)" unfolding packages_by_name_def by (rule inv) simp
  show "bt_get (packages_by_name ps) n = find (\<lambda>p. pk_name p = n) (rev ps)"
    unfolding packages_by_name_def
  proof (induction ps rule: rev_induct)
    case (snoc p ps)
    have "bt_inv (fold (\<lambda>p. bt_insert (pk_name p) p) ps [])" by (rule inv) simp
    then show ?case using snoc by (simp add: bt_simps)
  qed (simp add: bt_simps)
qed

lemma bt_ball: "bt_inv m \<Longrightarrow> (\<forall>x\<in>set m. P x) \<longleftrightarrow> (\<forall>k v. bt_get m k = Some v \<longrightarrow> P (k, v))"
  by (auto simp: bt_get_Some_iff)

text \<open>Nothing was added, removed or changed if every key has the same view in both maps.\<close>

lemma diff_empty:
  assumes "bt_inv old" "bt_inv new"
  shows "filter (\<lambda>(k, _). bt_get old k = None) new = [] \<and> filter (\<lambda>k. bt_get new k = None) (bt_keys old) = []
      \<and> filter (\<lambda>(k, v). case bt_get old k of None \<Rightarrow> False | Some u \<Rightarrow> view u \<noteq> view v) new = []
    \<longleftrightarrow> (\<forall>k. map_option view (bt_get old k) = map_option view (bt_get new k))"
proof -
  have dom: "(\<forall>k\<in>set (bt_keys old). P k) \<longleftrightarrow> (\<forall>k. bt_get old k \<noteq> None \<longrightarrow> P k)" for P by (auto simp: bt_keys_dom)
  have e: "filter (\<lambda>(k, _). bt_get old k = None) new = [] \<longleftrightarrow> (\<forall>k v. bt_get new k = Some v \<longrightarrow> bt_get old k \<noteq> None)"
    "filter (\<lambda>(k, v). case bt_get old k of None \<Rightarrow> False | Some u \<Rightarrow> view u \<noteq> view v) new = []
      \<longleftrightarrow> (\<forall>k u v. bt_get new k = Some v \<and> bt_get old k = Some u \<longrightarrow> view u = view v)"
    "filter (\<lambda>k. bt_get new k = None) (bt_keys old) = [] \<longleftrightarrow> (\<forall>k. bt_get old k \<noteq> None \<longrightarrow> bt_get new k \<noteq> None)"
    unfolding filter_empty_conv bt_ball[OF assms(2)] dom by (auto split: option.splits)
  have key: "map_option view a = map_option view b \<longleftrightarrow> (\<forall>v. b = Some v \<longrightarrow> a \<noteq> None) \<and> (a \<noteq> None \<longrightarrow> b \<noteq> None)
      \<and> (\<forall>u v. b = Some v \<and> a = Some u \<longrightarrow> view u = view v)" for a b
    by (cases a; cases b) auto
  show ?thesis unfolding e key all_conj_distrib ..
qed

definition package_view :: "sys_package \<Rightarrow> string \<times> string" where
  "package_view p = (pk_version p, pk_store_path p)"

definition user_view :: "sys_user \<Rightarrow> (u32 \<times> u32) \<times> string \<times> string" where
  "user_view u = ((us_uid u, us_gid u), us_home u, us_shell u)"

lemma diffs_empty:
  "bt_inv old_p \<Longrightarrow> bt_inv new_p \<Longrightarrow> diff_packages old_p new_p = ([], [], [])
    \<longleftrightarrow> (\<forall>k. map_option package_view (bt_get old_p k) = map_option package_view (bt_get new_p k))"
  "bt_inv old_f \<Longrightarrow> bt_inv new_f \<Longrightarrow> diff_config_files old_f new_f = ([], [], [])
    \<longleftrightarrow> (\<forall>k. map_option fi_blake3 (bt_get old_f k) = map_option fi_blake3 (bt_get new_f k))"
  "bt_inv old_s \<Longrightarrow> bt_inv new_s \<Longrightarrow> diff_declared_services old_s new_s = ([], [], [])
    \<longleftrightarrow> (\<forall>k. map_option id (bt_get old_s k) = map_option id (bt_get new_s k))"
  "bt_inv old_u \<Longrightarrow> bt_inv new_u \<Longrightarrow> diff_users old_u new_u = ([], [], [])
    \<longleftrightarrow> (\<forall>k. map_option user_view (bt_get old_u k) = map_option user_view (bt_get new_u k))"
proof -
  have cat: "concat (map (\<lambda>(k, v). case bt_get m k of None \<Rightarrow> [] | Some u \<Rightarrow> if c u v then [f k u v] else []) xs) = []
      \<longleftrightarrow> filter (\<lambda>(k, v). case bt_get m k of None \<Rightarrow> False | Some u \<Rightarrow> c u v) xs = []" for m c f xs
    by (induction xs) (auto split: option.splits)
  have srv: "filter (\<lambda>(k, _). bt_get m k = None) xs = [] \<longleftrightarrow> filter (\<lambda>k. bt_get m k = None) (bt_keys xs) = []" for m xs
    by (auto simp: filter_empty_conv bt_keys_def)
  have views: "package_view p \<noteq> package_view p' \<longleftrightarrow> pk_version p \<noteq> pk_version p' \<or> pk_store_path p \<noteq> pk_store_path p'"
    "user_view u \<noteq> user_view u' \<longleftrightarrow> us_uid u \<noteq> us_uid u' \<or> us_gid u \<noteq> us_gid u' \<or> us_home u \<noteq> us_home u' \<or> us_shell u \<noteq> us_shell u'"
    for p p' u u' by (auto simp: package_view_def user_view_def)
  show "bt_inv old_p \<Longrightarrow> bt_inv new_p \<Longrightarrow> diff_packages old_p new_p = ([], [], [])
    \<longleftrightarrow> (\<forall>k. map_option package_view (bt_get old_p k) = map_option package_view (bt_get new_p k))"
    unfolding diff_empty[symmetric] views by (simp add: diff_packages_def cat del: concat_eq_Nil_conv)
  show "bt_inv old_f \<Longrightarrow> bt_inv new_f \<Longrightarrow> diff_config_files old_f new_f = ([], [], [])
    \<longleftrightarrow> (\<forall>k. map_option fi_blake3 (bt_get old_f k) = map_option fi_blake3 (bt_get new_f k))"
    unfolding diff_empty[symmetric] views by (simp add: diff_config_files_def cat del: concat_eq_Nil_conv)
  show "bt_inv old_s \<Longrightarrow> bt_inv new_s \<Longrightarrow> diff_declared_services old_s new_s = ([], [], [])
    \<longleftrightarrow> (\<forall>k. map_option id (bt_get old_s k) = map_option id (bt_get new_s k))"
    unfolding diff_empty[symmetric] id_apply by (simp add: diff_declared_services_def srv[of new_s old_s])
  show "bt_inv old_u \<Longrightarrow> bt_inv new_u \<Longrightarrow> diff_users old_u new_u = ([], [], [])
    \<longleftrightarrow> (\<forall>k. map_option user_view (bt_get old_u k) = map_option user_view (bt_get new_u k))"
    unfolding diff_empty[symmetric] views by (simp add: diff_users_def)
qed

definition manifest_wf :: "sys_manifest \<Rightarrow> bool" where
  "manifest_wf m \<longleftrightarrow> bt_inv (sm_files m) \<and> bt_inv (ss_declared (sm_services m)) \<and> bt_inv (sm_users m)"

text \<open>What a plan compares: of two packages of the same name the last one counts.\<close>

definition same_system :: "sys_manifest \<Rightarrow> sys_manifest \<Rightarrow> bool" where
  "same_system old new \<longleftrightarrow>
     (\<forall>n. map_option package_view (find (\<lambda>p. pk_name p = n) (rev (sm_packages old)))
        = map_option package_view (find (\<lambda>p. pk_name p = n) (rev (sm_packages new))))
   \<and> (\<forall>path. map_option fi_blake3 (bt_get (sm_files old) path) = map_option fi_blake3 (bt_get (sm_files new) path))
   \<and> (\<forall>name. bt_get (ss_declared (sm_services old)) name = bt_get (ss_declared (sm_services new)) name)
   \<and> (\<forall>name. map_option user_view (bt_get (sm_users old) name) = map_option user_view (bt_get (sm_users new) name))"

section \<open>Properties\<close>

text \<open>
  C12: updating configuration files touches nothing outside the root directory, whatever paths, modes and contents the
  manifests hold: every directory it creates, file it writes or removes and mode it sets (at most 07777) is at a
  path below the root without \<^verbatim>\<open>.\<close> or \<^verbatim>\<open>..\<close>, so what such operations preserve is preserved.
\<close>

theorem config_files_confined:
  assumes "valid_names rs" "keeps_inside fs P rs" "P w"
  shows "P (snd (snd (update_config_files_at fs (canon_path True rs) added removed changed files (ws, w))))"
  unfolding update_config_files_at_def
  by (intro fold_keeps[where Q = "\<lambda>s. P (snd (snd s))"] config_steps_keep[OF assms(2,1)]) (simp add: assms(3))

theorem config_files_confined_witness:
  "snd (snd (snd (update_config_files_at (mem_sys []) ''/mnt'' [''../etc/passwd'', ''etc/passwd''] [''/etc/passwd''] []
      [(''../etc/passwd'', \<lparr>fi_blake3 = [], fi_size = 0, fi_mode = ''0644'', fi_text = Some ''x''\<rparr>),
       (''etc/passwd'', \<lparr>fi_blake3 = [], fi_size = 0, fi_mode = ''0644'', fi_text = Some ''x''\<rparr>)]
      ([], [], [''/etc/passwd'' \<mapsto> ''root''])))) ''/etc/passwd'' = Some ''root''"
proof -
  let ?P = "\<lambda>w :: mem. snd w ''/etc/passwd'' = Some ''root''"
  have p: "p \<noteq> ''/etc/passwd''" if ins: "inside [''mnt''] p" for p
  proof -
    obtain ns where "p = canon_path True (''mnt'' # ns)"
      using ins unfolding inside_def append_Cons append_Nil by blast
    then show ?thesis by (cases ns) (auto simp: canon_path_def)
  qed
  have keep: "keeps_inside (mem_sys []) ?P [''mnt'']"
    unfolding keeps_inside_def keeps_def using p
    by (auto simp: mem_sys_def mem_remove_def ret_def split: option.splits)
  have mnt: "canon_path True [''mnt''] = ''/mnt''" by (simp add: canon_path_def)
  have "valid_names [''mnt'']" by (simp add: valid_names_def valid_name_def)
  from config_files_confined[OF this keep] show ?thesis unfolding mnt by simp
qed


definition stuck_sys :: "mem sys_fs" where
  "stuck_sys = (mem_sys [])\<lparr>sf_rename := (\<lambda>a b w.
     if a = PROFILE_NEW then (Inl PermissionDenied, w) else (Inr (), (fst w, (snd w)(a := None, b := snd w a))))\<rparr>"

lemma link_name_other: "\<not> prefix (ROOTS @ ''/'') p \<Longrightarrow> link_name p = None"
  by (simp add: link_name_def strip_prefix_def)

lemma profile_links:
  "link_name SYSTEM_PROFILE_BIN = None" "link_name PROFILE_NEW = None" "link_name PROFILE_OLD = None"
  "link_name STAGING_BIN = None" "link_name STAGING_DIR = None"
  by (simp_all add: link_name_other SYSTEM_PROFILE_BIN_def PROFILE_NEW_def PROFILE_OLD_def STAGING_BIN_def STAGING_DIR_def
      path_join_def ROOTS_def)

lemma staging_names:
  assumes "valid_name n"
  shows "link_name (path_join STAGING_BIN n) = None" "path_join STAGING_BIN n \<noteq> SYSTEM_PROFILE_BIN"
proof -
  have "n \<noteq> []" "hd n \<noteq> slash" using assms hd_in_set[of n] by (metis valid_name_def)+
  then show "link_name (path_join STAGING_BIN n) = None" "path_join STAGING_BIN n \<noteq> SYSTEM_PROFILE_BIN"
    by (simp_all add: link_name_other STAGING_BIN_def STAGING_DIR_def SYSTEM_PROFILE_BIN_def path_join_def ROOTS_def)
qed

lemma stuck_swap_laws: "swap_laws stuck_sys snd"
proof -
  have d: "SYSTEM_PROFILE_BIN \<noteq> PROFILE_NEW" "SYSTEM_PROFILE_BIN \<noteq> PROFILE_OLD" "PROFILE_NEW \<noteq> PROFILE_OLD"
    "STAGING_BIN \<notin> {SYSTEM_PROFILE_BIN, PROFILE_NEW, PROFILE_OLD}"
    using profile_places by auto
  have "rename_law stuck_sys snd {SYSTEM_PROFILE_BIN, PROFILE_NEW, PROFILE_OLD} a b" if "a \<noteq> b" for a b
    using that by (auto simp: rename_law_def stuck_sys_def)
  moreover have "leaves snd (Q - {p}) (gcf_remove_dir_all stuck_sys p) \<and> leaves snd (Q - {p}) (dbf_remove_file stuck_sys p)" for p Q
    by (auto simp: leaves_def stuck_sys_def mem_sys_def mem_remove_def split: option.splits)
  moreover have "leaves snd Q (dbf_create_dir_all stuck_sys p)" "leaves snd Q (sf_set_permissions stuck_sys p mode)" for p Q mode
    by (auto simp: leaves_def stuck_sys_def mem_sys_def ret_def)
  moreover have "staging_laws stuck_sys snd"
    using staging_names staging_names(2)[symmetric] by (auto simp: staging_laws_def leaves_def stuck_sys_def mem_sys_def mem_remove_def)
  moreover have "dbf_exists stuck_sys SYSTEM_PROFILE_BIN w \<or> gcf_lexists stuck_sys SYSTEM_PROFILE_BIN w \<longleftrightarrow> snd w SYSTEM_PROFILE_BIN \<noteq> None" for w
    by (simp add: stuck_sys_def mem_sys_def mem_exists_def profile_links)
  ultimately show ?thesis unfolding swap_laws_def using d by auto
qed


text \<open>
  A boot file is replaced as a whole: after a copy that succeeds the destination has the contents of the source,
  after one that fails, at whichever step, it has its old contents.
\<close>

theorem boot_file_all_or_nothing:
  assumes "boot_laws fs contents src dst" "copy_boot_file fs src dst w = (r, w')"
  shows "contents w' dst = (if r = Inr () then contents w src else contents w dst)"
  by (rule copy_boot_contents[OF assms])

theorem boot_file_all_or_nothing_witness:
  "\<exists>r w'. copy_boot_file (mem_sys []) ''/nix/store/k'' ''/usr/lib/boot/kernel'' ([], [''/nix/store/k'' \<mapsto> ''new'']) = (r, w')
    \<and> snd w' ''/usr/lib/boot/kernel'' = (if r = Inr () then Some ''new'' else None)"
proof -
  let ?w = "([], [''/nix/store/k'' \<mapsto> ''new'']) :: mem"
  obtain r w' where run: "copy_boot_file (mem_sys []) ''/nix/store/k'' ''/usr/lib/boot/kernel'' ?w = (r, w')"
    by (cases "copy_boot_file (mem_sys []) ''/nix/store/k'' ''/usr/lib/boot/kernel'' ?w")
  have "boot_laws (mem_sys []) snd ''/nix/store/k'' ''/usr/lib/boot/kernel''"
    by (auto simp: boot_laws_def leaves_def rename_law_def mem_sys_def ret_def)
  from boot_file_all_or_nothing[OF this run] run show ?thesis by (auto split: if_splits)
qed

text \<open>
  C30: an activation plan is empty exactly if the two manifests agree on the version and store path of every package
  name, the hash of every file, every declared service and the ids, home and shell of every user, and no activation
  script is to be run.
\<close>

theorem plan_empty_iff_same:
  assumes "manifest_wf old" "manifest_wf new"
  shows "plan_is_empty (plan fs old new w) \<longleftrightarrow>
    same_system old new \<and> (case topo_sort (sm_activation_scripts new) of Some (Inr order) \<Rightarrow> order = [] | _ \<Rightarrow> True)"
proof -
  let ?scripts = "case topo_sort (sm_activation_scripts new) of Some (Inr order) \<Rightarrow> order | _ \<Rightarrow> []"
  have "plan_is_empty (plan fs old new w) \<longleftrightarrow>
      diff_packages (packages_by_name (sm_packages old)) (packages_by_name (sm_packages new)) = ([], [], [])
    \<and> diff_config_files (sm_files old) (sm_files new) = ([], [], [])
    \<and> diff_declared_services (ss_declared (sm_services old)) (ss_declared (sm_services new)) = ([], [], [])
    \<and> diff_users (sm_users old) (sm_users new) = ([], [], []) \<and> ?scripts = []"
    by (auto simp: plan_def plan_is_empty_def split: prod.splits)
  also have "?scripts = [] \<longleftrightarrow> (case topo_sort (sm_activation_scripts new) of Some (Inr order) \<Rightarrow> order = [] | _ \<Rightarrow> True)"
    by (auto split: option.splits sum.splits)
  finally show ?thesis
    using assms by (simp add: manifest_wf_def diffs_empty packages_by_name_inv packages_by_name_get same_system_def option.map_id)
qed

theorem plan_empty_iff_same_witness:
  "plan_is_empty (plan (mem_sys []) (mem_manifest 1) (mem_manifest 1) ([], Map.empty))
    \<and> \<not> plan_is_empty (plan (mem_sys []) (mem_manifest 1) (mem_manifest 2) ([], Map.empty))"
proof -
  have wf: "manifest_wf (mem_manifest n)" and scripts: "topo_sort (sm_activation_scripts (mem_manifest n)) = Some (Inr [])" for n
    by (simp add: manifest_wf_def mem_manifest_def empty_system_def) (simp add: mem_manifest_def empty_system_def, code_simp)
  have "same_system (mem_manifest 1) (mem_manifest 1)" by (simp add: same_system_def)
  moreover have "\<not> same_system (mem_manifest 1) (mem_manifest 2)"
  proof -
    have "show_u32 1 = ''1''" "show_u32 2 = ''2''" by code_simp+
    then show ?thesis by (auto simp: same_system_def mem_manifest_def package_view_def dest!: spec[of _ "''p''"])
  qed
  ultimately show ?thesis using plan_empty_iff_same[OF wf wf, of "mem_sys []" 1 1 "([], Map.empty)"]
      plan_empty_iff_same[OF wf wf, of "mem_sys []" 1 2 "([], Map.empty)"] scripts by simp
qed

end
