(* ===== verification/Generations_Safety.thy ===== *)
theory Generations_Safety
  imports Generations Activation_Safety
begin

text \<open>
  What switching, booting and deleting generations promise: numbers read back as they were written, protected
  generations keep their directories and roots, and pruning followed by a collection keeps what they need.
\<close>

section \<open>Numbers in files and selectors\<close>

definition graphic :: "char \<Rightarrow> bool" where
  "graphic c \<longleftrightarrow> 33 \<le> byte_of c \<and> byte_of c \<le> 127"

lemma ws_not_graphic: "\<forall>u\<in>set ws_encodings. u \<noteq> [] \<and> \<not> graphic (hd u) \<and> \<not> graphic (last u)"
  by (simp add: ws_encodings_def graphic_def byte_of_def)

lemma no_leading_ws: "s \<noteq> [] \<Longrightarrow> graphic (hd s) \<Longrightarrow> leading_ws s = 0"
proof -
  assume s: "s \<noteq> []" "graphic (hd s)"
  have "\<not> prefix u s" if "u \<in> set ws_encodings" for u
    using ws_not_graphic that s by (cases u) (auto simp: prefix_def)
  then have "find (\<lambda>u. prefix u s) ws_encodings = None" by (auto simp: find_None_iff)
  then show ?thesis by (simp add: leading_ws_def)
qed

lemma no_trailing_ws: "s \<noteq> [] \<Longrightarrow> graphic (last s) \<Longrightarrow> trailing_ws s = 0"
proof -
  assume s: "s \<noteq> []" "graphic (last s)"
  have "\<not> suffix u s" if "u \<in> set ws_encodings" for u
    using ws_not_graphic that s by (auto simp: suffix_def)
  then have "find (\<lambda>u. suffix u s) ws_encodings = None" by (auto simp: find_None_iff)
  then show ?thesis by (simp add: trailing_ws_def)
qed

lemma trim_graphic: "s \<noteq> [] \<Longrightarrow> graphic (hd s) \<Longrightarrow> graphic (last s) \<Longrightarrow> trim_ws s = s"
  by (simp add: trim_ws_def trim_ws_start.simps[of s] trim_ws_end.simps[of s] no_leading_ws no_trailing_ws)

lemma trim_newline:
  assumes "s \<noteq> []" "graphic (hd s)" "graphic (last s)"
  shows "trim_ws (s @ [CHR 0x0A]) = s"
proof -
  have "trailing_ws (s @ [CHR 0x0A]) = 1"
  proof -
    have "ws_encodings = [CHR 0x09] # [CHR 0x0A] # drop 2 ws_encodings"
      by (simp add: ws_encodings_def) (simp add: char_of_def bit_0 bit_Suc)
    moreover have "\<not> suffix [CHR 0x09] (s @ [CHR 0x0A])" "suffix [CHR 0x0A] (s @ [CHR 0x0A])"
      by (simp_all add: suffix_def)
    ultimately have "find (\<lambda>u. suffix u (s @ [CHR 0x0A])) ws_encodings = Some [CHR 0x0A]"
      by (metis (no_types, lifting) find.simps(2))
    then show ?thesis by (simp add: trailing_ws_def)
  qed
  moreover have "leading_ws (s @ [CHR 0x0A]) = 0" using assms by (intro no_leading_ws) auto
  ultimately show ?thesis
    using no_trailing_ws[OF assms(1,3)]
    by (simp add: trim_ws_def trim_ws_start.simps[of "s @ _"] trim_ws_end.simps[of "s @ _"] trim_ws_end.simps[of s])
qed

lemma digit_graphic: "digit c \<noteq> None \<Longrightarrow> graphic c \<and> c \<noteq> CHR ''+'' \<and> c \<noteq> CHR ''d''"
  by (auto simp: digit_def graphic_def byte_of_def split: if_splits)

lemma show_u32_digits: "show_u32 n \<noteq> []" "c \<in> set (show_u32 n) \<Longrightarrow> digit c \<noteq> None"
  using decimal_ne decimal_digits by (auto simp: show_u32_def)

lemma show_u32_ends: "graphic (hd (show_u32 n))" "graphic (last (show_u32 n))" "hd (show_u32 n) \<noteq> CHR ''+''"
  using show_u32_digits digit_graphic hd_in_set last_in_set by metis+

lemma parse_show_u32: "parse_u32 (show_u32 n) = Some n"
proof -
  have "unat n < 2 ^ 32" using unsigned_less[of n] by simp
  moreover have "(of_nat (unat n) :: u32) = n" by simp
  ultimately show ?thesis
    using show_u32_digits(1)[of n] show_u32_ends(3)[of n]
    by (simp add: parse_u32_def parse_nat_def show_u32_def digits_decimal Let_def)
qed

lemma parse_keep_selector:
  "parse_generation_selector (''+'' @ show_u32 n) = (if n = 0 then Inl (BadSelector (''+'' @ show_u32 n)) else Inr (KeepLast n))"
proof -
  have "graphic (CHR ''+'')" by code_simp
  then have "trim_ws (''+'' @ show_u32 n) = ''+'' @ show_u32 n"
    using show_u32_ends(2)[of n] show_u32_digits(1)[of n] by (intro trim_graphic) auto
  then show ?thesis
    unfolding parse_generation_selector_def Let_def by (auto simp: strip_prefix_def parse_show_u32)
qed

lemma parse_old_selector: "parse_generation_selector ''old'' = Inr Old"
proof -
  have "graphic (CHR ''o'') \<and> graphic (CHR ''d'')" by code_simp
  then have "trim_ws ''old'' = ''old''" by (intro trim_graphic) auto
  then show ?thesis by (simp add: parse_generation_selector_def)
qed

section \<open>Deletion\<close>

lemma older_than_unprotected: "older_than cutoff prot gens = Some ns \<Longrightarrow> n \<in> set ns \<Longrightarrow> \<not> prot n"
  by (induction gens arbitrary: ns) (auto split: if_splits option.splits)

lemma to_delete_unprotected: "to_delete clock parsed prot gens = Some ns \<Longrightarrow> n \<in> set ns \<Longrightarrow> \<not> prot n"
  by (auto simp: to_delete_def Let_def split: generation_selector.splits if_splits dest: older_than_unprotected)

lemma keeps_remove_generation:
  assumes "root_laws fs roots_dir links" "\<And>name. plain_name name \<Longrightarrow> keeps P (dbf_remove_file fs (path_join roots_dir name))" "P w"
  shows "P (snd (remove_generation_gc_roots fs roots_dir g w))"
proof -
  have step: "keeps P (remove_root fs roots_dir n)" if "plain_name n" for n
    using keeps_map_err[OF assms(2)[OF that]] by (auto simp: keeps_def remove_root_def Let_def)
  have "\<forall>r\<in>set roots. plain_name (gr_name r) \<Longrightarrow> P v \<Longrightarrow> P (snd (remove_prefixed fs roots_dir pre roots (a, v)))" for pre roots a v
    by (induction roots arbitrary: a v) (auto intro: keeps_snd[OF step])
  then show ?thesis
    using root_lawsD(4)[OF assms(1)] assms(3) by (auto simp: remove_generation_gc_roots_def split: sum.splits)
qed

text \<open>One generation: its roots, then its directory.\<close>

definition delete_one :: "('w, 'x) sys_fs_scheme \<Rightarrow> path_buf \<Rightarrow> string \<Rightarrow> u32 \<Rightarrow> ('w, u32) sys_io" where
  "delete_one fs gc_roots dir n = (\<lambda>w.
     case remove_generation_gc_roots fs gc_roots n w of (roots_removed, w1) \<Rightarrow>
       bindS (\<lambda>w. if dbf_exists fs (path_join dir (show_u32 n)) w
         then sys_io (gcf_remove_dir_all fs (path_join dir (show_u32 n))) w else (Inr (), w)) (\<lambda>_. ret roots_removed) w1)"

lemma delete_each_Cons:
  "delete_each fs roots dir False (n # ns) stats =
     bindS (delete_one fs roots dir n) (\<lambda>k. delete_each fs roots dir False ns
       (stats\<lparr>ds_roots_removed := ds_roots_removed stats + k, ds_generations_deleted := ds_generations_deleted stats + 1,
              ds_deleted_ids := ds_deleted_ids stats @ [n]\<rparr>))"
  by (rule ext) (auto simp: delete_one_def Let_def bindS_def ret_def split: prod.splits sum.splits)

lemma delete_each_dry: "snd (delete_each fs roots dir True ns stats w) = w"
  by (induction ns arbitrary: stats) (simp_all add: Let_def bindS_def ret_def)

lemma keeps_delete_one:
  assumes "root_laws fs roots links" "\<And>name. plain_name name \<Longrightarrow> keeps P (dbf_remove_file fs (path_join roots name))"
    and "keeps P (gcf_remove_dir_all fs (path_join dir (show_u32 n)))"
  shows "keeps P (delete_one fs roots dir n)"
proof (rule keepsI)
  fix w assume "P w"
  then have "P (snd (remove_generation_gc_roots fs roots n w))" using keeps_remove_generation[OF assms(1,2)] by blast
  moreover have "keeps P (bindS (\<lambda>w. if dbf_exists fs (path_join dir (show_u32 n)) w
      then sys_io (gcf_remove_dir_all fs (path_join dir (show_u32 n))) w else (Inr (), w)) (\<lambda>_. ret k))" for k :: u32
    using keeps_sys_io[OF assms(3)] by (intro keeps_bindS keeps_ret) (simp add: keeps_def)
  ultimately show "P (snd (delete_one fs roots dir n w))"
    by (auto simp: delete_one_def intro: keeps_snd split: prod.splits)
qed

lemma keeps_delete_each:
  assumes "\<And>n. n \<in> set ns \<Longrightarrow> keeps P (delete_one fs roots dir n)"
  shows "keeps P (delete_each fs roots dir dry_run ns stats)"
proof (cases dry_run)
  case True
  then show ?thesis by (simp add: keeps_def delete_each_dry)
next
  case False
  have "keeps P (delete_each fs roots dir False ns stats)"
    using assms
  proof (induction ns arbitrary: stats)
    case (Cons n ns)
    then show ?case unfolding delete_each_Cons by (intro keeps_bindS) simp_all
  qed (simp add: keeps_ret)
  then show ?thesis using False by simp
qed

lemma delete_one_links:
  assumes "root_laws fs roots links" "\<And>w. links (snd (gcf_remove_dir_all fs (path_join dir (show_u32 g)) w)) = links w"
  shows "links (snd (delete_one fs roots dir g w)) = links (snd (remove_generation_gc_roots fs roots g w))"
  using assms(2) by (auto simp: delete_one_def bindS_def sys_io_def map_err_def ret_def split: prod.splits sum.splits) (metis snd_conv)+

lemma delete_each_other_links:
  assumes "root_laws fs roots links" "\<And>n w. links (snd (gcf_remove_dir_all fs (path_join dir (show_u32 n)) w)) = links w"
    and "g \<notin> set ns"
  shows "keeps (\<lambda>w. links w (gen_prefix g @ m) = x) (delete_each fs roots dir dry_run ns stats)"
proof (rule keeps_delete_each)
  fix n assume "n \<in> set ns"
  then have "\<not> prefix (gen_prefix n) (gen_prefix g @ m)" using assms(3) gen_prefix_iff by auto
  then show "keeps (\<lambda>w. links w (gen_prefix g @ m) = x) (delete_one fs roots dir n)"
    using remove_generation_links(1)[OF assms(1)] delete_one_links[OF assms(1,2)] by (simp add: keeps_def)
qed

text \<open>
  Removing directories: a removal that succeeds takes the path away, and no removal brings a path into being.
\<close>

definition gone_laws :: "('w, 'x) sys_fs_scheme \<Rightarrow> path_buf \<Rightarrow> string \<Rightarrow> bool" where
  "gone_laws fs roots dir \<longleftrightarrow>
     (\<forall>n w w'. gcf_remove_dir_all fs (path_join dir (show_u32 n)) w = (Inr (), w') \<longrightarrow> \<not> dbf_exists fs (path_join dir (show_u32 n)) w')
   \<and> (\<forall>n m. keeps (\<lambda>w. \<not> dbf_exists fs (path_join dir (show_u32 n)) w) (gcf_remove_dir_all fs (path_join dir (show_u32 m))))
   \<and> (\<forall>n name. plain_name name \<longrightarrow> keeps (\<lambda>w. \<not> dbf_exists fs (path_join dir (show_u32 n)) w) (dbf_remove_file fs (path_join roots name)))"

lemma delete_one_gone:
  assumes "gone_laws fs roots dir" "delete_one fs roots dir n w = (Inr k, w')"
  shows "\<not> dbf_exists fs (path_join dir (show_u32 n)) w'"
  using assms unfolding gone_laws_def delete_one_def
  by (auto simp: bindS_def sys_io_def map_err_def ret_def split: prod.splits sum.splits if_splits)

lemma delete_each_exact:
  assumes laws: "root_laws fs roots links" "\<And>n w. links (snd (gcf_remove_dir_all fs (path_join dir (show_u32 n)) w)) = links w"
    and work: "links_work fs roots" "\<And>w. \<exists>rs. list_roots fs roots w = Inr rs" and gone: "gone_laws fs roots dir"
    and run: "delete_each fs roots dir False ns stats w = (Inr stats', w')"
  shows "ds_deleted_ids stats' = ds_deleted_ids stats @ ns
    \<and> links w' = (\<lambda>m. if \<exists>n\<in>set ns. prefix (gen_prefix n) m then None else links w m)
    \<and> (\<forall>n\<in>set ns. \<not> dbf_exists fs (path_join dir (show_u32 n)) w')"
  using run
proof (induction ns arbitrary: stats w)
  case (Cons n ns)
  obtain k w1 where one: "delete_one fs roots dir n w = (Inr k, w1)" and rest: "delete_each fs roots dir False ns
      (stats\<lparr>ds_roots_removed := ds_roots_removed stats + k, ds_generations_deleted := ds_generations_deleted stats + 1,
             ds_deleted_ids := ds_deleted_ids stats @ [n]\<rparr>) w1 = (Inr stats', w')"
    using Cons.prems unfolding delete_each_Cons by (elim bindS_InrE)
  obtain rs where rs: "list_roots fs roots w = Inr rs" using work(2) by blast
  have "links w1 m = (if prefix (gen_prefix n) m then None else links w m)" for m
    using remove_generation_links(1)[OF laws(1), of n m w] remove_generation_links(2)[OF laws(1) work(1) rs, of n m]
      delete_one_links[OF laws, of n w] one by simp
  moreover have "\<not> dbf_exists fs (path_join dir (show_u32 n)) w'"
  proof -
    have keep: "keeps (\<lambda>w. \<not> dbf_exists fs (path_join dir (show_u32 n)) w) (delete_one fs roots dir i)" for i
      using gone unfolding gone_laws_def by (intro keeps_delete_one[OF laws(1)]) blast+
    show ?thesis
      by (rule keepsD[OF keeps_delete_each[OF keep] delete_one_gone[OF gone one] rest])
  qed
  ultimately show ?case using Cons.IH[OF rest] by (auto simp: fun_eq_iff)
qed (simp add: ret_def)

lemma delete_generations_run:
  assumes "load_manifest_from fs mpath w = Inr current" "read_boot_default fs bd_path w = Inr bd"
    and "delete_generations_with fs roots selector dry_run (Some dir) (Some mpath) bd_path w = Some (r, w')"
  shows "w' = w \<or> (\<exists>gens parsed ns stats. scan_generations fs dir w = Inr gens \<and> parse_generation_selector selector = Inr parsed
    \<and> to_delete (sf_now fs w) parsed (protected_ids (gi_id (sm_generation current)) bd) gens = Some ns
    \<and> ds_deleted_ids stats = [] \<and> delete_each fs roots dir dry_run ns stats w = (r, w'))"
  using assms
  by (auto simp: delete_generations_with_def bindP_def look_def Let_def split: sum.splits option.splits)

text \<open>What was written to a file is what is read from it.\<close>

definition file_law :: "('w, 'x) sys_fs_scheme \<Rightarrow> path_buf \<Rightarrow> bool" where
  "file_law fs path \<longleftrightarrow>
     (\<forall>s v w. dbf_write fs path s v = (Inr (), w) \<longrightarrow> dbf_exists fs path w \<and> dbf_read fs path w = Inr s)"

lemma delete_generations_returns:
  assumes "\<forall>days. parse_generation_selector selector \<noteq> Inr (OlderThanDays days)"
  shows "\<exists>r w'. delete_generations_with fs roots selector dry_run gen_dir mpath bd_path w = Some (r, w')"
proof -
  have "\<forall>parsed. parse_generation_selector selector = Inr parsed \<longrightarrow> (\<forall>clock prot gens. to_delete clock parsed prot gens \<noteq> None)"
    using assms by (auto simp: to_delete_def Let_def split: generation_selector.splits)
  then have "delete_generations_with fs roots selector dry_run gen_dir mpath bd_path w \<noteq> None"
    by (auto simp del: not_None_eq simp: delete_generations_with_def bindP_def look_def Let_def split: sum.splits option.splits prod.splits)
  then show ?thesis by fastforce
qed

section \<open>Pruning and collecting\<close>

definition PATHINFO :: string where "PATHINFO = ''/nix/var/snix/pathinfo''"

definition db_state ::
  "('w, 'x) sys_fs_scheme \<Rightarrow> (string \<Rightarrow> path_info_error + path_info option) \<Rightarrow> (string, unit) btree \<Rightarrow> 'w \<Rightarrow> bool" where
  "db_state fs get all_paths w \<longleftrightarrow>
     finite_db fs PATHINFO w \<and> all_paths_set fs PATHINFO w = Inr all_paths \<and> (\<forall>q. pdb_get fs PATHINFO q w = get q)"

lemma open_dirs: "roots_open fs = bindS (dbf_create_dir_all fs ROOTS) (\<lambda>_. ret ROOTS)"
  "pdb_open fs = bindS (dbf_create_dir_all fs PATHINFO) (\<lambda>_. ret PATHINFO)"
  by (simp_all add: roots_open_def roots_open_at_def pdb_open_def pdb_open_at_def SNIX_VAR_DIR_def path_join_def ROOTS_def PATHINFO_def)

lemma keeps_open_dirs:
  assumes "\<And>p. keeps S (dbf_create_dir_all fs p)"
  shows "keeps S (roots_open fs)" "keeps S (pdb_open fs)"
  unfolding open_dirs by (intro keeps_bindS keeps_ret assms)+

lemma garbage_collect_returns:
  assumes "db_state fs get all_paths w" "list_roots fs ROOTS w = Inr roots" "\<And>p w. path_size fs p w \<noteq> None"
  shows "\<exists>r w'. garbage_collect fs PATHINFO ROOTS dry_run w = Some (r, w')"
proof -
  have st: "finite_db fs PATHINFO w" "all_paths_set fs PATHINFO w = Inr all_paths" using assms(1) by (auto simp: db_state_def)
  show ?thesis unfolding garbage_collect_eq[OF st assms(2)] by (rule sweep_returns[OF assms(3)])
qed

lemma run_gc_keeps:
  assumes laws: "root_laws fs ROOTS links" "\<And>w. \<exists>rs. list_roots fs ROOTS w = Inr rs" "\<And>p w. path_size fs p w \<noteq> None"
    and mk: "\<And>p. keeps S (dbf_create_dir_all fs p)"
    and S: "\<And>w. S w \<Longrightarrow> db_state fs get all_paths w \<and> links w n = Some t \<and> P w"
    and root: "complete_root get t" "p \<in> reach get t"
    and del: "\<And>q. q \<in> set (bt_keys all_paths) \<Longrightarrow> q \<noteq> p \<Longrightarrow> keeps P (gcf_remove_dir_all fs q) \<and> keeps P (dbf_remove_file fs q)"
      "\<And>h. keeps P (dbf_remove_file fs (path_join PATHINFO (h @ ''.json'')))"
    and w: "S w"
  shows "\<exists>r w'. run_gc fs dry_run w = Some (r, w') \<and> P w'"
proof -
  let ?open = "bindS (map_err GcIo (pdb_open fs)) (\<lambda>db. bindS (map_err GcIo (roots_open fs)) (\<lambda>gc_roots. ret (db, gc_roots)))"
  obtain x w1 where x: "?open w = (x, w1)" by fastforce
  have "keeps S ?open" by (intro keeps_bindS keeps_map_err keeps_ret keeps_open_dirs mk)
  from keeps_snd[OF this, of w] w x have w1: "S w1" by simp
  show ?thesis
  proof (cases x)
    case (Inl e)
    then show ?thesis using x S[OF w1] by (simp add: run_gc_def)
  next
    case (Inr dirs)
    have open_in: "map_err GcIo (bindS m (\<lambda>_. Pair (Inr d))) v = (Inr z, v') \<Longrightarrow> z = d" for m d v z v'
      by (auto simp: io_defs split: prod.splits sum.splits)
    have dirs: "dirs = (PATHINFO, ROOTS)"
      using x unfolding Inr open_dirs by (auto elim!: bindS_InrE simp: ret_def dest!: open_in)
    obtain rs where rs: "list_roots fs ROOTS w1 = Inr rs" using laws(2) by blast
    obtain root where root_in: "root \<in> set rs" "gr_target root = t"
      using S[OF w1] root_lawsD(5)[OF laws(1) rs] by (auto dest!: map_of_SomeD)
    obtain r w2 where gc: "garbage_collect fs PATHINFO ROOTS dry_run w1 = Some (r, w2)"
      using garbage_collect_returns[OF _ rs laws(3)] S[OF w1] by blast
    have st: "finite_db fs PATHINFO w1" "all_paths_set fs PATHINFO w1 = Inr all_paths" "(\<lambda>p. pdb_get fs PATHINFO p w1) = get"
      using S[OF w1] by (auto simp: db_state_def)
    have "P w2"
      by (rule collect_keeps[OF st(1,2) rs root_in(1) _ _ del _ gc]) (use st(3) root root_in S[OF w1] in auto)
    then show ?thesis using x Inr dirs rs gc by (simp add: run_gc_def)
  qed
qed

section \<open>Generations in memory\<close>

text \<open>Two generations with one package each; the second is current, and no boot default is set.\<close>

definition mem_world :: mem where
  "mem_world = ([(''gen-1-p'', ''/nix/store/1''), (''gen-2-p'', ''/nix/store/2'')],
     [''/gens'' \<mapsto> [], ''/gens/1'' \<mapsto> [], ''/gens/2'' \<mapsto> [], ''/gens/1/manifest.json'' \<mapsto> ''1'',
      ''/gens/2/manifest.json'' \<mapsto> ''2'', ''/m'' \<mapsto> ''2'',
      ''/nix/var/snix/pathinfo/1.json'' \<mapsto> ''1'', ''/nix/var/snix/pathinfo/2.json'' \<mapsto> ''2'',
      ''/nix/store/1'' \<mapsto> [], ''/nix/store/2'' \<mapsto> []])"

abbreviation mem_gens :: "mem sys_fs" where
  "mem_gens \<equiv> mem_sys [''1'', ''2'']"

lemma mem_world_reads:
  "load_manifest_from mem_gens ''/m'' mem_world = Inr (mem_manifest 2)"
  "read_boot_default mem_gens (Some ''/bd'') mem_world = Inr None"
  "scan_generations mem_gens ''/gens'' mem_world =
     Inr [\<lparr>gn_id = 1, gn_manifest = mem_manifest 1, gn_path = ''/gens/1/manifest.json''\<rparr>,
          \<lparr>gn_id = 2, gn_manifest = mem_manifest 2, gn_path = ''/gens/2/manifest.json''\<rparr>]"
proof -
  have "show_u32 1 = ''1''" "show_u32 2 = ''2''" by code_simp+
  then have p: "parse_u32 ''1'' = Some 1" "parse_u32 ''2'' = Some 2" using parse_show_u32[of 1] parse_show_u32[of 2] by simp_all
  note eval = mem_world_def mem_sys_def mem_exists_def link_name_def ROOTS_def strip_prefix_def path_join_def load_manifest_from_def
  show "load_manifest_from mem_gens ''/m'' mem_world = Inr (mem_manifest 2)" by (simp add: eval p)
  show "read_boot_default mem_gens (Some ''/bd'') mem_world = Inr None" by (simp add: read_boot_default_def eval)
  show "scan_generations mem_gens ''/gens'' mem_world =
     Inr [\<lparr>gn_id = 1, gn_manifest = mem_manifest 1, gn_path = ''/gens/1/manifest.json''\<rparr>,
          \<lparr>gn_id = 2, gn_manifest = mem_manifest 2, gn_path = ''/gens/2/manifest.json''\<rparr>]"
    by (simp add: scan_generations_def eval p)
qed

lemma gen_path: "path_join ''/gens'' (show_u32 n) = ''/gens/'' @ show_u32 n"
proof -
  have "hd (show_u32 n) \<noteq> slash" using show_u32_digits(2)[OF hd_in_set[OF show_u32_digits(1)], of n] by (auto simp: digit_def byte_of_def)
  then show ?thesis using show_u32_digits(1)[of n] by (simp add: path_join_def)
qed

lemma gen_path_iff: "path_join ''/gens'' (show_u32 n) = path_join ''/gens'' (show_u32 m) \<longleftrightarrow> n = m"
  unfolding gen_path using parse_show_u32 by (metis option.inject same_append_eq)

lemma gen_path_no_link: "link_name (path_join ''/gens'' (show_u32 n)) = None"
  by (simp add: gen_path link_name_other ROOTS_def)

lemma mem_dir_links: "mem_links (snd (gcf_remove_dir_all (mem_sys gens) p w)) = mem_links w"
  by (simp add: mem_sys_def mem_links_def)

lemma mem_gone: "gone_laws (mem_sys gens) ROOTS ''/gens''"
  unfolding gone_laws_def keeps_def
  by (auto simp: mem_sys_def mem_exists_def gen_path_no_link mem_remove_def link_name_join split: option.splits)

section \<open>Properties\<close>

text \<open>
  A generation number written as the boot default is read back as itself.
\<close>

theorem boot_default_roundtrip:
  assumes "file_law fs path" "write_boot_default fs n (Some path) v = (Inr (), w)"
  shows "read_boot_default fs (Some path) w = Inr (Some n)"
proof -
  obtain u where "sys_io (dbf_write fs path (show_u32 n @ [CHR 0x0A])) u = (Inr (), w)"
    using assms(2) unfolding write_boot_default_def Let_def option.case by (elim bindS_InrE)
  then have "dbf_write fs path (show_u32 n @ [CHR 0x0A]) u = (Inr (), w)"
    by (auto simp: sys_io_def map_err_def split: prod.splits sum.splits)
  then have "dbf_exists fs path w" "dbf_read fs path w = Inr (show_u32 n @ [CHR 0x0A])"
    using assms(1) unfolding file_law_def by blast+
  then show ?thesis
    using trim_newline[OF show_u32_digits(1) show_u32_ends(1,2)] show_u32_digits(1)
    by (simp add: read_boot_default_def parse_show_u32)
qed

theorem boot_default_roundtrip_witness:
  "\<exists>w. write_boot_default (mem_sys []) 42 (Some ''/etc/bd'') ([], Map.empty) = (Inr (), w)
    \<and> read_boot_default (mem_sys []) (Some ''/etc/bd'') w = Inr (Some 42)"
proof -
  have law: "file_law (mem_sys []) ''/etc/bd''"
    by (auto simp: file_law_def mem_sys_def mem_exists_def link_name_def ROOTS_def strip_prefix_def)
  have "(case path_parent ''/etc/bd'' of Some parent \<Rightarrow> sys_io (dbf_create_dir_all (mem_sys []) parent) | None \<Rightarrow> ret ()) v = (Inr (), v)" for v
    by (cases "path_parent ''/etc/bd''") (simp_all add: mem_sys_def sys_io_def ret_def map_err_def)
  moreover have "\<exists>w. sys_io (dbf_write (mem_sys []) p s) v = (Inr (), w)" for p s v by (simp add: mem_sys_def sys_io_def map_err_def)
  ultimately obtain w where w: "write_boot_default (mem_sys []) 42 (Some ''/etc/bd'') ([], Map.empty) = (Inr (), w)"
    unfolding write_boot_default_def Let_def option.case bindS_def by fastforce
  from boot_default_roundtrip[OF law w] show ?thesis by (intro exI[of _ w] conjI w)
qed

text \<open>
  C9: deleting generations never affects the current generation or the one to be booted by default, whatever the
  selector and however the run ends: their roots stay, and so does everything that removing other generations'
  directories and root links preserves.
\<close>

theorem delete_spares_protected:
  assumes "root_laws fs roots links" "\<And>n w. links (snd (gcf_remove_dir_all fs (path_join dir (show_u32 n)) w)) = links w"
    and "load_manifest_from fs mpath w = Inr current" "read_boot_default fs bd_path w = Inr bd"
    and "g = gi_id (sm_generation current) \<or> bd = Some g"
    and "\<And>n. n \<noteq> g \<Longrightarrow> keeps P (gcf_remove_dir_all fs (path_join dir (show_u32 n)))"
    and "\<And>name. plain_name name \<Longrightarrow> keeps P (dbf_remove_file fs (path_join roots name))" "P w"
    and "delete_generations_with fs roots selector dry_run (Some dir) (Some mpath) bd_path w = Some (r, w')"
  shows "P w' \<and> (\<forall>m. links w' (gen_prefix g @ m) = links w (gen_prefix g @ m))"
  using delete_generations_run[OF assms(3,4,9)]
proof (elim disjE exE conjE)
  fix gens parsed ns stats
  assume ns: "to_delete (sf_now fs w) parsed (protected_ids (gi_id (sm_generation current)) bd) gens = Some ns"
    and run: "delete_each fs roots dir dry_run ns stats w = (r, w')"
  have g: "g \<notin> set ns" using to_delete_unprotected[OF ns] assms(5) by (auto simp: protected_ids_def)
  have "keeps P (delete_each fs roots dir dry_run ns stats)"
  proof (rule keeps_delete_each)
    fix n assume "n \<in> set ns"
    then have "n \<noteq> g" using g by blast
    then show "keeps P (delete_one fs roots dir n)" by (intro keeps_delete_one[OF assms(1)] assms(6,7))
  qed
  from keeps_snd[OF this, of w] have "P w'" using assms(8) run by simp
  moreover have "links w' (gen_prefix g @ m) = links w (gen_prefix g @ m)" for m
    by (rule keepsD[OF delete_each_other_links[OF assms(1,2) g] refl run])
  ultimately show ?thesis by blast
qed (use assms(8) in simp)

theorem delete_spares_protected_witness:
  "\<exists>r w'. delete_generations_with mem_gens ROOTS ''old'' False (Some ''/gens'') (Some ''/m'') (Some ''/bd'') mem_world = Some (r, w')
    \<and> snd w' ''/gens/2'' = Some [] \<and> mem_links w' ''gen-2-p'' = Some ''/nix/store/2''"
proof -
  let ?P = "\<lambda>w :: mem. snd w ''/gens/2'' = Some []"
  obtain r w' where run: "delete_generations_with mem_gens ROOTS ''old'' False (Some ''/gens'') (Some ''/m'') (Some ''/bd'') mem_world = Some (r, w')"
    using delete_generations_returns[of "''old''" mem_gens ROOTS False "Some ''/gens''" "Some ''/m''" "Some ''/bd''" mem_world] parse_old_selector by auto
  have two: "show_u32 2 = ''2''" by code_simp
  then have gen2: "''/gens/2'' = path_join ''/gens'' (show_u32 2)" by (simp add: path_join_def)
  have dirs: "keeps ?P (gcf_remove_dir_all mem_gens (path_join ''/gens'' (show_u32 n)))" if "n \<noteq> 2" for n
    using that unfolding gen2 keeps_def by (auto simp: mem_sys_def gen_path_iff)
  have files: "keeps ?P (dbf_remove_file mem_gens (path_join ROOTS name))" if "plain_name name" for name
    using that by (auto simp: keeps_def mem_sys_def mem_remove_def link_name_join)
  have start: "?P mem_world" "mem_links mem_world (gen_prefix 2 @ ''p'') = Some ''/nix/store/2''"
    by (simp_all add: mem_world_def mem_links_def plain_name_def gen_prefix_def two)
  have "?P w' \<and> (\<forall>m. mem_links w' (gen_prefix 2 @ m) = mem_links mem_world (gen_prefix 2 @ m))"
    by (rule delete_spares_protected[OF mem_sys_laws mem_dir_links mem_world_reads(1,2) _ dirs files start(1) run])
      (simp add: mem_manifest_def)
  moreover have "gen_prefix 2 @ ''p'' = ''gen-2-p''" by (simp add: gen_prefix_def two)
  ultimately show ?thesis using run start(2) by metis
qed



text \<open>
  C33: pruning to the last \<open>n\<close> generations deletes a generation only if at least \<open>n\<close> others that are stored are
  as new as it; the current one and the boot default are kept in addition. Zero is refused.
\<close>

theorem keep_last_keeps_newest:
  assumes "parse_generation_selector (''+'' @ show_u32 n) = Inr parsed"
    and "to_delete clock parsed prot gens = Some ns" "d \<in> set ns"
  shows "0 < unat n \<and> unat n < length (filter (\<lambda>g. d \<le> gn_id g) gens) \<and> \<not> prot d \<and> d \<in> gn_id ` set gens"
proof -
  let ?ids = "sort (map gn_id gens)"
  have n: "n \<noteq> 0" "parsed = KeepLast n" using assms(1) unfolding parse_keep_selector by (auto split: if_splits)
  have d: "d \<in> set (take (length ?ids - unat n) ?ids)" "unat n < length ?ids" "\<not> prot d"
    using assms(2,3) n by (auto simp: to_delete_def Let_def split: if_splits)
  obtain i where i: "i < length ?ids - unat n" "d = ?ids ! i" using d(1) by (auto simp: in_set_conv_nth)
  have "\<forall>x\<in>set (drop i ?ids). d \<le> x"
    using i by (auto simp: in_set_conv_nth intro!: sorted_nth_mono[OF sorted_sort[of "map gn_id gens"]])
  then have "length (drop i ?ids) \<le> length (filter (\<lambda>x. d \<le> x) ?ids)"
    by (metis append_take_drop_id filter_True filter_append le_add2 length_append)
  also have "\<dots> = length (filter (\<lambda>g. d \<le> gn_id g) gens)"
    by (simp add: filter_sort filter_map comp_def)
  finally have "unat n < length (filter (\<lambda>g. d \<le> gn_id g) gens)" using i(1) by simp
  moreover have "d \<in> gn_id ` set gens" using in_set_takeD[OF d(1)] by simp
  ultimately show ?thesis using n(1) d(3) by (simp add: unat_gt_0)
qed

theorem keep_last_keeps_newest_witness:
  "unat (1 :: u32) < length (filter (\<lambda>g. 1 \<le> gn_id g)
     [\<lparr>gn_id = 1, gn_manifest = mem_manifest 1, gn_path = []\<rparr>, \<lparr>gn_id = 2, gn_manifest = mem_manifest 2, gn_path = []\<rparr>])"
  using keep_last_keeps_newest[of 1 "KeepLast 1" None "\<lambda>_. False"
      "[\<lparr>gn_id = 1, gn_manifest = mem_manifest 1, gn_path = []\<rparr>, \<lparr>gn_id = 2, gn_manifest = mem_manifest 2, gn_path = []\<rparr>]" "[1]" 1]
  by (simp add: parse_keep_selector to_delete_def)

text \<open>
  Without an explicit target, a rollback goes to the stored generation with the greatest number below the current
  one, and only if there is none to the latest stored generation; it finds one whenever anything is stored.
\<close>

theorem rollback_goes_back:
  assumes "scan_generations fs dir w = Inr gens" "gens \<noteq> []"
  shows "\<exists>g\<in>set gens. rollback_target gens None current = Inr g
    \<and> (if \<exists>h\<in>set gens. gn_id h < current
       then gn_id g < current \<and> (\<forall>h\<in>set gens. gn_id h < current \<longrightarrow> gn_id h \<le> gn_id g)
       else \<forall>h\<in>set gens. gn_id h \<le> gn_id g)"
proof -
  have sorted: "sorted (map gn_id gens)" by (rule scan_sorted[OF assms(1)])
  show ?thesis
  proof (cases "find (\<lambda>g. gn_id g < current) (rev gens)")
    case None
    then have none: "\<not> (\<exists>h\<in>set gens. gn_id h < current)" by (auto simp: find_None_iff)
    have "gn_id h \<le> gn_id (last gens)" if "h \<in> set gens" for h
      using sorted assms(2) that by (cases gens rule: rev_cases) (auto simp: sorted_append)
    then show ?thesis using None none assms(2) by (intro bexI[of _ "last gens"]) (auto simp: rollback_target_def)
  next
    case (Some g)
    then have "\<exists>h\<in>set (rev gens). gn_id h < current" using find_SomeD[OF Some] by blast
    then obtain as h bs where h: "rev gens = as @ h # bs" "gn_id h < current" "\<forall>a\<in>set as. \<not> gn_id a < current"
      by (rule split_list_first_propE)
    have "\<forall>a\<in>set as. \<not> gn_id a < current \<Longrightarrow> find (\<lambda>g. gn_id g < current) (as @ h # bs) = Some h"
      using h(2) by (induction as) auto
    then have split: "rev gens = as @ g # bs" "gn_id g < current" "\<forall>a\<in>set as. \<not> gn_id a < current" using h Some by auto
    have g: "g \<in> set gens" using arg_cong[OF split(1), of set] by auto
    have "gens = rev bs @ g # rev as" using split(1) by (metis rev_append rev_rev_ident rev.simps(2) append_assoc append_Cons append_Nil)
    then have "gn_id h \<le> gn_id g" if "h \<in> set gens" "gn_id h < current" for h
      using sorted that split(3) by (auto simp: sorted_append)
    then show ?thesis using Some g split(2) by (intro bexI[of _ g]) (auto simp: rollback_target_def)
  qed
qed

theorem rollback_goes_back_witness:
  "\<exists>g. rollback_target [\<lparr>gn_id = 1, gn_manifest = mem_manifest 1, gn_path = ''/gens/1/manifest.json''\<rparr>,
          \<lparr>gn_id = 2, gn_manifest = mem_manifest 2, gn_path = ''/gens/2/manifest.json''\<rparr>] None 2 = Inr g \<and> gn_id g < 2"
  using rollback_goes_back[OF mem_world_reads(3), of 2] by auto

text \<open>
  C32: switching to a stored generation. Without such a generation nothing changes and the error names it; at the
  current generation nothing changes. Otherwise the target is activated first: if that fails, its error and its
  effects are all there is; if the switch succeeds, the manifest file holds the target's manifest.
\<close>

theorem switch_generation_branches:
  assumes "load_manifest_from fs mpath w = Inr current" "scan_generations fs dir w = Inr gens"
    and "file_law fs mpath"
    and "\<And>s. keeps (\<lambda>w. dbf_read fs mpath w = Inr s) (update_current_generation_link fs dir target_id)"
    and "switch_generation_with fs target_id (Some dir) (Some mpath) act w = Some (r, w')"
  shows "case find (\<lambda>g. gn_id g = target_id) gens of
      None \<Rightarrow> r = Inl (NoSuchGeneration target_id) \<and> w' = w
    | Some target \<Rightarrow>
        if target_id = gi_id (sm_generation current) then r = Inr () \<and> w' = w
        else \<exists>a w1. act current (gn_manifest target) w = Some (a, w1)
          \<and> (case a of
               Inl e \<Rightarrow> r = Inl e \<and> w' = w1
             | Inr _ \<Rightarrow> r = Inr () \<longrightarrow> dbf_read fs mpath w' = Inr (sf_encode fs (gn_manifest target)))"
proof (cases "find (\<lambda>g. gn_id g = target_id) gens")
  case None
  then show ?thesis using assms(1,2,5) by (auto simp: switch_generation_with_def bindP_def look_def now_def fail_def)
next
  case (Some target)
  have id: "gn_id target = target_id" using find_SomeD[OF Some] by simp
  show ?thesis
  proof (cases "target_id = gi_id (sm_generation current)")
    case True
    then show ?thesis using assms(1,2,5) Some id by (auto simp: switch_generation_with_def bindP_def look_def now_def ret_def)
  next
    case False
    let ?wr = "sys_io (dbf_write fs mpath (sf_encode fs (gn_manifest target)))"
    have run: "bindP (act current (gn_manifest target)) (\<lambda>_. bindP (now ?wr) (\<lambda>_.
        now (update_current_generation_link fs dir target_id))) w = Some (r, w')"
      using assms(1,2,5) Some id False by (simp add: switch_generation_with_def bindP_def look_def)
    then obtain a w1 where a: "act current (gn_manifest target) w = Some (a, w1)"
      by (auto simp: bindP_def split: option.splits)
    show ?thesis
    proof (cases a)
      case (Inl e)
      then show ?thesis using run a Some False by (auto simp: bindP_def)
    next
      case (Inr x)
      have "dbf_read fs mpath w' = Inr (sf_encode fs (gn_manifest target))" if ok: "r = Inr ()"
      proof -
        obtain w2 where w2: "?wr w1 = (Inr (), w2)" and link: "update_current_generation_link fs dir target_id w2 = (Inr (), w')"
          using run a Inr ok by (auto simp: bindP_def now_def split: sum.splits option.splits prod.splits)
        then have "dbf_write fs mpath (sf_encode fs (gn_manifest target)) w1 = (Inr (), w2)"
          by (auto simp: sys_io_def map_err_def split: prod.splits sum.splits)
        then have "dbf_read fs mpath w2 = Inr (sf_encode fs (gn_manifest target))" using assms(3) unfolding file_law_def by blast
        from keepsD[OF assms(4) this link] show ?thesis .
      qed
      then show ?thesis using a Some False Inr by auto
    qed
  qed
qed

lemma mem_manifest_id: "gi_id (sm_generation (mem_manifest n)) = n"
  by (simp add: mem_manifest_def)

lemma mem_link:
  "current_generation_link_path ''/gens'' = ''/current''" "link_name ''/current'' = None" "link_name ''/m'' = None"
  "path_parent ''/current'' = Some ''/''"
  by code_simp+

lemma mem_update_link:
  "update_current_generation_link (mem_sys gens) ''/gens'' n w =
     (Inr (), (fst w, (snd w)(''/current'' \<mapsto> path_join ''/gens'' (show_u32 n))))"
  unfolding update_current_generation_link_def Let_def mem_link option.case
  by (auto simp: mem_sys_def mem_exists_def mem_remove_def mem_link sys_io_def io_defs)

theorem switch_generation_branches_witness:
  "\<exists>w'. switch_generation_with mem_gens 1 (Some ''/gens'') (Some ''/m'') (\<lambda>_ _ w. Some (Inr \<lparr>ar_binaries_linked = 0,
      ar_config_files_updated = 0, ar_warnings = [], ar_reboot_recommended = False\<rparr>, w)) mem_world = Some (Inr (), w')
    \<and> snd w' ''/m'' = Some ''1''"
proof -
  let ?act = "\<lambda>(_ :: sys_manifest) (_ :: sys_manifest) (w :: mem). Some (Inr \<lparr>ar_binaries_linked = 0,
      ar_config_files_updated = 0, ar_warnings = [], ar_reboot_recommended = False\<rparr> :: sys_error + activation_result, w)"
  have wr: "sys_io (dbf_write mem_gens p s) w = (Inr (), (fst w, (snd w)(p \<mapsto> s)))" for p s w
    by (simp add: mem_sys_def sys_io_def map_err_def)
  obtain w' where run: "switch_generation_with mem_gens 1 (Some ''/gens'') (Some ''/m'') ?act mem_world = Some (Inr (), w')"
    using mem_world_reads
    by (simp add: switch_generation_with_def bindP_def look_def now_def Let_def mem_manifest_id wr mem_update_link)
  have law: "file_law mem_gens ''/m''"
    by (auto simp: file_law_def mem_sys_def mem_exists_def mem_link)
  have keep: "keeps (\<lambda>w. dbf_read mem_gens ''/m'' w = Inr s) (update_current_generation_link mem_gens ''/gens'' 1)" for s
    unfolding keeps_def mem_update_link by (simp add: mem_sys_def split: option.splits)
  have enc: "sf_encode mem_gens (mem_manifest 1) = ''1''"
  proof -
    have "show_u32 1 = ''1''" by code_simp
    then show ?thesis by (simp add: mem_sys_def mem_manifest_def)
  qed
  have "dbf_read mem_gens ''/m'' w' = Inr ''1''"
    using switch_generation_branches[OF mem_world_reads(1,3) law keep run] by (simp add: mem_manifest_id enc)
  then have "snd w' ''/m'' = Some ''1''" by (simp add: mem_sys_def split: option.splits)
  with run show ?thesis by blast
qed

end
