(* ===== verification/Rebuild_Config.thy ===== *)
theory Rebuild_Config
  imports Generations_Safety
begin

text \<open>
  The declarative configuration of a system and its merge into the manifest
  (\<^verbatim>\<open>snix-redox/src/rebuild.rs\<close>): the schema, validation of managed files, the choice of how to rebuild,
  resolution of package names against cache indexes, and the comparison that decides whether anything is to be done.
\<close>

section \<open>Schema\<close>

text \<open>A field that is \<^const>\<open>None\<close> leaves the manifest as it is.\<close>

record network_input =
  ni_enable :: "bool option"
  ni_mode :: "string option"
  ni_dns :: "string list option"

record graphics_input =
  gfx_enable :: "bool option"
  gfx_resolution :: "string option"

record security_input =
  sei_protect_kernel_schemes :: "bool option"
  sei_require_passwords :: "bool option"
  sei_allow_remote_root :: "bool option"

record logging_input =
  loi_level :: "string option"
  loi_kernel_level :: "string option"
  loi_log_to_file :: "bool option"

record power_input =
  poi_acpi_enabled :: "bool option"
  poi_power_action :: "string option"
  poi_reboot_on_panic :: "bool option"

record user_config =
  uc_uid :: u32
  uc_gid :: u32
  uc_home :: string
  uc_shell :: string

record programs_config =
  prg_editor :: "string option"

record managed_file_input =
  mf_text :: string
  mf_mode :: "string option"

record hardware_input =
  hwi_storage_drivers :: "string list option"
  hwi_network_drivers :: "string list option"
  hwi_graphics_drivers :: "string list option"
  hwi_audio_drivers :: "string list option"
  hwi_usb_enabled :: "bool option"

record rebuild_config =
  rc_hostname :: "string option"
  rc_timezone :: "string option"
  rc_packages :: "string list option"
  rc_networking :: "network_input option"
  rc_graphics :: "graphics_input option"
  rc_security :: "security_input option"
  rc_logging :: "logging_input option"
  rc_power :: "power_input option"
  rc_users :: "(string, user_config) btree option"
  rc_programs :: "programs_config option"
  rc_files :: "(string, managed_file_input) btree option"
  rc_hardware :: "hardware_input option"
  rc_services :: "string list option"
  rc_package_sources :: "string option"
  rc_system_source :: "string option"

definition BOOT_ESSENTIAL :: "string list" where
  "BOOT_ESSENTIAL = [''ion'', ''ion-shell'', ''base'', ''redox-base'', ''init'', ''logd'', ''ramfs'', ''zerod'',
     ''nulld'', ''randd'', ''snix'', ''snix-redox'', ''uutils'']"

datatype rebuild_error =
    BadManagedPath string
  | EmptyManagedPath
  | BadFileMode string
  | NeedsBridge
  | ConfigMissing string
  | ConfigInvalid
  | EvalFailed string
  | IndexUnavailable
  | NoSystemSource
  | NotADerivation string
  | BuildFailed string
  | NoOutput string
  | TargetMismatch string string
  | NoBootArtifacts
  | BootArtifactMissing string
  | NoEtcSource
  | NotRegularFile path_buf
  | NoPackageSources
  | SourcesMissing string
  | RebuildSys sys_error

section \<open>How to rebuild\<close>

definition has_package_changes :: "rebuild_config \<Rightarrow> bool" where
  "has_package_changes config \<longleftrightarrow> (case rc_packages config of Some pkgs \<Rightarrow> pkgs \<noteq> [] | None \<Rightarrow> False)"

definition has_service_changes :: "rebuild_config \<Rightarrow> sys_manifest option \<Rightarrow> bool" where
  "has_service_changes config current_manifest \<longleftrightarrow>
     (case rc_services config of
        None \<Rightarrow> False
      | Some svc_names \<Rightarrow>
          (case current_manifest of
             None \<Rightarrow> True
           | Some manifest \<Rightarrow> sort (bt_keys (ss_declared (sm_services manifest))) \<noteq> sort svc_names))"

definition has_boot_affecting_changes :: "rebuild_config \<Rightarrow> sys_manifest option \<Rightarrow> bool" where
  "has_boot_affecting_changes config current_manifest \<longleftrightarrow>
     (let hw_changed = (case rc_hardware config of
            None \<Rightarrow> False
          | Some hw \<Rightarrow> hwi_storage_drivers hw \<noteq> None \<or> hwi_network_drivers hw \<noteq> None \<or> hwi_graphics_drivers hw \<noteq> None
              \<or> hwi_audio_drivers hw \<noteq> None \<or> hwi_usb_enabled hw \<noteq> None);
          services_changed = (case rc_services config of
            None \<Rightarrow> False
          | Some svc_names \<Rightarrow>
              (case current_manifest of
                 None \<Rightarrow> True
               | Some manifest \<Rightarrow> sort (bt_keys (ss_declared (sm_services manifest))) \<noteq> sort svc_names))
      in hw_changed \<or> services_changed)"

definition needs_bridge :: "rebuild_config \<Rightarrow> sys_manifest option \<Rightarrow> bool" where
  "needs_bridge config current_manifest \<longleftrightarrow>
     rc_system_source config = None \<and> (has_package_changes config \<or> has_boot_affecting_changes config current_manifest)"

definition bridge_available :: "('w, 'x) sys_fs_scheme \<Rightarrow> string option \<Rightarrow> 'w \<Rightarrow> bool" where
  "bridge_available fs shared_dir w =
     gcf_is_dir fs (path_join (case shared_dir of Some d \<Rightarrow> d | None \<Rightarrow> ''/scheme/shared'') ''requests'') w"

datatype auto_rebuild_route = NativeRoute | BridgeRoute | LocalRoute

definition select_auto_rebuild_route ::
  "rebuild_config \<Rightarrow> sys_manifest option \<Rightarrow> bool \<Rightarrow> rebuild_error + auto_rebuild_route" where
  "select_auto_rebuild_route config current_manifest bridge_is_available =
     (if rc_system_source config \<noteq> None then Inr NativeRoute
      else if has_boot_affecting_changes config current_manifest then
        (if bridge_is_available then Inr BridgeRoute else Inl NeedsBridge)
      else if has_package_changes config \<and> bridge_is_available then Inr BridgeRoute
      else Inr LocalRoute)"

section \<open>Managed files\<close>

definition validate_managed_file_path :: "string \<Rightarrow> rebuild_error + string" where
  "validate_managed_file_path path =
     (case managed_parts (components path) [] of
        None \<Rightarrow> Inl (BadManagedPath path)
      | Some normalized \<Rightarrow> if normalized = [] then Inl EmptyManagedPath else Inr normalized)"

text \<open>Octal digits, padded with zeros as \<^verbatim>\<open>{:04o}\<close> does.\<close>

fun octal :: "nat \<Rightarrow> string" where
  "octal n = (if n < 8 then [char_of (48 + n)] else octal (n div 8) @ [char_of (48 + n mod 8)])"

declare octal.simps [simp del]

definition octal4 :: "nat \<Rightarrow> string" where
  "octal4 n = (let s = octal n in replicate (4 - length s) CHR ''0'' @ s)"

definition normalize_managed_file_mode :: "string \<Rightarrow> rebuild_error + string" where
  "normalize_managed_file_mode mode =
     (let t0 = trim_ws mode;
          t1 = (case strip_prefix t0 ''0o'' of Some r \<Rightarrow> r | None \<Rightarrow> t0);
          t = (case strip_prefix t1 ''0'' of Some r \<Rightarrow> if r \<noteq> [] then r else t1 | None \<Rightarrow> t1) in
      if t = [] \<or> 4 < length t \<or> \<not> list_all octal_digit t then Inl (BadFileMode mode)
      else if 0xFFF < octal_value t then Inl (BadFileMode mode)
      else Inr (octal4 (octal_value t)))"

definition mode_or_default :: "managed_file_input \<Rightarrow> string" where
  "mode_or_default file = (case mf_mode file of Some m \<Rightarrow> m | None \<Rightarrow> ''0644'')"

fun normalize_files ::
  "(string, managed_file_input) btree \<Rightarrow> (string, managed_file_input) btree \<Rightarrow> rebuild_error + (string, managed_file_input) btree" where
  "normalize_files [] normalized = Inr normalized"
| "normalize_files ((path, file) # files) normalized =
     (case validate_managed_file_path path of
        Inl e \<Rightarrow> Inl e
      | Inr normalized_path \<Rightarrow>
          (case normalize_managed_file_mode (mode_or_default file) of
             Inl e \<Rightarrow> Inl e
           | Inr normalized_mode \<Rightarrow>
               normalize_files files (bt_insert normalized_path (file\<lparr>mf_mode := Some normalized_mode\<rparr>) normalized)))"

definition validate_managed_files :: "rebuild_config \<Rightarrow> rebuild_error + rebuild_config" where
  "validate_managed_files config =
     (case rc_files config of
        None \<Rightarrow> Inr config
      | Some files \<Rightarrow> map_sum id (\<lambda>normalized. config\<lparr>rc_files := Some normalized\<rparr>) (normalize_files files []))"

text \<open>\<open>from_str\<close> is the JSON decoder.\<close>

definition parse_config_json :: "(string \<Rightarrow> rebuild_config option) \<Rightarrow> string \<Rightarrow> rebuild_error + rebuild_config" where
  "parse_config_json from_str json =
     (case from_str json of None \<Rightarrow> Inl ConfigInvalid | Some config \<Rightarrow> validate_managed_files config)"

section \<open>Package names\<close>

datatype cache_source = Local path_buf | Remote string

definition DEFAULT_CACHE_PATH :: string where "DEFAULT_CACHE_PATH = ''/nix/cache''"

definition from_args :: "string option \<Rightarrow> string option \<Rightarrow> cache_source" where
  "from_args cache_url cache_path =
     (case cache_url of
        Some url \<Rightarrow> Remote (trim_end_matches slash url)
      | None \<Rightarrow> (case cache_path of Some path \<Rightarrow> Local path | None \<Rightarrow> Local DEFAULT_CACHE_PATH))"

definition detect :: "string \<Rightarrow> cache_source" where
  "detect source =
     (if prefix ''http://'' source \<or> prefix ''https://'' source then Remote (trim_end_matches slash source) else Local source)"

definition is_remote :: "cache_source \<Rightarrow> bool" where
  "is_remote source = (case source of Remote _ \<Rightarrow> True | Local _ \<Rightarrow> False)"

definition local_cache_source_for_rebuild :: "string \<Rightarrow> cache_source" where
  "local_cache_source_for_rebuild cache_index_path =
     Local (case path_parent cache_index_path of Some d \<Rightarrow> d | None \<Rightarrow> DEFAULT_CACHE_PATH)"

definition cache_source_for_rebuild :: "string \<Rightarrow> string option \<Rightarrow> cache_source" where
  "cache_source_for_rebuild cache_index_path cache_url =
     (case cache_url of
        Some url \<Rightarrow> Remote (trim_end_matches slash url)
      | None \<Rightarrow> local_cache_source_for_rebuild cache_index_path)"

record package_entry =
  en_store_path :: string
  en_pname :: string
  en_version :: string
  en_nar_hash :: "string option"
  en_nar_size :: "u64 option"
  en_file_size :: "u64 option"

record package_index =
  ix_version :: u32
  ix_packages :: "(string, package_entry) btree"

record resolved_package =
  rp_package :: sys_package
  rp_source :: "cache_source option"

definition resolved_from :: "string \<Rightarrow> package_index option \<Rightarrow> cache_source option \<Rightarrow> resolved_package option" where
  "resolved_from name index source =
     (case (index, source) of
        (Some ix, Some src) \<Rightarrow>
          map_option (\<lambda>entry.
            \<lparr>rp_package = \<lparr>pk_name = name, pk_version = en_version entry, pk_store_path = en_store_path entry\<rparr>,
             rp_source = Some src\<rparr>) (bt_get (ix_packages ix) name)
      | _ \<Rightarrow> None)"

definition resolve_package ::
  "package_index option \<Rightarrow> cache_source option \<Rightarrow> package_index option \<Rightarrow> cache_source option \<Rightarrow> string \<Rightarrow> resolved_package" where
  "resolve_package primary_index primary_source fallback_index fallback_source name =
     (case resolved_from name primary_index primary_source of
        Some r \<Rightarrow> r
      | None \<Rightarrow>
          (case resolved_from name fallback_index fallback_source of
             Some r \<Rightarrow> r
           | None \<Rightarrow> \<lparr>rp_package = \<lparr>pk_name = name, pk_version = [], pk_store_path = []\<rparr>, rp_source = None\<rparr>))"

definition resolve_packages_from_indexes ::
  "string list \<Rightarrow> package_index option \<Rightarrow> cache_source option \<Rightarrow> package_index option \<Rightarrow> cache_source option \<Rightarrow> resolved_package list" where
  "resolve_packages_from_indexes names primary_index primary_source fallback_index fallback_source =
     map (resolve_package primary_index primary_source fallback_index fallback_source) names"

text \<open>\<open>read_index\<close> reads the index of a source; an index that cannot be read is an error only if there is no other.\<close>

definition resolve_packages_with_fallback ::
  "(cache_source \<Rightarrow> package_index option) \<Rightarrow> string list option \<Rightarrow> cache_source \<Rightarrow> cache_source option
   \<Rightarrow> rebuild_error + resolved_package list" where
  "resolve_packages_with_fallback read_index names primary_source fallback_source =
     (case names of
        None \<Rightarrow> Inr []
      | Some names \<Rightarrow>
          if names = [] then Inr []
          else
            let primary_index = read_index primary_source in
            if primary_index = None \<and> fallback_source = None then Inl IndexUnavailable
            else
              let fallback_index = (case fallback_source of Some source \<Rightarrow> read_index source | None \<Rightarrow> None) in
              if fallback_source \<noteq> None \<and> fallback_index = None \<and> primary_index = None then Inl IndexUnavailable
              else Inr (resolve_packages_from_indexes names primary_index (Some primary_source) fallback_index fallback_source))"

section \<open>Merging into the manifest\<close>

definition or_keep :: "'a option \<Rightarrow> 'a \<Rightarrow> 'a" where
  "or_keep input old = (case input of Some x \<Rightarrow> x | None \<Rightarrow> old)"

definition merge_system :: "rebuild_config \<Rightarrow> system_info \<Rightarrow> system_info" where
  "merge_system config s =
     s\<lparr>si_hostname := or_keep (rc_hostname config) (si_hostname s), si_timezone := or_keep (rc_timezone config) (si_timezone s)\<rparr>"

definition merge_networking :: "network_input option \<Rightarrow> networking_config \<Rightarrow> networking_config" where
  "merge_networking input n =
     (case input of None \<Rightarrow> n | Some net \<Rightarrow>
        n\<lparr>nc_enabled := or_keep (ni_enable net) (nc_enabled n), nc_mode := or_keep (ni_mode net) (nc_mode n),
          nc_dns := or_keep (ni_dns net) (nc_dns n)\<rparr>)"

definition merge_graphics :: "graphics_input option \<Rightarrow> graphics_config \<Rightarrow> graphics_config" where
  "merge_graphics input g =
     (case input of None \<Rightarrow> g | Some gfx \<Rightarrow>
        g\<lparr>gc_enabled := or_keep (gfx_enable gfx) (gc_enabled g), gc_resolution := or_keep (gfx_resolution gfx) (gc_resolution g)\<rparr>)"

definition merge_security :: "security_input option \<Rightarrow> security_config \<Rightarrow> security_config" where
  "merge_security input s =
     (case input of None \<Rightarrow> s | Some sec \<Rightarrow>
        s\<lparr>sc_protect_kernel_schemes := or_keep (sei_protect_kernel_schemes sec) (sc_protect_kernel_schemes s),
          sc_require_passwords := or_keep (sei_require_passwords sec) (sc_require_passwords s),
          sc_allow_remote_root := or_keep (sei_allow_remote_root sec) (sc_allow_remote_root s)\<rparr>)"

definition merge_logging :: "logging_input option \<Rightarrow> logging_config \<Rightarrow> logging_config" where
  "merge_logging input l =
     (case input of None \<Rightarrow> l | Some log \<Rightarrow>
        l\<lparr>lc_log_level := or_keep (loi_level log) (lc_log_level l),
          lc_kernel_log_level := or_keep (loi_kernel_level log) (lc_kernel_log_level l),
          lc_log_to_file := or_keep (loi_log_to_file log) (lc_log_to_file l)\<rparr>)"

definition merge_power :: "power_input option \<Rightarrow> power_config \<Rightarrow> power_config" where
  "merge_power input p =
     (case input of None \<Rightarrow> p | Some pwr \<Rightarrow>
        p\<lparr>pw_acpi_enabled := or_keep (poi_acpi_enabled pwr) (pw_acpi_enabled p),
          pw_power_action := or_keep (poi_power_action pwr) (pw_power_action p),
          pw_reboot_on_panic := or_keep (poi_reboot_on_panic pwr) (pw_reboot_on_panic p)\<rparr>)"

definition merge_settings :: "rebuild_config \<Rightarrow> sys_configuration \<Rightarrow> sys_configuration" where
  "merge_settings config c =
     c\<lparr>cf_networking := merge_networking (rc_networking config) (cf_networking c),
       cf_graphics := merge_graphics (rc_graphics config) (cf_graphics c),
       cf_security := merge_security (rc_security config) (cf_security c),
       cf_logging := merge_logging (rc_logging config) (cf_logging c),
       cf_power := merge_power (rc_power config) (cf_power c)\<rparr>"

definition user_of :: "user_config \<Rightarrow> sys_user" where
  "user_of u = \<lparr>us_uid = uc_uid u, us_gid = uc_gid u, us_home = uc_home u, us_shell = uc_shell u\<rparr>"

text \<open>Users replace the whole table, and the groups with it.\<close>

definition merge_users :: "rebuild_config \<Rightarrow> sys_manifest \<Rightarrow> sys_manifest" where
  "merge_users config m =
     (case rc_users config of None \<Rightarrow> m | Some users \<Rightarrow>
        m\<lparr>sm_users := map (\<lambda>(name, u). (name, user_of u)) users,
          sm_groups := map (\<lambda>(name, u). (name, \<lparr>gp_gid = uc_gid u, gp_members = [name]\<rparr>)) users\<rparr>)"

text \<open>\<open>hash\<close> is the hexadecimal BLAKE3 digest.\<close>

definition inline_file :: "(string \<Rightarrow> string) \<Rightarrow> managed_file_input \<Rightarrow> string \<Rightarrow> file_info" where
  "inline_file hash file mode =
     \<lparr>fi_blake3 = hash (mf_text file), fi_size = of_nat (length (mf_text file)), fi_mode = mode, fi_text = Some (mf_text file)\<rparr>"

fun merge_files ::
  "(string \<Rightarrow> string) \<Rightarrow> (string, managed_file_input) btree \<Rightarrow> (string, file_info) btree \<Rightarrow> rebuild_error + (string, file_info) btree" where
  "merge_files hash [] m = Inr m"
| "merge_files hash ((path, file) # files) m =
     (case validate_managed_file_path path of
        Inl e \<Rightarrow> Inl e
      | Inr normalized_path \<Rightarrow>
          (case normalize_managed_file_mode (mode_or_default file) of
             Inl e \<Rightarrow> Inl e
           | Inr normalized_mode \<Rightarrow> merge_files hash files (bt_insert normalized_path (inline_file hash file normalized_mode) m)))"

definition is_boot_essential :: "string \<Rightarrow> bool" where
  "is_boot_essential name \<longleftrightarrow> list_ex (\<lambda>b. b = name) BOOT_ESSENTIAL"

definition push_unseen :: "sys_package \<Rightarrow> string set \<times> sys_package list \<Rightarrow> string set \<times> sys_package list" where
  "push_unseen pkg s =
     (case s of (seen, merged) \<Rightarrow> if pk_name pkg \<in> seen then s else (insert (pk_name pkg) seen, merged @ [pkg]))"

definition merge_packages :: "sys_package list \<Rightarrow> sys_package list \<Rightarrow> sys_package list" where
  "merge_packages current resolved =
     (let boot_pkgs = filter (\<lambda>p. is_boot_essential (pk_name p)) current in
      snd (fold push_unseen resolved (fold push_unseen boot_pkgs ({}, []))))"

definition merge_config ::
  "(string \<Rightarrow> string) \<Rightarrow> sys_manifest \<Rightarrow> rebuild_config \<Rightarrow> sys_package list \<Rightarrow> rebuild_error + sys_manifest" where
  "merge_config hash current config resolved =
     (let m = current\<lparr>sm_system := merge_system config (sm_system current),
            sm_configuration := merge_settings config (sm_configuration current)\<rparr>;
          m = merge_users config m in
      case (case rc_files config of
              None \<Rightarrow> Inr m
            | Some files \<Rightarrow>
                map_sum id (\<lambda>fs. m\<lparr>sm_files := fs\<rparr>) (merge_files hash files (filter (\<lambda>(_, info). fi_text info = None) (sm_files m)))) of
        Inl e \<Rightarrow> Inl e
      | Inr m \<Rightarrow>
          Inr (if rc_packages config \<noteq> None \<and> resolved \<noteq> []
            then m\<lparr>sm_packages := merge_packages (sm_packages current) resolved\<rparr> else m))"

definition has_manifest_changes :: "sys_manifest \<Rightarrow> sys_manifest \<Rightarrow> bool" where
  "has_manifest_changes current merged \<longleftrightarrow>
     (let c = sm_configuration current; d = sm_configuration merged in
      si_hostname (sm_system current) \<noteq> si_hostname (sm_system merged)
      \<or> si_timezone (sm_system current) \<noteq> si_timezone (sm_system merged)
      \<or> cf_networking c \<noteq> cf_networking d
      \<or> cf_security c \<noteq> cf_security d
      \<or> cf_logging c \<noteq> cf_logging d
      \<or> cf_power c \<noteq> cf_power d
      \<or> cf_hardware c \<noteq> cf_hardware d
      \<or> map (\<lambda>p. (pk_name p, pk_store_path p)) (sm_packages current) \<noteq> map (\<lambda>p. (pk_name p, pk_store_path p)) (sm_packages merged)
      \<or> sm_users current \<noteq> sm_users merged
      \<or> sm_services current \<noteq> sm_services merged
      \<or> sm_files current \<noteq> sm_files merged
      \<or> sm_boot current \<noteq> sm_boot merged
      \<or> sm_drivers current \<noteq> sm_drivers merged)"

section \<open>Nix string literals\<close>

fun nix_escape :: "string \<Rightarrow> string" where
  "nix_escape [] = []"
| "nix_escape (c # cs) =
     (if c = CHR 0x5C then [CHR 0x5C, CHR 0x5C]
      else if c = CHR 0x22 then [CHR 0x5C, CHR 0x22]
      else if c = CHR 0x0A then [CHR 0x5C, CHR ''n'']
      else if c = CHR 0x0D then [CHR 0x5C, CHR ''r'']
      else if c = CHR 0x09 then [CHR 0x5C, CHR ''t'']
      else if c = CHR ''$'' \<and> cs \<noteq> [] \<and> hd cs = CHR ''{'' then [CHR 0x5C, CHR ''$'']
      else [c]) @ nix_escape cs"

definition nix_string_literal :: "string \<Rightarrow> string" where
  "nix_string_literal v = CHR 0x22 # nix_escape v @ [CHR 0x22]"

section \<open>Lemmas on managed files\<close>

lemma octal_value_snoc: "octal_value (s @ [c]) = 8 * octal_value s + (byte_of c - 48)"
  by (simp add: octal_value_def)

lemma octal_char: "d < 8 \<Longrightarrow> octal_digit (char_of (48 + d)) \<and> byte_of (char_of (48 + d)) - 48 = d"
  by (simp add: octal_digit_def byte_of_def of_char_of)

lemma octal_reads: "octal_value (octal n) = n \<and> list_all octal_digit (octal n)"
proof (induction n rule: octal.induct)
  case (1 n)
  show ?case
  proof (cases "n < 8")
    case True
    then show ?thesis using octal_char[of n] by (simp add: octal.simps[of n] octal_value_def)
  next
    case False
    then show ?thesis using 1 octal_char[of "n mod 8"] by (simp add: octal.simps[of n] octal_value_snoc)
  qed
qed

lemma octal_length: "n < 8 ^ Suc k \<Longrightarrow> length (octal n) \<le> Suc k \<and> octal n \<noteq> []"
proof (induction k arbitrary: n)
  case (Suc k)
  then have "n div 8 < 8 ^ Suc k" by (simp add: div_less_iff_less_mult)
  from Suc.IH[OF this] show ?case by (simp add: octal.simps[of n])
qed (simp add: octal.simps)

lemma octal_value_zeros: "octal_value (replicate k CHR ''0'' @ s) = octal_value s"
  by (induction k) (simp_all add: octal_value_def byte_of_def)

lemma octal4_reads:
  assumes "n \<le> 0xFFF"
  shows "octal_value (octal4 n) = n" "list_all octal_digit (octal4 n)" "length (octal4 n) = 4"
  using octal_reads[of n] octal_length[of n 3] assms
  by (auto simp: octal4_def Let_def octal_value_zeros list_all_iff octal_digit_def byte_of_def)

lemma octal_digit_graphic: "octal_digit c \<Longrightarrow> graphic c \<and> c \<noteq> CHR ''o''"
  by (auto simp: octal_digit_def graphic_def byte_of_def)

text \<open>What is printed for a mode is read back as that mode.\<close>

lemma parse_mode_octal4:
  assumes "n \<le> 0xFFF"
  shows "parse_mode_string (octal4 n) = Inr (of_nat n)"
proof -
  let ?s = "octal4 n"
  obtain a b c d where s: "?s = [a, b, c, d]"
    using octal4_reads(3)[OF assms] by (auto simp: length_Suc_conv numeral_eq_Suc)
  have ds: "octal_digit a" "octal_digit b" "octal_digit c" "octal_digit d" using octal4_reads(2)[OF assms] s by simp_all
  have trim: "trim_ws ?s = ?s" using ds s by (intro trim_graphic) (simp_all add: octal_digit_graphic)
  have no: "strip_prefix ?s ''0o'' = None" using ds s octal_digit_graphic by (auto simp: strip_prefix_None_iff)
  let ?t = "if a = CHR ''0'' then [b, c, d] else ?s"
  have t: "(case strip_prefix ?s ''0'' of Some r \<Rightarrow> if r \<noteq> [] then r else ?s | None \<Rightarrow> ?s) = ?t"
    by (auto simp: s strip_prefix_def)
  have "octal_value ?t = n"
    using octal4_reads(1)[OF assms] octal_value_zeros[of 1 "[b, c, d]"] by (auto simp: s)
  moreover have "?t \<noteq> []" "length ?t \<le> 4" "list_all octal_digit ?t" using ds by (auto simp: s)
  ultimately show ?thesis using assms unfolding parse_mode_string_def Let_def trim no option.case t by simp
qed

lemma normalize_mode_cases:
  assumes "normalize_managed_file_mode mode = Inr m"
  shows "\<exists>n\<le>0xFFF. m = octal4 n \<and> parse_mode_string m = Inr (of_nat n)"
  using assms parse_mode_octal4 by (auto simp: normalize_managed_file_mode_def Let_def not_less split: if_splits)

lemma managed_parts_names:
  assumes "valid_names ms" "valid_names ns"
  shows "managed_parts (map Normal ns) (canon_path False ms) = Some (canon_path False (ms @ ns))"
  using assms
proof (induction ns arbitrary: ms)
  case (Cons n ns)
  have "path_join (canon_path False ms) n = canon_path False (ms @ [n])"
    using push_canon Cons.prems by (simp add: valid_names_def)
  then show ?case using Cons.IH[of "ms @ [n]"] Cons.prems by (simp add: valid_names_def)
qed simp

text \<open>A path that passes validation is one that activation takes as it is.\<close>

lemma managed_path_fixed:
  assumes "validate_managed_file_path path = Inr p"
  shows "validate_managed_relative_path p = Inr p" "validate_managed_file_path p = Inr p"
proof -
  have r: "managed_parts (components path) (canon_path False []) = Some p" "p \<noteq> []"
    using assms by (auto simp: validate_managed_file_path_def canon_empty split: option.splits if_splits)
  obtain ns where ns: "valid_names ns" "p = canon_path False ns"
    using managed_parts_canon[OF _ _ r(1)] components_Normal_valid by (fastforce simp: valid_names_def)
  have "components p = map Normal ns"
    using components_canon[of ns False] ns by (simp add: canon_comps_def valid_names_def)
  then have "managed_parts (components p) [] = Some p"
    using managed_parts_names[of "[]" ns] ns by (simp add: canon_empty valid_names_def)
  then show "validate_managed_relative_path p = Inr p" "validate_managed_file_path p = Inr p"
    using r(2) by (simp_all add: validate_managed_relative_path_def validate_managed_file_path_def)
qed

section \<open>Lemmas on merging\<close>

lemma bt_entries: "bt_inv m \<Longrightarrow> map (\<lambda>k. (k, the (bt_get m k))) (map fst m) = m"
proof -
  assume m: "bt_inv m"
  have "map ((\<lambda>k. (k, the (bt_get m k))) \<circ> fst) m = map (\<lambda>e. e) m"
    using bt_get_Some_iff[OF m] by (intro map_cong) (auto, metis option.sel)
  then show ?thesis by simp
qed

lemma bt_ext:
  assumes "bt_inv a" "bt_inv b" "bt_get a = bt_get b"
  shows "a = b"
proof -
  have "set (map fst a) = set (map fst b)" using assms(3) bt_keys_dom unfolding bt_keys_def by metis
  with assms(1,2) have "map fst a = map fst b" 
    unfolding bt_inv_def by (metis strict_sorted_iff sorted_distinct_set_unique)
  then show ?thesis using bt_entries assms by metis
qed

text \<open>The entries that a set of inline files stands for, in order.\<close>

fun inline_entries :: "(string \<Rightarrow> string) \<Rightarrow> (string, managed_file_input) btree \<Rightarrow> rebuild_error + (string \<times> file_info) list" where
  "inline_entries hash [] = Inr []"
| "inline_entries hash ((path, file) # files) =
     (case validate_managed_file_path path of
        Inl e \<Rightarrow> Inl e
      | Inr p \<Rightarrow>
          (case normalize_managed_file_mode (mode_or_default file) of
             Inl e \<Rightarrow> Inl e
           | Inr mode \<Rightarrow> map_sum id (\<lambda>es. (p, inline_file hash file mode) # es) (inline_entries hash files)))"

lemma map_sum_Inr_iff: "map_sum f g x = Inr y \<longleftrightarrow> (\<exists>z. x = Inr z \<and> y = g z)"
  by (cases x) auto

lemma merge_files_entries:
  "merge_files hash files m = map_sum id (\<lambda>es. fold (\<lambda>(p, i). bt_insert p i) es m) (inline_entries hash files)"
proof (induction files arbitrary: m)
  case (Cons f files)
  show ?case
    by (cases f) (simp add: Cons.IH sum.map_comp o_def split: sum.split)
qed simp

lemma inline_entries_ok:
  assumes "inline_entries hash files = Inr es" "(p, i) \<in> set es"
  shows "validate_managed_relative_path p = Inr p \<and> fi_text i \<noteq> None
    \<and> (\<exists>n\<le>0xFFF. fi_mode i = octal4 n \<and> parse_mode_string (fi_mode i) = Inr (of_nat n))"
  using assms
proof (induction files arbitrary: es)
  case (Cons f files)
  obtain path input where f: "f = (path, input)" by fastforce
  obtain q mode es' where q: "validate_managed_file_path path = Inr q" "normalize_managed_file_mode (mode_or_default input) = Inr mode"
    "inline_entries hash files = Inr es'" "es = (q, inline_file hash input mode) # es'"
    using Cons.prems(1) by (cases "inline_entries hash files") (auto simp: f split: sum.splits)
  show ?case
  proof (cases "(p, i) \<in> set es'")
    case False
    then have "p = q" "i = inline_file hash input mode" using Cons.prems(2) q(4) by auto
    then show ?thesis using managed_path_fixed(1)[OF q(1)] normalize_mode_cases[OF q(2)] by (simp add: inline_file_def)
  qed (use Cons.IH q(3) in blast)
qed simp

lemma bt_get_fold: "bt_get (fold (\<lambda>(p, i). bt_insert p i) es m) = bt_get m ++ map_of (rev es)"
proof (induction es arbitrary: m)
  case (Cons e es)
  then show ?case by (cases e) (simp add: bt_get_insert map_add_def fun_eq_iff split: option.split)
qed simp

lemma bt_inv_fold: "bt_inv m \<Longrightarrow> bt_inv (fold (\<lambda>(p, i). bt_insert p i) es m)"
  by (induction es arbitrary: m) (simp_all add: split_beta)

lemma bt_inv_filter: "bt_inv m \<Longrightarrow> bt_inv (filter P m)"
  by (simp add: bt_inv_def sorted_wrt_map sorted_wrt_filter)

lemma bt_get_filter:
  assumes "bt_inv m"
  shows "bt_get (filter (\<lambda>(_, v). P v) m) k = Option.bind (bt_get m k) (\<lambda>v. if P v then Some v else None)"
proof -
  have "bt_get (filter (\<lambda>(_, v). P v) m) k = Some v \<longleftrightarrow> Option.bind (bt_get m k) (\<lambda>v. if P v then Some v else None) = Some v" for v
    using bt_get_Some_iff[OF bt_inv_filter[OF assms]] bt_get_Some_iff[OF assms]
    by (auto simp: bind_eq_Some_conv split: if_splits)
  then show ?thesis by (metis option.exhaust)
qed

text \<open>Inline files replace the earlier inline files; merging them again changes nothing.\<close>

lemma merge_files_twice:
  assumes "bt_inv m" "merge_files hash files (filter (\<lambda>(_, info). fi_text info = None) m) = Inr m'"
  shows "bt_inv m' \<and> merge_files hash files (filter (\<lambda>(_, info). fi_text info = None) m') = Inr m'"
proof -
  let ?plain = "\<lambda>m. filter (\<lambda>(_, info). fi_text info = None) m :: (string, file_info) btree"
  obtain es where es: "inline_entries hash files = Inr es" and m': "m' = fold (\<lambda>(p, i). bt_insert p i) es (?plain m)"
    using assms(2) by (cases "inline_entries hash files") (auto simp: merge_files_entries)
  have inv: "bt_inv m'" unfolding m' by (intro bt_inv_fold bt_inv_filter assms(1))
  have inline: "map_of (rev es) k = Some i \<Longrightarrow> fi_text i \<noteq> None" for k i
    using inline_entries_ok[OF es] by (metis map_of_SomeD set_rev)
  have "fold (\<lambda>(p, i). bt_insert p i) es (?plain m') = m'"
  proof (rule bt_ext[OF bt_inv_fold[OF bt_inv_filter[OF inv]] inv], rule ext)
    fix k
    show "bt_get (fold (\<lambda>(p, i). bt_insert p i) es (?plain m')) k = bt_get m' k"
      using inline[of k] bt_get_filter[OF inv, of "\<lambda>i. fi_text i = None" k] bt_get_filter[OF assms(1), of "\<lambda>i. fi_text i = None" k]
      by (cases "bt_get m k") (auto simp: bt_get_fold m' map_add_def split: option.splits if_splits)
  qed
  then show ?thesis using inv es by (simp add: merge_files_entries)
qed

text \<open>The packages of a list whose names have not been seen, the first of each name.\<close>

fun unseen :: "string set \<Rightarrow> sys_package list \<Rightarrow> sys_package list" where
  "unseen seen [] = []"
| "unseen seen (p # ps) = (if pk_name p \<in> seen then unseen seen ps else p # unseen (insert (pk_name p) seen) ps)"

lemma push_unseen_fold:
  "fold push_unseen ps (seen, merged) = (seen \<union> pk_name ` set ps, merged @ unseen seen ps)"
  by (induction ps arbitrary: seen merged) (auto simp: push_unseen_def)

lemma unseen_sub: "p \<in> set (unseen seen ps) \<Longrightarrow> p \<in> set ps"
  by (induction ps arbitrary: seen) (auto split: if_splits)

lemma unseen_names: "pk_name ` set (unseen seen ps) = pk_name ` set ps - seen" "distinct (map pk_name (unseen seen ps))"
  by (induction ps arbitrary: seen) auto

lemma unseen_id: "distinct (map pk_name ps) \<Longrightarrow> pk_name ` set ps \<inter> seen = {} \<Longrightarrow> unseen seen ps = ps"
  by (induction ps arbitrary: seen) auto

lemma unseen_find: "n \<notin> seen \<Longrightarrow> find (\<lambda>p. pk_name p = n) (unseen seen ps) = find (\<lambda>p. pk_name p = n) ps"
  by (induction ps arbitrary: seen) auto

lemma merge_packages_eq:
  "merge_packages current resolved =
     (let boot = filter (\<lambda>p. is_boot_essential (pk_name p)) current in unseen {} boot @ unseen (pk_name ` set boot) resolved)"
  by (simp add: merge_packages_def push_unseen_fold Let_def)

lemma merge_packages_twice:
  assumes "\<forall>p\<in>set resolved. is_boot_essential (pk_name p) \<longrightarrow> pk_name p \<in> pk_name ` set current"
  shows "merge_packages (merge_packages current resolved) resolved = merge_packages current resolved"
proof -
  let ?boot = "filter (\<lambda>p. is_boot_essential (pk_name p)) current"
  let ?B = "unseen {} ?boot" and ?R = "unseen (pk_name ` set ?boot) resolved"
  have "filter (\<lambda>p. is_boot_essential (pk_name p)) ?B = ?B"
    by (intro filter_True) (auto dest: unseen_sub)
  moreover have "filter (\<lambda>p. is_boot_essential (pk_name p)) ?R = []"
  proof (intro filter_False ballI notI)
    fix p assume p: "p \<in> set ?R" "is_boot_essential (pk_name p)"
    then have "pk_name p \<notin> pk_name ` set ?boot" "p \<in> set resolved"
      using unseen_names(1)[of "pk_name ` set ?boot" resolved] unseen_sub by blast+
    then show False using assms p(2) by (force simp: image_iff)
  qed
  moreover have "unseen {} ?B = ?B" by (rule unseen_id) (simp_all add: unseen_names(2))
  moreover have "pk_name ` set ?B = pk_name ` set ?boot" using unseen_names(1)[of "{}" ?boot] by simp
  ultimately show ?thesis unfolding merge_packages_eq Let_def filter_append by simp
qed

lemma or_keep_twice: "or_keep i (or_keep i x) = or_keep i x"
  by (simp add: or_keep_def split: option.split)

lemma merge_settings_twice: "merge_settings c (merge_settings c s) = merge_settings c s" "merge_system c (merge_system c i) = merge_system c i"
  by (simp_all add: merge_settings_def merge_system_def merge_networking_def merge_graphics_def merge_security_def
      merge_logging_def merge_power_def or_keep_twice split: option.split)

lemma merge_config_cases:
  assumes "merge_config hash current config resolved = Inr m"
  obtains fs where
    "(case rc_files config of None \<Rightarrow> fs = sm_files current
      | Some files \<Rightarrow> merge_files hash files (filter (\<lambda>(_, info). fi_text info = None) (sm_files current)) = Inr fs)"
    "m = (merge_users config (current\<lparr>sm_system := merge_system config (sm_system current),
            sm_configuration := merge_settings config (sm_configuration current)\<rparr>))
        \<lparr>sm_files := fs, sm_packages := (if rc_packages config \<noteq> None \<and> resolved \<noteq> []
           then merge_packages (sm_packages current) resolved else sm_packages current)\<rparr>"
proof -
  let ?m = "merge_users config (current\<lparr>sm_system := merge_system config (sm_system current),
            sm_configuration := merge_settings config (sm_configuration current)\<rparr>)"
  have same: "sm_files ?m = sm_files current" "sm_packages ?m = sm_packages current"
    by (simp_all add: merge_users_def split: option.split)
  show ?thesis
  proof (cases "rc_files config")
    case None
    then show ?thesis using assms same by (intro that[of "sm_files current"]) (auto simp: merge_config_def Let_def)
  next
    case (Some files)
    let ?r = "merge_files hash files (filter (\<lambda>(_, info). fi_text info = None) (sm_files current))"
    obtain fs where "?r = Inr fs" using assms Some same by (cases ?r) (auto simp: merge_config_def Let_def)
    then show ?thesis using assms Some same by (intro that[of fs]) (auto simp: merge_config_def Let_def)
  qed
qed

section \<open>Reading a literal\<close>

text \<open>
  The contents of a double-quoted string as the Nix language defines them: a backslash escapes the next character, a
  dollar sign before a brace starts an interpolation (\<^const>\<open>None\<close> here, as is a quote), and a dollar sign
  takes any other plain character with it.
\<close>

definition unescaped :: "char \<Rightarrow> char" where
  "unescaped c = (if c = CHR ''n'' then CHR 0x0A else if c = CHR ''r'' then CHR 0x0D else if c = CHR ''t'' then CHR 0x09 else c)"

fun nix_unescape :: "string \<Rightarrow> string option" where
  "nix_unescape [] = Some []"
| "nix_unescape (c # cs) =
     (if c = CHR 0x22 then None
      else if c = CHR 0x5C then
        (case cs of [] \<Rightarrow> None | d # ds \<Rightarrow> map_option (\<lambda>r. unescaped d # r) (nix_unescape ds))
      else if c = CHR ''$'' then
        (case cs of
           [] \<Rightarrow> Some [c]
         | d # ds \<Rightarrow>
             if d = CHR ''{'' then None
             else if d = CHR 0x22 \<or> d = CHR 0x5C then map_option (\<lambda>r. c # r) (nix_unescape cs)
             else map_option (\<lambda>r. c # d # r) (nix_unescape ds))
      else map_option (\<lambda>r. c # r) (nix_unescape cs))"

lemma nix_unescape_escape: "nix_unescape (nix_escape v) = Some v"
proof (induction v rule: length_induct)
  case (1 v)
  then have IH: "length u < length v \<Longrightarrow> nix_unescape (nix_escape u) = Some u" for u by blast
  show ?case
  proof (cases v)
    case (Cons c cs)
    show ?thesis
    proof (cases "c = CHR ''$'' \<and> cs \<noteq> [] \<and> hd cs \<noteq> CHR ''{''")
      case True
      then obtain d ds where ds: "cs = d # ds" "d \<noteq> CHR ''{''" by (cases cs) auto
      have tl: "nix_unescape (nix_escape (d # ds)) = Some (d # ds)" "nix_unescape (nix_escape ds) = Some ds"
        using IH[of "d # ds"] IH[of ds] Cons ds by simp_all
      show ?thesis
      proof (cases "hd (nix_escape (d # ds)) = CHR 0x5C")
        case True
        moreover have "nix_escape (d # ds) \<noteq> []" by simp
        ultimately obtain e where e: "nix_escape (d # ds) = CHR 0x5C # e" by (metis list.collapse)
        have "nix_escape v = CHR ''$'' # nix_escape (d # ds)" using \<open>c = CHR ''$'' \<and> _\<close> Cons ds by simp
        then show ?thesis using \<open>c = CHR ''$'' \<and> _\<close> tl(1) Cons ds(1) unfolding e by simp
      next
        case False
        then have "nix_escape (d # ds) = d # nix_escape ds" "d \<noteq> CHR 0x22" "d \<noteq> CHR 0x5C" by (auto split: if_splits)
        then show ?thesis using True tl(2) Cons ds by simp
      qed
    next
      case False
      then show ?thesis using IH[of cs] Cons by (auto simp: unescaped_def)
    qed
  qed simp
qed

lemma merge_config_files:
  assumes "merge_config hash current config resolved = Inr m" "rc_files config = Some files"
  shows "\<exists>es. inline_entries hash files = Inr es
    \<and> sm_files m = fold (\<lambda>(p, i). bt_insert p i) es (filter (\<lambda>(_, info). fi_text info = None) (sm_files current))"
  by (rule merge_config_cases[OF assms(1)]) (use assms(2) in \<open>auto simp: merge_files_entries map_sum_Inr_iff\<close>)

lemma merged_inline:
  assumes "bt_inv (sm_files current)" "merge_config hash current config resolved = Inr m" "rc_files config = Some files"
    and "bt_get (sm_files m) path = Some info" "fi_text info \<noteq> None"
  shows "validate_managed_relative_path path = Inr path \<and> (\<exists>n\<le>0xFFF. parse_mode_string (fi_mode info) = Inr (of_nat n))"
proof -
  obtain es where es: "inline_entries hash files = Inr es"
    and fs: "sm_files m = fold (\<lambda>(p, i). bt_insert p i) es (filter (\<lambda>(_, i). fi_text i = None) (sm_files current))"
    using merge_config_files[OF assms(2,3)] by blast
  have "bt_get (filter (\<lambda>(_, i). fi_text i = None) (sm_files current)) path \<noteq> Some info"
    using bt_get_filter[OF assms(1), of "\<lambda>i. fi_text i = None" path] assms(5) by (auto simp: bind_eq_Some_conv split: if_splits)
  then have "map_of (rev es) path = Some info" using assms(4) by (auto simp: fs bt_get_fold map_add_Some_iff)
  then have "(path, info) \<in> set es" by (metis map_of_SomeD set_rev)
  from inline_entries_ok[OF es this] show ?thesis by blast
qed

section \<open>An example\<close>

definition no_config :: rebuild_config where
  "no_config = \<lparr>rc_hostname = None, rc_timezone = None, rc_packages = None, rc_networking = None, rc_graphics = None,
     rc_security = None, rc_logging = None, rc_power = None, rc_users = None, rc_programs = None, rc_files = None,
     rc_hardware = None, rc_services = None, rc_package_sources = None, rc_system_source = None\<rparr>"

definition motd_inputs :: "(string, managed_file_input) btree" where
  "motd_inputs = [(''etc//motd'', \<lparr>mf_text = ''hi'', mf_mode = Some ''0600''\<rparr>)]"

definition motd_config :: rebuild_config where
  "motd_config = no_config\<lparr>rc_hostname := Some ''box'', rc_packages := Some [''rg''], rc_files := Some motd_inputs\<rparr>"

definition rg :: sys_package where
  "rg = \<lparr>pk_name = ''rg'', pk_version = ''1'', pk_store_path = ''/nix/store/rg''\<rparr>"

definition ion :: sys_package where
  "ion = \<lparr>pk_name = ''ion'', pk_version = ''2'', pk_store_path = ''/nix/store/ion''\<rparr>"

definition motd_system :: sys_manifest where
  "motd_system = empty_system\<lparr>sm_system := (sm_system empty_system)\<lparr>si_hostname := ''box''\<rparr>, sm_packages := [ion, rg],
     sm_files := [(''etc/motd'', \<lparr>fi_blake3 = ''h'', fi_size = 2, fi_mode = ''0600'', fi_text = Some ''hi''\<rparr>)]\<rparr>"

lemma motd_path: "validate_managed_file_path ''etc//motd'' = Inr ''etc/motd''"
  by code_simp

lemma motd_mode: "normalize_managed_file_mode ''0600'' = Inr ''0600''"
proof -
  have "trim_ws ''0600'' = ''0600''" by (rule trim_graphic) (simp_all add: graphic_def byte_of_def)
  moreover have "octal4 384 = ''0600''" by (simp add: octal4_def octal.simps) (simp add: char_of_def bit_0 bit_Suc)
  ultimately show ?thesis
    by (simp add: normalize_managed_file_mode_def strip_prefix_def octal_digit_def octal_value_def byte_of_def)
qed

lemma motd_files: "merge_files (\<lambda>_. ''h'') motd_inputs [] = Inr (sm_files motd_system)"
  by (simp add: motd_inputs_def mode_or_default_def motd_path motd_mode inline_file_def motd_system_def)

lemma motd_merge:
  "merge_config (\<lambda>_. ''h'') (empty_system\<lparr>sm_packages := [ion]\<rparr>) motd_config [rg] = Inr motd_system"
  by (simp add: motd_files merge_config_def motd_config_def no_config_def empty_system_def motd_system_def merge_system_def merge_settings_def
      merge_networking_def merge_graphics_def merge_security_def merge_logging_def merge_power_def merge_users_def or_keep_def
      merge_packages_eq is_boot_essential_def BOOT_ESSENTIAL_def ion_def rg_def)

section \<open>Properties\<close>



text \<open>
  Merging is idempotent: merging the same configuration and packages into its own result changes nothing, provided
  that boot-essential packages that are asked for are already part of the system.
\<close>

theorem merge_config_idempotent:
  assumes "bt_inv (sm_files current)" "merge_config hash current config resolved = Inr m"
    and "\<forall>p\<in>set resolved. is_boot_essential (pk_name p) \<longrightarrow> pk_name p \<in> pk_name ` set (sm_packages current)"
  shows "merge_config hash m config resolved = Inr m"
proof -
  obtain fs where fs: "case rc_files config of None \<Rightarrow> fs = sm_files current
      | Some files \<Rightarrow> merge_files hash files (filter (\<lambda>(_, info). fi_text info = None) (sm_files current)) = Inr fs"
    and m: "m = (merge_users config (current\<lparr>sm_system := merge_system config (sm_system current),
            sm_configuration := merge_settings config (sm_configuration current)\<rparr>))
        \<lparr>sm_files := fs, sm_packages := (if rc_packages config \<noteq> None \<and> resolved \<noteq> []
           then merge_packages (sm_packages current) resolved else sm_packages current)\<rparr>"
    by (rule merge_config_cases[OF assms(2)])
  have files: "merge_files hash files (filter (\<lambda>(_, info). fi_text info = None) fs) = Inr fs" if "rc_files config = Some files" for files
    using fs that merge_files_twice[OF assms(1)] by auto
  have parts: "sm_system m = merge_system config (sm_system current)" "sm_files m = fs"
    "sm_configuration m = merge_settings config (sm_configuration current)"
    by (simp_all add: m merge_users_def split: option.split)
  have "merge_users config (m\<lparr>sm_system := merge_system config (sm_system m), sm_configuration := merge_settings config (sm_configuration m)\<rparr>) = m"
    unfolding parts merge_settings_twice by (simp add: m merge_users_def split: option.split)
  then show ?thesis
    using files merge_packages_twice[OF assms(3)]
    by (cases "rc_files config") (auto simp: merge_config_def Let_def parts m)
qed

theorem merge_config_idempotent_witness:
  "merge_config (\<lambda>_. ''h'') motd_system motd_config [rg] = Inr motd_system"
  by (rule merge_config_idempotent[OF _ motd_merge]) (simp_all add: empty_system_def rg_def is_boot_essential_def BOOT_ESSENTIAL_def)

text \<open>
  C16: a merge that replaces packages keeps the system bootable and installs what was asked for. Each boot-essential
  package of the current system is still there, as it was, whatever the configuration asks for under its name; each
  resolved package is there under its name; no name occurs twice; and there is nothing else.
\<close>

theorem merge_packages_exact:
  assumes "merge_config hash current config resolved = Inr m" "rc_packages config \<noteq> None" "resolved \<noteq> []"
  shows "distinct (map pk_name (sm_packages m))
    \<and> (\<forall>n. find (\<lambda>p. pk_name p = n) (sm_packages m) =
         (case find (\<lambda>p. pk_name p = n) (filter (\<lambda>p. is_boot_essential (pk_name p)) (sm_packages current)) of
            Some p \<Rightarrow> Some p
          | None \<Rightarrow> find (\<lambda>p. pk_name p = n) resolved))"
proof -
  let ?boot = "filter (\<lambda>p. is_boot_essential (pk_name p)) (sm_packages current)"
  have m: "sm_packages m = unseen {} ?boot @ unseen (pk_name ` set ?boot) resolved"
    by (rule merge_config_cases[OF assms(1)]) (use assms(2,3) in \<open>simp add: merge_packages_eq Let_def\<close>)
  have find_append: "find P (xs @ ys) = (case find P xs of Some x \<Rightarrow> Some x | None \<Rightarrow> find P ys)" for P and xs ys :: "sys_package list"
    by (induction xs) auto
  have "find (\<lambda>p. pk_name p = n) (unseen (pk_name ` set ?boot) resolved) = find (\<lambda>p. pk_name p = n) resolved"
    if "find (\<lambda>p. pk_name p = n) ?boot = None" for n
    using that by (intro unseen_find) (auto simp: find_None_iff)
  then show ?thesis
    using unseen_names[of "{}" ?boot] unseen_names[of "pk_name ` set ?boot" resolved]
    by (auto simp: m find_append unseen_find split: option.split)
qed

theorem merge_packages_exact_witness:
  "distinct (map pk_name (sm_packages motd_system))
    \<and> (\<forall>n. find (\<lambda>p. pk_name p = n) (sm_packages motd_system) =
         (case find (\<lambda>p. pk_name p = n) [ion] of Some p \<Rightarrow> Some p | None \<Rightarrow> find (\<lambda>p. pk_name p = n) [rg]))"
  using merge_packages_exact[OF motd_merge]
  by (simp add: motd_config_def empty_system_def ion_def is_boot_essential_def BOOT_ESSENTIAL_def)

text \<open>
  C34: what a rebuild calls a change. After a merge, no change is reported exactly if the result differs from the current
  manifest at most in the graphics section, in the table of groups and in package versions. So a configuration that only
  changes the graphics settings is taken for no change.
\<close>

theorem no_manifest_changes_iff:
  assumes "merge_config hash current config resolved = Inr m"
  shows "\<not> has_manifest_changes current m \<longleftrightarrow>
    (\<exists>gfx groups packages.
       m = current\<lparr>sm_configuration := (sm_configuration current)\<lparr>cf_graphics := gfx\<rparr>, sm_groups := groups, sm_packages := packages\<rparr>
       \<and> map (\<lambda>p. (pk_name p, pk_store_path p)) packages = map (\<lambda>p. (pk_name p, pk_store_path p)) (sm_packages current))"
  (is "?lhs \<longleftrightarrow> ?rhs")
proof
  obtain fs ps where m: "m = (merge_users config (current\<lparr>sm_system := merge_system config (sm_system current),
      sm_configuration := merge_settings config (sm_configuration current)\<rparr>))\<lparr>sm_files := fs, sm_packages := ps\<rparr>"
    by (rule merge_config_cases[OF assms]) blast
  have rest: "sm_system m = (sm_system current)\<lparr>si_hostname := si_hostname (sm_system m), si_timezone := si_timezone (sm_system m)\<rparr>"
    "m = current\<lparr>sm_system := sm_system m, sm_configuration := sm_configuration m, sm_users := sm_users m, sm_groups := sm_groups m,
      sm_files := sm_files m, sm_packages := sm_packages m\<rparr>"
    "sm_configuration m = (sm_configuration current)\<lparr>cf_networking := cf_networking (sm_configuration m),
      cf_graphics := cf_graphics (sm_configuration m), cf_security := cf_security (sm_configuration m),
      cf_logging := cf_logging (sm_configuration m), cf_power := cf_power (sm_configuration m)\<rparr>"
    by (simp_all add: m merge_users_def merge_system_def merge_settings_def split: option.split)
  assume no: ?lhs
  show ?rhs
  proof (intro exI conjI)
    note eqs = no[unfolded has_manifest_changes_def Let_def, simplified]
    have "sm_system m = sm_system current" using eqs rest(1) by (cases "sm_system current") auto
    moreover have "sm_configuration m = (sm_configuration current)\<lparr>cf_graphics := cf_graphics (sm_configuration m)\<rparr>"
      using eqs rest(3) by (cases "sm_configuration current") auto
    ultimately show "m = current\<lparr>sm_configuration := (sm_configuration current)\<lparr>cf_graphics := cf_graphics (sm_configuration m)\<rparr>,
        sm_groups := sm_groups m, sm_packages := sm_packages m\<rparr>"
      using eqs rest(2) by (cases current) auto
  qed (use no in \<open>simp add: has_manifest_changes_def Let_def\<close>)
next
  assume ?rhs
  then show ?lhs by (auto simp: has_manifest_changes_def Let_def)
qed

theorem no_manifest_changes_iff_witness:
  "\<exists>m. merge_config (\<lambda>_. ''h'') empty_system (no_config\<lparr>rc_graphics := Some \<lparr>gfx_enable = Some True, gfx_resolution = None\<rparr>\<rparr>) [] = Inr m
     \<and> m \<noteq> empty_system \<and> \<not> has_manifest_changes empty_system m"
proof -
  let ?c = "no_config\<lparr>rc_graphics := Some \<lparr>gfx_enable = Some True, gfx_resolution = None\<rparr>\<rparr>"
  let ?m = "empty_system\<lparr>sm_configuration := (sm_configuration empty_system)\<lparr>cf_graphics := \<lparr>gc_enabled = True, gc_resolution = []\<rparr>\<rparr>\<rparr>"
  have m: "merge_config (\<lambda>_. ''h'') empty_system ?c [] = Inr ?m"
    by (simp add: merge_config_def no_config_def empty_system_def merge_system_def merge_settings_def
      merge_networking_def merge_graphics_def merge_security_def merge_logging_def merge_power_def merge_users_def or_keep_def)
  moreover have "\<not> has_manifest_changes empty_system ?m"
    unfolding no_manifest_changes_iff[OF m] by (rule exI[of _ "\<lparr>gc_enabled = True, gc_resolution = []\<rparr>"], rule exI[of _ "[]"],
      rule exI[of _ "[]"]) (simp add: empty_system_def)
  moreover have "?m \<noteq> empty_system" by (simp add: empty_system_def)
  ultimately show ?thesis by blast
qed

text \<open>
  C40: a string literal written into a Nix expression reads back as the string, whatever it contains: nothing in it ends the
  literal, starts an interpolation or is taken for another escape.
\<close>

theorem nix_literal_roundtrip:
  "\<exists>body. nix_string_literal v = CHR 0x22 # body @ [CHR 0x22] \<and> nix_unescape body = Some v"
  using nix_unescape_escape by (auto simp: nix_string_literal_def)

end
