(* ===== verification/Install.thy ===== *)
theory Install
  imports Rebuild_Config
begin

text \<open>
  Package installation (\<^verbatim>\<open>snix-redox/src/install.rs\<close>) from a binary cache
  (\<^verbatim>\<open>cache_source.rs\<close>, and the index reader of \<^verbatim>\<open>local_cache.rs\<close>), on Redox. The HTTP
  client, the narinfo parser, the decompressors, the digest and the JSON codecs are parameters. A raw archive is its
  bytes; decoding gives the tree that the NAR reader delivers, with its read errors, and the digest of the bytes read.
  What the commands print is left out.
\<close>

section \<open>Binary caches\<close>

record nar_info =
  nr_url :: string
  nr_compression :: "string option"
  nr_nar_hash :: bytes
  nr_nar_size :: u64
  nr_references :: "string list"
  nr_signatures :: "string list"

datatype decoder = Plain | Zstd | Xz | Bzip2

datatype install_error =
    PackageNotFound string
  | NotInstalled string
  | InvalidStorePath string
  | CacheIo io_kind
  | HttpStatus int
  | BadIndex
  | BadNarInfo
  | UnsupportedCompression string
  | NarHashMismatch bytes bytes
  | InstIo io_kind
  | InstDb path_info_error
  | InstGc gc_error

record installed_package =
  ip_name :: string
  ip_pname :: string
  ip_version :: string
  ip_store_path :: string
  ip_binaries :: "string list"

record profile_manifest =
  prof_version :: u32
  prof_packages :: "(string, installed_package) btree"

text \<open>
  \<open>in_send\<close> is a request of the HTTP client: the status and the body, if there is an answer; \<open>in_lower_hex\<close> encodes
  bytes as hexadecimal digits.
\<close>

record 'w install_fs = "'w sys_fs" +
  in_std :: "'w std_fs"
  in_send :: "string \<Rightarrow> 'w \<Rightarrow> (int \<times> string) option"
  in_decode_index :: "string \<Rightarrow> package_index option"
  in_parse_narinfo :: "string \<Rightarrow> nar_info option"
  in_decode_nar :: "decoder \<Rightarrow> string \<Rightarrow> io_kind + ((io_kind + nar_node) \<times> bytes)"
  in_lower_hex :: "bytes \<Rightarrow> string"
  in_decode_profile :: "string \<Rightarrow> profile_manifest option"
  in_encode_profile :: "profile_manifest \<Rightarrow> string"
  in_encode_add :: "string \<Rightarrow> string \<Rightarrow> manifest_entry list \<Rightarrow> string"
  in_encode_remove :: "string \<Rightarrow> string"
  in_encode_notice :: "string \<Rightarrow> string \<Rightarrow> manifest_entry list \<Rightarrow> string"

type_synonym ('w, 'a) inst = "('w, install_error, 'a) eio"

definition ensure_http_success :: "int \<Rightarrow> install_error + unit" where
  "ensure_http_success status_code = (if 200 \<le> status_code \<and> status_code < 300 then Inr () else Inl (HttpStatus status_code))"

text \<open>The body of a successful answer; \<open>http_get_text\<close> also needs it to be text.\<close>

definition http_get :: "('w, 'x) install_fs_scheme \<Rightarrow> string \<Rightarrow> 'w \<Rightarrow> install_error + string" where
  "http_get fs url w =
     (case in_send fs url w of
        None \<Rightarrow> Inl (CacheIo (OtherIo 0))
      | Some (status_code, body) \<Rightarrow> map_sum id (\<lambda>_. body) (ensure_http_success status_code))"

definition http_get_text :: "('w, 'x) install_fs_scheme \<Rightarrow> string \<Rightarrow> 'w \<Rightarrow> install_error + string" where
  "http_get_text fs url w =
     (case http_get fs url w of
        Inl e \<Rightarrow> Inl e
      | Inr body \<Rightarrow> if utf8_valid body then Inr body else Inl (CacheIo InvalidData))"

definition read_cache_file :: "('w, 'x) install_fs_scheme \<Rightarrow> path_buf \<Rightarrow> 'w \<Rightarrow> install_error + string" where
  "read_cache_file fs p w = map_sum CacheIo id (dbf_read fs p w)"

definition read_index :: "('w, 'x) install_fs_scheme \<Rightarrow> cache_source \<Rightarrow> 'w \<Rightarrow> install_error + package_index" where
  "read_index fs source w =
     (case (case source of
              Local path \<Rightarrow> read_cache_file fs (path_join path ''packages.json'') w
            | Remote url \<Rightarrow> http_get_text fs (url @ ''/packages.json'') w) of
        Inl e \<Rightarrow> Inl e
      | Inr body \<Rightarrow> (case in_decode_index fs body of None \<Rightarrow> Inl BadIndex | Some index \<Rightarrow> Inr index))"

text \<open>\<open>dbf_hash\<close> encodes the digest part of a store path, and is \<^const>\<open>None\<close> on anything else.\<close>

definition fetch_narinfo :: "('w, 'x) install_fs_scheme \<Rightarrow> cache_source \<Rightarrow> string \<Rightarrow> 'w \<Rightarrow> install_error + nar_info" where
  "fetch_narinfo fs source hash w =
     (case (case source of
              Local path \<Rightarrow> read_cache_file fs (path_join path (hash @ ''.narinfo'')) w
            | Remote url \<Rightarrow> http_get_text fs (url @ ''/'' @ hash @ ''.narinfo'') w) of
        Inl e \<Rightarrow> Inl e
      | Inr body \<Rightarrow> (case in_parse_narinfo fs body of None \<Rightarrow> Inl BadNarInfo | Some narinfo \<Rightarrow> Inr narinfo))"

definition open_nar :: "('w, 'x) install_fs_scheme \<Rightarrow> cache_source \<Rightarrow> nar_info \<Rightarrow> 'w \<Rightarrow> install_error + string" where
  "open_nar fs source narinfo w =
     (case source of
        Local path \<Rightarrow> map_sum CacheIo id (sf_read_bytes fs (path_join path (nr_url narinfo)) w)
      | Remote url \<Rightarrow> http_get fs (url @ ''/'' @ nr_url narinfo) w)"

definition decoder_of :: "string option \<Rightarrow> install_error + decoder" where
  "decoder_of compression =
     (case compression of
        None \<Rightarrow> Inr Plain
      | Some c \<Rightarrow>
          if c = ''none'' then Inr Plain
          else if c = ''zstd'' \<or> c = ''zst'' then Inr Zstd
          else if c = ''xz'' then Inr Xz
          else if c = ''bzip2'' \<or> c = ''bz2'' then Inr Bzip2
          else Inl (UnsupportedCompression c))"

definition open_nar_decompressed ::
  "('w, 'x) install_fs_scheme \<Rightarrow> cache_source \<Rightarrow> nar_info \<Rightarrow> 'w \<Rightarrow> install_error + (io_kind + nar_node) \<times> bytes" where
  "open_nar_decompressed fs source narinfo w =
     (case open_nar fs source narinfo w of
        Inl e \<Rightarrow> Inl e
      | Inr raw \<Rightarrow>
          (case decoder_of (nr_compression narinfo) of
             Inl e \<Rightarrow> Inl e
           | Inr d \<Rightarrow> map_sum CacheIo id (in_decode_nar fs d raw)))"

section \<open>Fetching a store path\<close>

definition verify_nar_hash :: "bytes \<Rightarrow> bytes \<Rightarrow> install_error + unit" where
  "verify_nar_hash expected actual = (if actual = expected then Inr () else Inl (NarHashMismatch expected actual))"

definition peek :: "('w \<Rightarrow> 'e + 'a) \<Rightarrow> ('w, 'e, 'a) eio" where
  "peek f = (\<lambda>w. (f w, w))"

definition register_narinfo ::
  "('w, 'x) install_fs_scheme \<Rightarrow> path_buf \<Rightarrow> string \<Rightarrow> nar_info \<Rightarrow> manifest_entry list \<Rightarrow> ('w, unit) inst" where
  "register_narinfo fs db store_path narinfo files = (\<lambda>w.
     map_err InstDb (register_path_with_files fs (sf_now fs w) db store_path (in_lower_hex fs (nr_nar_hash narinfo))
       (nr_nar_size narinfo) (nr_references narinfo) (nr_signatures narinfo) files) w)"

definition fetch_and_extract :: "('w, 'x) install_fs_scheme \<Rightarrow> string \<Rightarrow> cache_source \<Rightarrow> ('w, unit) inst" where
  "fetch_and_extract fs dest source = (\<lambda>w.
     case dbf_hash fs dest of
       None \<Rightarrow> (Inl (InvalidStorePath dest), w)
     | Some hash \<Rightarrow>
         if dbf_exists fs dest w then (Inr (), w)
         else
           bindS (map_err InstIo (ensure_store_dir fs)) (\<lambda>_.
           bindS (peek (fetch_narinfo fs source hash)) (\<lambda>narinfo.
           bindS (peek (open_nar_decompressed fs source narinfo)) (\<lambda>(archive, actual_hash).
           bindS (map_err InstIo (extract_with_manifest (std_fs_sink (in_std fs)) archive dest)) (\<lambda>manifest.
           case verify_nar_hash (nr_nar_hash narinfo) actual_hash of
             Inl e \<Rightarrow> (\<lambda>w. (Inl e, snd (gcf_remove_dir_all fs dest w)))
           | Inr _ \<Rightarrow>
               bindS (map_err InstIo (pdb_open fs)) (\<lambda>db.
               register_narinfo fs db dest narinfo manifest))))) w)"

definition register_without_extract :: "('w, 'x) install_fs_scheme \<Rightarrow> string \<Rightarrow> cache_source \<Rightarrow> ('w, unit) inst" where
  "register_without_extract fs store_path source = (\<lambda>w.
     case dbf_hash fs store_path of
       None \<Rightarrow> (Inl (InvalidStorePath store_path), w)
     | Some hash \<Rightarrow>
         bindS (peek (fetch_narinfo fs source hash)) (\<lambda>narinfo.
         bindS (map_err InstIo (pdb_open fs)) (\<lambda>db.
         register_narinfo fs db store_path narinfo [])) w)"

section \<open>The profile\<close>

definition PROFILE_DIR :: string where "PROFILE_DIR = ''/nix/var/snix/profiles/default''"
definition PROFILE_BIN :: string where "PROFILE_BIN = ''/nix/var/snix/profiles/default/bin''"
definition PROFILE_MANIFEST :: string where "PROFILE_MANIFEST = ''/nix/var/snix/profiles/default/manifest.json''"

definition profile_load :: "('w, 'x) install_fs_scheme \<Rightarrow> 'w \<Rightarrow> profile_manifest" where
  "profile_load fs w =
     (case dbf_read fs PROFILE_MANIFEST w of
        Inr content \<Rightarrow> (case in_decode_profile fs content of Some m \<Rightarrow> m | None \<Rightarrow> \<lparr>prof_version = 0, prof_packages = []\<rparr>)
      | Inl _ \<Rightarrow> \<lparr>prof_version = 1, prof_packages = []\<rparr>)"

definition profile_save :: "('w, 'x) install_fs_scheme \<Rightarrow> profile_manifest \<Rightarrow> ('w, unit) inst" where
  "profile_save fs m =
     bindS (map_err InstIo (dbf_create_dir_all fs PROFILE_DIR)) (\<lambda>_.
     map_err InstIo (dbf_write fs PROFILE_MANIFEST (in_encode_profile fs m)))"

fun list_names :: "(io_kind + string) list \<Rightarrow> io_kind + string list" where
  "list_names [] = Inr []"
| "list_names (Inl e # es) = Inl e"
| "list_names (Inr name # es) = map_sum id (\<lambda>ns. name # ns) (list_names es)"

definition list_binaries :: "('w, 'x) install_fs_scheme \<Rightarrow> path_buf \<Rightarrow> 'w \<Rightarrow> io_kind + string list" where
  "list_binaries fs bin_dir w =
     (if \<not> gcf_is_dir fs bin_dir w then Inr []
      else (case dbf_read_dir fs bin_dir w of Inl e \<Rightarrow> Inl e | Inr es \<Rightarrow> map_sum id sort (list_names es)))"

fun link_binaries ::
  "('w, 'x) install_fs_scheme \<Rightarrow> path_buf \<Rightarrow> (io_kind + string) list \<Rightarrow> string list \<Rightarrow> ('w, string list) inst" where
  "link_binaries fs bin_dir [] binaries = ret binaries"
| "link_binaries fs bin_dir (Inl e # es) binaries = fail (InstIo e)"
| "link_binaries fs bin_dir (Inr name # es) binaries =
     (let link = path_join PROFILE_BIN name in
      bindS (\<lambda>w. (if sf_is_symlink fs link w then map_err InstIo (dbf_remove_file fs link) else ret ()) w) (\<lambda>_.
      bindS (map_err InstIo (gcf_symlink fs (path_join bin_dir name) link)) (\<lambda>_.
      link_binaries fs bin_dir es (binaries @ [name]))))"

definition link_package_binaries :: "('w, 'x) install_fs_scheme \<Rightarrow> string \<Rightarrow> ('w, string list) inst" where
  "link_package_binaries fs store_path =
     bindS (map_err InstIo (dbf_create_dir_all fs PROFILE_BIN)) (\<lambda>_ w.
       let bin_dir = path_join store_path ''bin'' in
       if \<not> gcf_is_dir fs bin_dir w then (Inr [], w)
       else (case dbf_read_dir fs bin_dir w of
         Inl e \<Rightarrow> (Inl (InstIo e), w)
       | Inr es \<Rightarrow> bindS (link_binaries fs bin_dir es []) (\<lambda>binaries. ret (sort binaries)) w))"

fun unlink_binaries :: "('w, 'x) install_fs_scheme \<Rightarrow> string list \<Rightarrow> ('w, unit) inst" where
  "unlink_binaries fs [] = ret ()"
| "unlink_binaries fs (bin # bins) =
     (let link = path_join PROFILE_BIN bin in
      bindS (\<lambda>w. (if sf_is_symlink fs link w then map_err InstIo (dbf_remove_file fs link) else ret ()) w) (\<lambda>_.
      unlink_binaries fs bins))"

section \<open>Daemons\<close>

definition profiled_is_running :: "('w, 'x) install_fs_scheme \<Rightarrow> 'w \<Rightarrow> bool" where
  "profiled_is_running fs w = dbf_exists fs ''profile:default/.control'' w"

definition stored_is_running :: "('w, 'x) install_fs_scheme \<Rightarrow> 'w \<Rightarrow> bool" where
  "stored_is_running fs w = dbf_exists fs ''store:'' w"

text \<open>The metadata of a path, or nothing if the database cannot be opened or has none.\<close>

definition registered_info :: "('w, 'x) install_fs_scheme \<Rightarrow> string \<Rightarrow> 'w \<Rightarrow> path_info option \<times> 'w" where
  "registered_info fs store_path w =
     (case pdb_open fs w of
        (Inl _, w') \<Rightarrow> (None, w')
      | (Inr db, w') \<Rightarrow> ((case pdb_get fs db store_path w' of Inr info \<Rightarrow> info | Inl _ \<Rightarrow> None), w'))"

definition profiled_add :: "('w, 'x) install_fs_scheme \<Rightarrow> string \<Rightarrow> string \<Rightarrow> ('w, unit) inst" where
  "profiled_add fs name store_path = (\<lambda>w.
     case registered_info fs store_path w of (info, w') \<Rightarrow>
       map_err InstIo (dbf_write fs ''profile:default/.control''
         (in_encode_add fs name store_path (case info of Some i \<Rightarrow> pi_files i | None \<Rightarrow> []))) w')"

definition profiled_remove :: "('w, 'x) install_fs_scheme \<Rightarrow> string \<Rightarrow> ('w, unit) inst" where
  "profiled_remove fs name = map_err InstIo (dbf_write fs ''profile:default/.control'' (in_encode_remove fs name))"

definition stored_notify :: "('w, 'x) install_fs_scheme \<Rightarrow> string \<Rightarrow> string \<Rightarrow> manifest_entry list \<Rightarrow> 'w \<Rightarrow> 'w" where
  "stored_notify fs store_path nar_hash files w =
     snd (dbf_write fs ''store:.control'' (in_encode_notice fs store_path nar_hash files) w)"

section \<open>Installing and removing\<close>

definition add_gc_root :: "('w, 'x) install_fs_scheme \<Rightarrow> string \<Rightarrow> string \<Rightarrow> ('w, unit) inst" where
  "add_gc_root fs name store_path =
     bindS (map_err InstIo (roots_open fs)) (\<lambda>roots. map_err InstGc (add_root fs roots name store_path))"

definition remove_gc_root :: "('w, 'x) install_fs_scheme \<Rightarrow> string \<Rightarrow> ('w, unit) inst" where
  "remove_gc_root fs name =
     bindS (map_err InstIo (roots_open fs)) (\<lambda>roots. map_err InstGc (remove_root fs roots name))"

definition find_entry :: "('w, 'x) install_fs_scheme \<Rightarrow> cache_source \<Rightarrow> string \<Rightarrow> 'w \<Rightarrow> install_error + package_entry" where
  "find_entry fs source name w =
     (case read_index fs source w of
        Inl e \<Rightarrow> Inl e
      | Inr index \<Rightarrow>
          (case bt_get (ix_packages index) name of Some entry \<Rightarrow> Inr entry | None \<Rightarrow> Inl (PackageNotFound name)))"

definition installed :: "string \<Rightarrow> package_entry \<Rightarrow> string list \<Rightarrow> profile_manifest \<Rightarrow> profile_manifest" where
  "installed name entry binaries m =
     m\<lparr>prof_packages := bt_insert name \<lparr>ip_name = name, ip_pname = en_pname entry, ip_version = en_version entry,
        ip_store_path = en_store_path entry, ip_binaries = binaries\<rparr> (prof_packages m)\<rparr>"

text \<open>Making the binaries available: through the daemon, or by links if it is not running or refuses.\<close>

definition link_into_profile :: "('w, 'x) install_fs_scheme \<Rightarrow> string \<Rightarrow> string \<Rightarrow> ('w, string list) inst" where
  "link_into_profile fs name store_path = (\<lambda>w.
     if profiled_is_running fs w then
       (case profiled_add fs name store_path w of
          (Inr _, w') \<Rightarrow> (Inr (case list_binaries fs (path_join store_path ''bin'') w' of Inr bs \<Rightarrow> bs | Inl _ \<Rightarrow> []), w')
        | (Inl _, w') \<Rightarrow> link_package_binaries fs store_path w')
     else link_package_binaries fs store_path w)"

definition notify_stored :: "('w, 'x) install_fs_scheme \<Rightarrow> string \<Rightarrow> 'w \<Rightarrow> 'w" where
  "notify_stored fs store_path w =
     (case registered_info fs store_path w of
        (Some info, w') \<Rightarrow> stored_notify fs store_path (pi_nar_hash info) (pi_files info) w'
      | (None, w') \<Rightarrow> w')"

definition install_with_options :: "('w, 'x) install_fs_scheme \<Rightarrow> string \<Rightarrow> cache_source \<Rightarrow> bool \<Rightarrow> ('w, unit) inst" where
  "install_with_options fs name source lazily =
     bindS (peek (find_entry fs source name)) (\<lambda>entry w.
       let manifest = profile_load fs w; store_path = en_store_path entry; stored_running = stored_is_running fs w in
       if bt_get (prof_packages manifest) name \<noteq> None then (Inr (), w)
       else
         bindS (if dbf_exists fs store_path w then ret ()
             else if lazily \<and> stored_running then register_without_extract fs store_path source
             else fetch_and_extract fs store_path source) (\<lambda>_ w.
         bindS (add_gc_root fs (''profile-'' @ name) store_path) (\<lambda>_.
         bindS (link_into_profile fs name store_path) (\<lambda>binaries.
         profile_save fs (installed name entry binaries manifest)))
           (if stored_running then notify_stored fs store_path w else w)) w)"

definition install :: "('w, 'x) install_fs_scheme \<Rightarrow> string \<Rightarrow> cache_source \<Rightarrow> ('w, unit) inst" where
  "install fs name source = install_with_options fs name source False"

definition uninstall :: "('w, 'x) install_fs_scheme \<Rightarrow> string \<Rightarrow> ('w, unit) inst" where
  "uninstall fs name = (\<lambda>w.
     let manifest = profile_load fs w in
     case bt_get (prof_packages manifest) name of
       None \<Rightarrow> (Inl (NotInstalled name), w)
     | Some pkg \<Rightarrow>
         bindS (\<lambda>w.
           if profiled_is_running fs w then
             (case profiled_remove fs name w of
                (Inr _, w') \<Rightarrow> (Inr (), w')
              | (Inl _, w') \<Rightarrow> unlink_binaries fs (ip_binaries pkg) w')
           else unlink_binaries fs (ip_binaries pkg) w) (\<lambda>_ w.
         profile_save fs (manifest\<lparr>prof_packages := bt_remove name (prof_packages manifest)\<rparr>)
           (snd (remove_gc_root fs (''profile-'' @ name) w))) w)"

section \<open>Installing with dependencies\<close>

text \<open>
  The breadth-first walk over references; those of a path that is there come from the database, the others from its
  narinfo, as absolute paths. \<^const>\<open>None\<close> means that the walk never ends.
\<close>

definition fetch_missing ::
  "('w, 'x) install_fs_scheme \<Rightarrow> cache_source \<Rightarrow> path_buf \<Rightarrow> string \<Rightarrow> ('w, string list) inst" where
  "fetch_missing fs source db path = (\<lambda>w.
     let already_present = dbf_exists fs path w; already_registered = pdb_is_registered fs db path w in
     if already_present \<and> already_registered then
       (map_sum InstDb (\<lambda>info. case info of Some i \<Rightarrow> pi_references i | None \<Rightarrow> []) (pdb_get fs db path w), w)
     else
       (case dbf_hash fs path of
          None \<Rightarrow> (Inl (InvalidStorePath path), w)
        | Some hash \<Rightarrow>
            bindS (peek (fetch_narinfo fs source hash)) (\<lambda>narinfo.
            bindS (if \<not> already_present then fetch_and_extract fs path source
                   else register_narinfo fs db path narinfo []) (\<lambda>_.
            ret (nr_references narinfo))) w))"

partial_function (option) fetch_loop ::
  "('w, 'x) install_fs_scheme \<Rightarrow> cache_source \<Rightarrow> path_buf \<Rightarrow> (string, unit) btree \<Rightarrow> string list \<Rightarrow> 'w
   \<Rightarrow> ((install_error + (string, unit) btree) \<times> 'w) option" where
  "fetch_loop fs source db visited queue w =
     (case queue of
        [] \<Rightarrow> Some (Inr visited, w)
      | path # rest \<Rightarrow>
          if bt_get visited path \<noteq> None then fetch_loop fs source db visited rest w
          else
            let visited' = bt_insert path () visited in
            (case fetch_missing fs source db path w of
               (Inl e, w') \<Rightarrow> Some (Inl e, w')
             | (Inr references, w') \<Rightarrow>
                 fetch_loop fs source db visited' (rest @ filter (\<lambda>r. bt_get visited' r = None) references) w'))"

text \<open>The last step, as for a single package, but without the daemons and with the root last.\<close>

definition enter_profile :: "('w, 'x) install_fs_scheme \<Rightarrow> string \<Rightarrow> package_entry \<Rightarrow> ('w, unit) inst" where
  "enter_profile fs name entry = (\<lambda>w.
     let manifest = profile_load fs w in
     if bt_get (prof_packages manifest) name \<noteq> None then (Inr (), w)
     else
       bindS (link_package_binaries fs (en_store_path entry)) (\<lambda>binaries.
       bindS (profile_save fs (installed name entry binaries manifest)) (\<lambda>_.
       add_gc_root fs (''profile-'' @ name) (en_store_path entry))) w)"

definition install_recursive ::
  "('w, 'x) install_fs_scheme \<Rightarrow> string \<Rightarrow> cache_source \<Rightarrow> 'w \<Rightarrow> ((install_error + unit) \<times> 'w) option" where
  "install_recursive fs name source w =
     (case find_entry fs source name w of
        Inl e \<Rightarrow> Some (Inl e, w)
      | Inr entry \<Rightarrow>
          (case pdb_open fs w of
             (Inl e, w1) \<Rightarrow> Some (Inl (InstIo e), w1)
           | (Inr db, w1) \<Rightarrow>
               (case fetch_loop fs source db [] [en_store_path entry] w1 of
                  None \<Rightarrow> None
                | Some (Inl e, w2) \<Rightarrow> Some (Inl e, w2)
                | Some (Inr _, w2) \<Rightarrow> Some (enter_profile fs name entry w2))))"

end
