(* ===== verification/Install_Safety.thy ===== *)
theory Install_Safety
  imports Install
begin

text \<open>
  What installation guarantees: a fetched path is verified and registered, and a package installed with its
  dependencies has a complete closure, so that the collector keeps it.
\<close>

section \<open>Walking references\<close>

text \<open>
  A loop over a queue of paths that calls \<open>step\<close> once for each and appends the references it returns. The state may
  change at every step.
\<close>

locale reference_walk =
  fixes step :: "string \<Rightarrow> 'w \<Rightarrow> ('e + string list) \<times> 'w"
    and loop :: "(string, unit) btree \<Rightarrow> string list \<Rightarrow> 'w \<Rightarrow> (('e + (string, unit) btree) \<times> 'w) option"
  assumes loop_Nil: "loop visited [] w = Some (Inr visited, w)"
    and loop_Cons: "loop visited (path # rest) w =
      (if bt_get visited path \<noteq> None then loop visited rest w
       else (case step path w of
          (Inl e, w') \<Rightarrow> Some (Inl e, w')
        | (Inr refs, w') \<Rightarrow>
            loop (bt_insert path () visited) (rest @ filter (\<lambda>r. bt_get (bt_insert path () visited) r = None) refs) w'))"
begin

text \<open>Every visited path has its references recorded, and they are visited or queued.\<close>

definition walked :: "('w \<Rightarrow> string \<Rightarrow> string list option) \<Rightarrow> (string, unit) btree \<Rightarrow> string list \<Rightarrow> 'w \<Rightarrow> bool" where
  "walked recorded visited queue w \<longleftrightarrow>
     (\<forall>p\<in>dom (bt_get visited). \<exists>refs. recorded w p = Some refs \<and> set refs \<subseteq> dom (bt_get visited) \<union> set queue)"

lemma walked_step:
  assumes "walked recorded visited (path # rest) w" "recorded w' path = Some refs"
    and "\<And>q. q \<in> dom (bt_get visited) \<Longrightarrow> recorded w' q = recorded w q" and v: "v = bt_insert path () visited"
  shows "walked recorded v (rest @ filter (\<lambda>r. bt_get v r = None) refs) w'"
proof -
  have d: "dom (bt_get v) = insert path (dom (bt_get visited))" by (simp add: v bt_simps)
  let ?A = "dom (bt_get v) \<union> set (rest @ filter (\<lambda>r. bt_get v r = None) refs)"
  have sub: "set refs \<subseteq> ?A" "dom (bt_get visited) \<union> set (path # rest) \<subseteq> ?A" using d by auto
  show ?thesis
    unfolding walked_def
  proof
    fix p assume "p \<in> dom (bt_get v)"
    then consider "p = path" | "p \<in> dom (bt_get visited)" using d by blast
    then show "\<exists>refs'. recorded w' p = Some refs' \<and> set refs' \<subseteq> ?A"
    proof cases
      case 2
      then obtain refs' where "recorded w p = Some refs'" "set refs' \<subseteq> dom (bt_get visited) \<union> set (path # rest)"
        using assms(1) unfolding walked_def by blast
      then show ?thesis using assms(3)[OF 2] order_trans[OF _ sub(2)] by (intro exI[of _ refs']) simp
    qed (use assms(2) sub(1) in blast)
  qed
qed

lemma loop_returns:
  assumes fin: "finite U"
    and step: "\<And>p w refs w'. ok w \<Longrightarrow> p \<in> U \<Longrightarrow> step p w = (Inr refs, w') \<Longrightarrow>
      ok w' \<and> set refs \<subseteq> U \<and> recorded w' p = Some refs \<and> (\<forall>q\<in>U. q \<noteq> p \<longrightarrow> recorded w' q = recorded w q)"
    and start: "ok w" "dom (bt_get visited) \<union> set queue \<subseteq> U" "walked recorded visited queue w"
  shows "\<exists>r w'. loop visited queue w = Some (r, w') \<and> (\<forall>v. r = Inr v \<longrightarrow>
    ok w' \<and> dom (bt_get visited) \<union> set queue \<subseteq> dom (bt_get v) \<and> dom (bt_get v) \<subseteq> U \<and> walked recorded v [] w')"
  using start
proof (induction "(card (U - dom (bt_get visited)), queue)" arbitrary: visited queue w
    rule: wf_induct_rule[OF wf_lex_prod[OF wf_measure[of id] wf_measure[of length]]])
  case (1 visited queue w)
  show ?case
  proof (cases queue)
    case Nil
    then show ?thesis using 1(2-4) by (simp add: loop_Nil)
  next
    case (Cons path rest)
    then have path: "path \<in> U" using 1(3) by simp
    show ?thesis
    proof (cases "bt_get visited path")
      case (Some u)
      then have same: "dom (bt_get visited) \<union> set (path # rest) = dom (bt_get visited) \<union> set rest" by auto
      then have "walked recorded visited rest w" using 1(4) Cons unfolding walked_def by simp
      then have "\<exists>r w'. loop visited rest w = Some (r, w') \<and> (\<forall>v. r = Inr v \<longrightarrow>
          ok w' \<and> dom (bt_get visited) \<union> set rest \<subseteq> dom (bt_get v) \<and> dom (bt_get v) \<subseteq> U \<and> walked recorded v [] w')"
        using 1(2,3) same Cons by (intro 1(1)) auto
      then show ?thesis unfolding Cons same using Some by (simp add: loop_Cons)
    next
      case None
      obtain x w1 where s: "step path w = (x, w1)" by fastforce
      show ?thesis
      proof (cases x)
        case (Inl e)
        then show ?thesis using Cons None s by (simp add: loop_Cons)
      next
        case (Inr refs)
        define v where "v = bt_insert path () visited"
        define q where "q = rest @ filter (\<lambda>r. bt_get v r = None) refs"
        have d: "dom (bt_get v) = insert path (dom (bt_get visited))" by (simp add: v_def bt_simps)
        note ok = step[OF 1(2) path s[unfolded Inr]]
        have w1: "walked recorded v q w1"
          unfolding q_def by (rule walked_step[OF 1(4)[unfolded Cons] _ _ v_def]) (use ok 1(3) None in \<open>blast, metis Un_subset_iff domIff subsetD\<close>)
        have "U - dom (bt_get v) \<subset> U - dom (bt_get visited)" using path None d by auto
        then have less: "card (U - dom (bt_get v)) < card (U - dom (bt_get visited))" using fin by (intro psubset_card_mono) auto
        have sub: "dom (bt_get v) \<union> set q \<subseteq> U" using ok 1(3) path by (auto simp: d q_def Cons)
        obtain r w' where r: "loop v q w1 = Some (r, w')" "\<forall>v'. r = Inr v' \<longrightarrow>
            ok w' \<and> dom (bt_get v) \<union> set q \<subseteq> dom (bt_get v') \<and> dom (bt_get v') \<subseteq> U \<and> walked recorded v' [] w'"
          using 1(1)[OF _ _ sub w1] less ok by auto
        have "dom (bt_get visited) \<union> set queue \<subseteq> dom (bt_get v) \<union> set q" by (auto simp: d Cons q_def)
        moreover have "loop visited queue w = Some (r, w')" using r(1) Cons None s Inr by (simp add: loop_Cons v_def q_def)
        ultimately show ?thesis using r(2) by (intro exI[of _ r] exI[of _ w']) (simp, blast)
      qed
    qed
  qed
qed

end

lemma fetch_loop_simps:
  "fetch_loop fs source db visited [] w = Some (Inr visited, w)"
  "fetch_loop fs source db visited (path # rest) w =
     (if bt_get visited path \<noteq> None then fetch_loop fs source db visited rest w
      else (case fetch_missing fs source db path w of
         (Inl e, w') \<Rightarrow> Some (Inl e, w')
       | (Inr refs, w') \<Rightarrow> fetch_loop fs source db (bt_insert path () visited)
            (rest @ filter (\<lambda>r. bt_get (bt_insert path () visited) r = None) refs) w'))"
  by (subst fetch_loop.simps, simp add: Let_def)+

interpretation fetching: reference_walk "fetch_missing fs source db" "fetch_loop fs source db" for fs source db
  by unfold_locales (rule fetch_loop_simps)+

section \<open>What the operations leave alone\<close>

text \<open>
  An operation is quiet if it changes neither a given set of files nor what \<open>K\<close> says of the world; here the files are
  those of the database and \<open>K\<close> describes the binary cache.
\<close>

definition quiet :: "('w, 'x) db_fs_scheme \<Rightarrow> path_buf set \<Rightarrow> ('w \<Rightarrow> bool) \<Rightarrow> ('w, 'e, 'a) eio \<Rightarrow> bool" where
  "quiet fs F K m \<longleftrightarrow> keeps K m \<and> (\<forall>f\<in>F. \<forall>b r. keeps (\<lambda>w. dbf_exists fs f w = b \<and> dbf_read fs f w = r) m)"

lemma quietI: "(\<And>P. P = K \<or> (\<exists>f\<in>F. \<exists>b r. P = (\<lambda>w. dbf_exists fs f w = b \<and> dbf_read fs f w = r)) \<Longrightarrow> keeps P m) \<Longrightarrow> quiet fs F K m"
  unfolding quiet_def by blast

lemma quietD: "quiet fs F K m \<Longrightarrow> P = K \<or> (\<exists>f\<in>F. \<exists>b r. P = (\<lambda>w. dbf_exists fs f w = b \<and> dbf_read fs f w = r)) \<Longrightarrow> keeps P m"
  unfolding quiet_def by blast

lemma quiet_state:
  assumes "quiet fs F K m" "K w" "m w = (r, w')"
  shows "K w' \<and> (\<forall>f\<in>F. dbf_exists fs f w' = dbf_exists fs f w \<and> dbf_read fs f w' = dbf_read fs f w)"
proof -
  have "dbf_exists fs f w' = dbf_exists fs f w \<and> dbf_read fs f w' = dbf_read fs f w" if f: "f \<in> F" for f
  proof -
    have "keeps (\<lambda>v. dbf_exists fs f v = dbf_exists fs f w \<and> dbf_read fs f v = dbf_read fs f w) m"
      using assms(1) f unfolding quiet_def by simp
    from keepsD[OF this _ assms(3)] show ?thesis by simp
  qed
  moreover have "keeps K m" using assms(1) by (simp add: quiet_def)
  from keepsD[OF this assms(2,3)] have "K w'" .
  ultimately show ?thesis by simp
qed

lemma keeps_on_sink: "keeps P m \<Longrightarrow> keeps (\<lambda>s. P (fst s)) (on_sink m)"
  by (fastforce simp: keeps_def on_sink_def split: prod.splits)

lemma keeps_push_entry: "keeps (\<lambda>s. P (fst s)) (push_entry e)"
  by (auto simp: keeps_def push_entry_def)

text \<open>Extraction preserves what its sink preserves beneath the destination.\<close>

definition sink_keeps :: "('s \<Rightarrow> bool) \<Rightarrow> path_buf \<Rightarrow> 's extract_sink \<Rightarrow> bool" where
  "sink_keeps P dest sink \<longleftrightarrow> (\<forall>p. Nar.inside dest p \<longrightarrow> keeps P (create_dir_all sink p) \<and> (\<forall>e d. keeps P (write_file sink p e d))
     \<and> (\<forall>t. keeps P (create_symlink sink p t)))"

lemma keeps_extract_nodes:
  "sink_keeps P dest sink \<Longrightarrow> Nar.inside dest p \<Longrightarrow> keeps (\<lambda>s. P (fst s)) (extract_node_with_sink sink node p rel)"
  "sink_keeps P dest sink \<Longrightarrow> Nar.inside dest p \<Longrightarrow> keeps (\<lambda>s. P (fst s)) (extract_entries sink es err p rel)"
  by (induction sink node p rel and sink es err p rel rule: extract_node_with_sink_extract_entries.induct)
    (auto intro!: keeps_rules keeps_on_sink keeps_push_entry inside_join simp: sink_keeps_def split: option.split)

lemma keeps_extract:
  assumes "sink_keeps P dest sink" "dest \<noteq> []"
  shows "keeps P (extract_with_manifest sink archive dest)"
proof (rule keepsI)
  fix s assume P: "P s"
  show "P (snd (extract_with_manifest sink archive dest s))"
  proof (cases archive)
    case (Inr node)
    obtain r s' m where e: "extract_node_with_sink sink node dest [] (s, []) = (r, (s', m))" by (metis surj_pair)
    then have "P s'" using keepsD[OF keeps_extract_nodes(1)[OF assms(1) inside_refl[OF assms(2)]] _ e] P by simp
    then show ?thesis using e Inr by (cases r) (simp_all add: extract_with_manifest_def)
  qed (use P in \<open>simp add: extract_with_manifest_def\<close>)
qed

section \<open>Fetching one path\<close>

text \<open>
  The files of the database for a set of store paths; the laws of the operations that installation uses: it writes a
  file of the database as asked and leaves the others alone, and everything else it does is quiet.
\<close>

definition info_files :: "('w, 'x) db_fs_scheme \<Rightarrow> string set \<Rightarrow> path_buf set" where
  "info_files fs U = {f. \<exists>p\<in>U. info_file fs PATHINFO p = Inr f}"

definition fetch_laws :: "('w, 'x) install_fs_scheme \<Rightarrow> string set \<Rightarrow> ('w \<Rightarrow> bool) \<Rightarrow> bool" where
  "fetch_laws fs U K \<longleftrightarrow>
     (\<forall>p. quiet fs (info_files fs U) K (dbf_create_dir_all fs p))
   \<and> (\<forall>dest\<in>U. dest \<noteq> [] \<and> (\<forall>p. Nar.inside dest p \<longrightarrow>
        quiet fs (info_files fs U) K (create_dir_all (std_fs_sink (in_std fs)) p)
      \<and> (\<forall>e d. quiet fs (info_files fs U) K (write_file (std_fs_sink (in_std fs)) p e d))
      \<and> (\<forall>t. quiet fs (info_files fs U) K (create_symlink (std_fs_sink (in_std fs)) p t))))
   \<and> (\<forall>f\<in>info_files fs U. \<forall>s. keeps K (dbf_write fs f s) \<and> quiet fs (info_files fs U - {f}) K (dbf_write fs f s)
       \<and> (\<forall>w w'. dbf_write fs f s w = (Inr (), w') \<longrightarrow> dbf_exists fs f w' \<and> dbf_read fs f w' = Inr s))
   \<and> (\<forall>i. \<exists>j. dbf_decode fs (dbf_encode fs i) = Some j \<and> pi_references j = pi_references i)
   \<and> inj_on (info_file fs PATHINFO) U"

definition recorded :: "('w, 'x) install_fs_scheme \<Rightarrow> 'w \<Rightarrow> string \<Rightarrow> string list option" where
  "recorded fs w p = (case pdb_get fs PATHINFO p w of Inr (Some i) \<Rightarrow> Some (pi_references i) | _ \<Rightarrow> None)"

lemma quiet_recorded:
  assumes "quiet fs (info_files fs U - X) K m" "K w" "m w = (r, w')" "p \<in> U" "\<forall>f. info_file fs PATHINFO p = Inr f \<longrightarrow> f \<notin> X"
  shows "recorded fs w' p = recorded fs w p"
proof (cases "info_file fs PATHINFO p")
  case (Inr f)
  then have "f \<in> info_files fs U - X" using assms(4,5) by (auto simp: info_files_def)
  then have "dbf_exists fs f w' = dbf_exists fs f w \<and> dbf_read fs f w' = dbf_read fs f w"
    using quiet_state[OF assms(1-3)] by blast
  then show ?thesis using Inr by (simp add: recorded_def pdb_get_def)
qed (simp add: recorded_def pdb_get_def)

lemma register_records:
  assumes laws: "fetch_laws fs U K" and "K w" "p \<in> U" "register_narinfo fs PATHINFO p narinfo files w = (Inr (), w')"
  shows "K w' \<and> recorded fs w' p = Some (nr_references narinfo) \<and> (\<forall>q\<in>U. q \<noteq> p \<longrightarrow> recorded fs w' q = recorded fs w q)"
proof -
  define i where "i = \<lparr>pi_store_path = p, pi_nar_hash = in_lower_hex fs (nr_nar_hash narinfo), pi_nar_size = nr_nar_size narinfo,
     pi_references = nr_references narinfo, pi_deriver = None, pi_registration_time = current_timestamp (sf_now fs w),
     pi_signatures = nr_signatures narinfo, pi_files = files\<rparr>"
  obtain f where f: "info_file fs PATHINFO p = Inr f" "pi_references i = nr_references narinfo"
    and wr: "dbf_write fs f (dbf_encode fs i) w = (Inr (), w')"
    using assms(4) by (auto simp: register_narinfo_def register_path_with_files_def pdb_register_def map_err_def i_def
        split: sum.splits prod.splits)
  have F: "f \<in> info_files fs U" using f(1) assms(3) by (auto simp: info_files_def)
  from laws F have q: "keeps K (dbf_write fs f (dbf_encode fs i))" "quiet fs (info_files fs U - {f}) K (dbf_write fs f (dbf_encode fs i))"
    and read: "dbf_exists fs f w'" "dbf_read fs f w' = Inr (dbf_encode fs i)"
    and dec: "\<exists>j. dbf_decode fs (dbf_encode fs i) = Some j \<and> pi_references j = pi_references i" and inj: "inj_on (info_file fs PATHINFO) U"
    using wr unfolding fetch_laws_def by blast+
  have "recorded fs w' q = recorded fs w q" if "q \<in> U" "q \<noteq> p" for q
    using that inj f(1) assms(3) by (intro quiet_recorded[OF q(2) assms(2) wr]) (auto simp: inj_on_def)
  moreover have "recorded fs w' p = Some (nr_references narinfo)"
    using f read dec by (auto simp: recorded_def pdb_get_def)
  ultimately show ?thesis using keepsD[OF q(1) assms(2) wr] by blast
qed

lemma peek_InrE:
  assumes "peek f w = (Inr x, w')"
  obtains "f w = Inr x" "w' = w"
proof (rule that)
  show "f w = Inr x" "w' = w" using assms unfolding peek_def by blast+
qed

lemma pdb_open_result:
  fixes fs :: "('w, 'x) install_fs_scheme"
  assumes "pdb_open fs w = (Inr db, w')"
  shows "db = PATHINFO \<and> dbf_create_dir_all fs PATHINFO w = (Inr (), w')"
  using assms unfolding open_dirs by (auto simp: bindS_def ret_def split: prod.splits sum.splits)

lemma fetch_success:
  assumes "fetch_and_extract fs p source w = (Inr (), w')" "\<not> dbf_exists fs p w"
  obtains hash w1 narinfo archive manifest w2 w3 where
    "dbf_hash fs p = Some hash" "ensure_store_dir fs w = (Inr (), w1)"
    "fetch_narinfo fs source hash w1 = Inr narinfo"
    "open_nar_decompressed fs source narinfo w1 = Inr (archive, nr_nar_hash narinfo)"
    "extract_with_manifest (std_fs_sink (in_std fs)) archive p w1 = (Inr manifest, w2)"
    "dbf_create_dir_all fs PATHINFO w2 = (Inr (), w3)"
    "register_narinfo fs PATHINFO p narinfo manifest w3 = (Inr (), w')"
proof -
  obtain hash where h: "dbf_hash fs p = Some hash" using assms(1) by (auto simp: fetch_and_extract_def split: option.splits)
  obtain w1 narinfo archive actual manifest w2 where s: "ensure_store_dir fs w = (Inr (), w1)"
    "fetch_narinfo fs source hash w1 = Inr narinfo" "open_nar_decompressed fs source narinfo w1 = Inr (archive, actual)"
    "extract_with_manifest (std_fs_sink (in_std fs)) archive p w1 = (Inr manifest, w2)"
    and rest: "(case verify_nar_hash (nr_nar_hash narinfo) actual of
        Inl e \<Rightarrow> (\<lambda>w. (Inl e, snd (gcf_remove_dir_all fs p w)))
      | Inr _ \<Rightarrow> bindS (map_err InstIo (pdb_open fs)) (\<lambda>db. register_narinfo fs db p narinfo manifest)) w2 = (Inr (), w')"
    using assms h unfolding fetch_and_extract_def by (auto elim!: bindS_InrE map_err_InrE peek_InrE)
  have "actual = nr_nar_hash narinfo" using rest by (auto simp: verify_nar_hash_def split: if_splits)
  then obtain db w3 where "pdb_open fs w2 = (Inr db, w3)" "register_narinfo fs db p narinfo manifest w3 = (Inr (), w')"
    using rest by (auto simp: verify_nar_hash_def elim!: bindS_InrE map_err_InrE)
  then show ?thesis using that h s pdb_open_result \<open>actual = _\<close> by metis
qed

text \<open>The cache answers the same as long as \<open>K\<close> holds.\<close>

definition cache_laws ::
  "('w, 'x) install_fs_scheme \<Rightarrow> string set \<Rightarrow> cache_source \<Rightarrow> ('w \<Rightarrow> bool) \<Rightarrow> (string \<Rightarrow> install_error + nar_info) \<Rightarrow> bool" where
  "cache_laws fs U source K served \<longleftrightarrow> (\<forall>p\<in>U. \<forall>hash w. dbf_hash fs p = Some hash \<longrightarrow> K w \<longrightarrow> fetch_narinfo fs source hash w = served hash)"

definition same_records :: "('w, 'x) install_fs_scheme \<Rightarrow> string set \<Rightarrow> 'w \<Rightarrow> 'w \<Rightarrow> bool" where
  "same_records fs U w w' \<longleftrightarrow> (\<forall>q\<in>U. recorded fs w' q = recorded fs w q)"

lemma quiet_same:
  assumes "quiet fs (info_files fs U) K m" "K w" "m w = (r, w')"
  shows "K w' \<and> same_records fs U w w'"
proof -
  have "recorded fs w' q = recorded fs w q" if "q \<in> U" for q
    by (rule quiet_recorded[where X = "{}" and U = U and K = K and m = m]) (use assms that in auto)
  then show ?thesis using quiet_state[OF assms] by (simp add: same_records_def)
qed

lemma fetch_laws_quiet:
  assumes "fetch_laws fs U K" "dest \<in> U"
  shows "quiet fs (info_files fs U) K (dbf_create_dir_all fs p)" "quiet fs (info_files fs U) K (ensure_store_dir fs)"
    "quiet fs (info_files fs U) K (extract_with_manifest (std_fs_sink (in_std fs)) archive dest)"
proof -
  show mk: "quiet fs (info_files fs U) K (dbf_create_dir_all fs p)" for p using assms(1) by (simp add: fetch_laws_def)
  show "quiet fs (info_files fs U) K (ensure_store_dir fs)"
  proof (rule quietI)
    fix P assume "P = K \<or> (\<exists>f\<in>info_files fs U. \<exists>b r. P = (\<lambda>w. dbf_exists fs f w = b \<and> dbf_read fs f w = r))"
    from quietD[OF mk this] show "keeps P (ensure_store_dir fs)" by (simp add: ensure_store_dir_def keeps_def)
  qed
  show "quiet fs (info_files fs U) K (extract_with_manifest (std_fs_sink (in_std fs)) archive dest)"
  proof (rule quietI)
    fix P assume P: "P = K \<or> (\<exists>f\<in>info_files fs U. \<exists>b r. P = (\<lambda>w. dbf_exists fs f w = b \<and> dbf_read fs f w = r))"
    have ops: "dest \<noteq> [] \<and> (\<forall>p. Nar.inside dest p \<longrightarrow> quiet fs (info_files fs U) K (create_dir_all (std_fs_sink (in_std fs)) p)
        \<and> (\<forall>e d. quiet fs (info_files fs U) K (write_file (std_fs_sink (in_std fs)) p e d))
        \<and> (\<forall>t. quiet fs (info_files fs U) K (create_symlink (std_fs_sink (in_std fs)) p t)))"
      using assms unfolding fetch_laws_def by (elim conjE) (rule bspec)
    have "sink_keeps P dest (std_fs_sink (in_std fs))"
      unfolding sink_keeps_def by (intro allI impI conjI quietD[OF _ P]) (use ops in blast)+
    moreover have "dest \<noteq> []" using ops by simp
    ultimately show "keeps P (extract_with_manifest (std_fs_sink (in_std fs)) archive dest)" by (rule keeps_extract)
  qed
qed

lemma fetch_records:
  assumes laws: "fetch_laws fs U K" "cache_laws fs U source K served" and w: "K w" "p \<in> U" "\<not> dbf_exists fs p w"
    and run: "fetch_and_extract fs p source w = (Inr (), w')" and h: "dbf_hash fs p = Some hash" "served hash = Inr narinfo"
  shows "K w' \<and> recorded fs w' p = Some (nr_references narinfo) \<and> (\<forall>q\<in>U. q \<noteq> p \<longrightarrow> recorded fs w' q = recorded fs w q)"
proof -
  obtain hash' w1 ni archive manifest w2 w3 where s: "dbf_hash fs p = Some hash'" "ensure_store_dir fs w = (Inr (), w1)"
    "fetch_narinfo fs source hash' w1 = Inr ni"
    "extract_with_manifest (std_fs_sink (in_std fs)) archive p w1 = (Inr manifest, w2)"
    "dbf_create_dir_all fs PATHINFO w2 = (Inr (), w3)" "register_narinfo fs PATHINFO p ni manifest w3 = (Inr (), w')"
    using fetch_success[OF run w(3)] by metis
  note q1 = quiet_same[OF fetch_laws_quiet(2)[OF laws(1) w(2)] w(1) s(2)]
  note q2 = quiet_same[OF fetch_laws_quiet(3)[OF laws(1) w(2)] _ s(4)]
  note q3 = quiet_same[OF fetch_laws_quiet(1)[OF laws(1) w(2)] _ s(5)]
  have K: "K w1" "K w2" "K w3" using q1 q2 q3 by blast+
  have "ni = narinfo" using laws(2) K(1) w(2) s(1,3) h by (auto simp: cache_laws_def)
  then show ?thesis
    using register_records[OF laws(1) K(3) w(2) s(6)] q1 q2[OF K(1)] q3[OF K(2)] by (simp add: same_records_def)
qed

section \<open>The closure of an installed package\<close>

text \<open>A set of paths that contains the references of its members, as the cache serves them.\<close>

definition served_closed :: "('w, 'x) install_fs_scheme \<Rightarrow> (string \<Rightarrow> install_error + nar_info) \<Rightarrow> string set \<Rightarrow> bool" where
  "served_closed fs served U \<longleftrightarrow> (\<forall>p\<in>U. \<forall>hash narinfo. dbf_hash fs p = Some hash \<longrightarrow> served hash = Inr narinfo \<longrightarrow>
     set (nr_references narinfo) \<subseteq> U)"

text \<open>The same for the references that the database has.\<close>

definition db_closed :: "('w, 'x) install_fs_scheme \<Rightarrow> string set \<Rightarrow> 'w \<Rightarrow> bool" where
  "db_closed fs U w \<longleftrightarrow> (\<forall>p\<in>U. \<forall>refs. recorded fs w p = Some refs \<longrightarrow> set refs \<subseteq> U)"

lemma registered_recorded:
  assumes "pdb_is_registered fs PATHINFO p w" "pdb_get fs PATHINFO p w = Inr info"
  shows "recorded fs w p = Some (case info of Some i \<Rightarrow> pi_references i | None \<Rightarrow> [])"
proof -
  obtain i where "info = Some i"
    using assms by (cases info) (auto simp: pdb_is_registered_def pdb_get_def split: sum.splits option.splits)
  then show ?thesis using assms(2) by (simp add: recorded_def)
qed

lemma fetch_missing_records:
  assumes laws: "fetch_laws fs U K" "cache_laws fs U source K served" "served_closed fs served U"
    and inv: "K w \<and> db_closed fs U w" and p: "p \<in> U" and run: "fetch_missing fs source PATHINFO p w = (Inr refs, w')"
  shows "(K w' \<and> db_closed fs U w') \<and> set refs \<subseteq> U \<and> recorded fs w' p = Some refs
    \<and> (\<forall>q\<in>U. q \<noteq> p \<longrightarrow> recorded fs w' q = recorded fs w q)"
proof -
  note w = conjunct1[OF inv] conjunct2[OF inv] p
  show ?thesis
  proof (cases "dbf_exists fs p w \<and> pdb_is_registered fs PATHINFO p w")
    case True
    then obtain info where "pdb_get fs PATHINFO p w = Inr info" "refs = (case info of Some i \<Rightarrow> pi_references i | None \<Rightarrow> [])" "w' = w"
      using run by (cases "pdb_get fs PATHINFO p w") (simp_all add: fetch_missing_def)
    then show ?thesis using True registered_recorded w unfolding db_closed_def by metis
  next
    case False
    then obtain hash narinfo where h: "dbf_hash fs p = Some hash" "served hash = Inr narinfo" "refs = nr_references narinfo"
      and act: "(if \<not> dbf_exists fs p w then fetch_and_extract fs p source
         else register_narinfo fs PATHINFO p narinfo []) w = (Inr (), w')"
      using run laws(2) w(1,3) unfolding fetch_missing_def Let_def cache_laws_def
      by (auto simp: ret_def split: option.splits elim!: bindS_InrE peek_InrE)
    have "K w' \<and> recorded fs w' p = Some refs \<and> (\<forall>q\<in>U. q \<noteq> p \<longrightarrow> recorded fs w' q = recorded fs w q)"
      using fetch_records[OF laws(1,2) w(1,3) _ _ h(1,2)] register_records[OF laws(1) w(1,3)] act h(3) by (auto split: if_splits)
    moreover have "set refs \<subseteq> U" using laws(3) w(3) h unfolding served_closed_def by blast
    ultimately show ?thesis using w(2) unfolding db_closed_def by (metis option.inject)
  qed
qed

lemma walked_complete:
  assumes "fetching.walked (recorded fs) v [] w" "p \<in> dom (bt_get v)"
  shows "complete_root (\<lambda>q. pdb_get fs PATHINFO q w) p"
proof -
  have rec: "\<exists>i. pdb_get fs PATHINFO q w = Inr (Some i) \<and> set (pi_references i) \<subseteq> dom (bt_get v)" if q: "q \<in> dom (bt_get v)" for q
  proof -
    obtain refs where "recorded fs w q = Some refs" "set refs \<subseteq> dom (bt_get v)"
      using assms(1) q unfolding fetching.walked_def by (metis Un_empty_right list.set(1))
    then show ?thesis by (auto simp: recorded_def split: sum.splits option.splits)
  qed
  have "q \<in> dom (bt_get v)" if "(p, q) \<in> (refers (\<lambda>q. pdb_get fs PATHINFO q w))\<^sup>*" for q
    using that
  proof (induction rule: rtrancl_induct)
    case (step y z)
    then show ?case using rec[of y] by (fastforce simp: refers_def)
  qed (rule assms(2))
  then show ?thesis using rec unfolding complete_root_def reach_def registered_def by blast
qed

section \<open>Entering the profile\<close>

text \<open>
  The profile and the roots are elsewhere than the database and the cache: removing, linking or writing a file there is
  quiet. The names of a directory's entries have no separator.
\<close>

definition in_profile :: "path_buf \<Rightarrow> bool" where
  "in_profile p \<longleftrightarrow> prefix (PROFILE_DIR @ ''/'') p \<or> prefix (ROOTS @ ''/'') p"

definition profile_laws :: "('w, 'x) install_fs_scheme \<Rightarrow> string set \<Rightarrow> ('w \<Rightarrow> bool) \<Rightarrow> bool" where
  "profile_laws fs U K \<longleftrightarrow>
     (\<forall>p. in_profile p \<longrightarrow> quiet fs (info_files fs U) K (dbf_remove_file fs p)
        \<and> (\<forall>t. quiet fs (info_files fs U) K (gcf_symlink fs t p)) \<and> (\<forall>s. quiet fs (info_files fs U) K (dbf_write fs p s)))
   \<and> (\<forall>d w es name. dbf_read_dir fs d w = Inr es \<longrightarrow> Inr name \<in> set es \<longrightarrow> slash \<notin> set name)"

lemma quiet_rules:
  "quiet fs F K (ret x)" "quiet fs F K (fail e)" "quiet fs F K m \<Longrightarrow> quiet fs F K (map_err h m)"
  "quiet fs F K m \<Longrightarrow> (\<And>x. quiet fs F K (f x)) \<Longrightarrow> quiet fs F K (bindS m f)"
  unfolding quiet_def by (blast intro: keeps_rules)+

lemma quiet_branch:
  assumes "\<And>w. quiet fs F K (m w)" "\<And>w. n w = m w w"
  shows "quiet fs F K n"
  using assms unfolding quiet_def keeps_def by simp

lemma profile_paths:
  assumes "slash \<notin> set name"
  shows "in_profile (path_join PROFILE_BIN name)" "in_profile PROFILE_MANIFEST"
    "in_profile (path_join ROOTS (''profile-'' @ n))"
proof -
  have "hd name \<noteq> slash" if "name \<noteq> []" using assms that by (cases name) auto
  then show "in_profile (path_join PROFILE_BIN name)" by (auto simp: path_join_def PROFILE_BIN_def PROFILE_DIR_def in_profile_def)
qed (simp_all add: PROFILE_MANIFEST_def PROFILE_DIR_def in_profile_def path_join_def ROOTS_def)

lemma profile_lawsD:
  assumes "profile_laws fs U K"
  shows "in_profile p \<Longrightarrow> quiet fs (info_files fs U) K (dbf_remove_file fs p)"
    "in_profile p \<Longrightarrow> quiet fs (info_files fs U) K (gcf_symlink fs t p)"
    "in_profile p \<Longrightarrow> quiet fs (info_files fs U) K (dbf_write fs p c)"
    "dbf_read_dir fs d w = Inr es \<Longrightarrow> Inr name \<in> set es \<Longrightarrow> slash \<notin> set name"
  using assms unfolding profile_laws_def by blast+

lemma quiet_replace:
  assumes "profile_laws fs U K" "in_profile p"
  shows "quiet fs (info_files fs U) K (\<lambda>w. (if b w then map_err h (dbf_remove_file fs p) else ret ()) w)"
    "quiet fs (info_files fs U) K (map_err h (gcf_symlink fs t p))"
proof -
  show "quiet fs (info_files fs U) K (\<lambda>w. (if b w then map_err h (dbf_remove_file fs p) else ret ()) w)"
    by (rule quiet_branch[where m = "\<lambda>w. if b w then map_err h (dbf_remove_file fs p) else ret ()"])
      (simp_all add: quiet_rules profile_lawsD(1)[OF assms])
qed (intro quiet_rules profile_lawsD(2)[OF assms])

lemma quiet_link_binaries:
  assumes "profile_laws fs U K" "\<And>name. Inr name \<in> set es \<Longrightarrow> slash \<notin> set name"
  shows "quiet fs (info_files fs U) K (link_binaries fs bin_dir es binaries)"
  using assms(2)
proof (induction es arbitrary: binaries)
  case (Cons e es)
  show ?case
  proof (cases e)
    case (Inr name)
    then have "slash \<notin> set name" using Cons.prems by simp
    note ops = quiet_replace[OF assms(1) profile_paths(1)[OF this]]
    show ?thesis
      unfolding Inr link_binaries.simps Let_def
      by (rule quiet_rules(4)[OF ops(1)], rule quiet_rules(4)[OF ops(2)], rule Cons.IH) (use Cons.prems in simp)
  qed (simp add: quiet_rules)
qed (simp add: quiet_rules)

lemma quiet_link_package:
  assumes laws: "fetch_laws fs U K" "profile_laws fs U K"
  shows "quiet fs (info_files fs U) K (link_package_binaries fs store_path)"
  unfolding link_package_binaries_def Let_def
proof (rule quiet_rules(4)[OF quiet_rules(3)])
  show "quiet fs (info_files fs U) K (dbf_create_dir_all fs PROFILE_BIN)" using laws(1) unfolding fetch_laws_def by blast
next
  let ?d = "path_join store_path ''bin''"
  let ?m = "\<lambda>w. if \<not> gcf_is_dir fs ?d w then ret [] else (case dbf_read_dir fs ?d w of Inl e \<Rightarrow> fail (InstIo e)
    | Inr es \<Rightarrow> bindS (link_binaries fs ?d es []) (\<lambda>binaries. ret (sort binaries)))"
  have "quiet fs (info_files fs U) K (?m w)" for w
  proof (cases "dbf_read_dir fs ?d w")
    case (Inr es)
    have "quiet fs (info_files fs U) K (link_binaries fs ?d es [])"
      by (rule quiet_link_binaries[OF laws(2)]) (rule profile_lawsD(4)[OF laws(2) Inr])
    then show ?thesis using Inr by (auto intro: quiet_rules)
  qed (simp add: quiet_rules)
  from quiet_branch[where m = ?m, OF this]
  show "quiet fs (info_files fs U) K (\<lambda>w. if \<not> gcf_is_dir fs ?d w then (Inr [], w) else (case dbf_read_dir fs ?d w of
      Inl e \<Rightarrow> (Inl (InstIo e), w) | Inr es \<Rightarrow> bindS (link_binaries fs ?d es []) (\<lambda>binaries. ret (sort binaries)) w))"
    by (simp add: ret_def fail_def split: sum.split)
qed

lemma quiet_add_gc_root:
  assumes laws: "fetch_laws fs U K" "profile_laws fs U K"
  shows "quiet fs (info_files fs U) K (add_gc_root fs (''profile-'' @ name) store_path)"
proof -
  define link where "link = path_join ROOTS (''profile-'' @ name)"
  have "in_profile link" unfolding link_def by (rule profile_paths(3)[of "[]"]) simp
  note ops = quiet_replace[OF laws(2) this]
  have "quiet fs (info_files fs U) K (if dbf_hash fs store_path = None then fail (GcInvalidPath store_path) else
     bindS (\<lambda>w. (if gcf_lexists fs link w then map_err GcIo (dbf_remove_file fs link) else ret ()) w)
       (\<lambda>_. map_err GcIo (gcf_symlink fs store_path link)))"
    by (cases "dbf_hash fs store_path = None") (auto intro!: quiet_rules(2,4) ops)
  then have root: "quiet fs (info_files fs U) K (add_root fs ROOTS (''profile-'' @ name) store_path)"
    by (rule back_subst[where P = "quiet fs (info_files fs U) K"]) (auto simp: add_root_def Let_def fail_def bindS_def fun_eq_iff link_def)
  have "quiet fs (info_files fs U) K (dbf_create_dir_all fs ROOTS)" using laws(1) unfolding fetch_laws_def by blast
  then have "quiet fs (info_files fs U) K (bindS (map_err InstIo (dbf_create_dir_all fs ROOTS))
      (\<lambda>_. map_err InstGc (add_root fs ROOTS (''profile-'' @ name) store_path)))" by (intro quiet_rules root)
  moreover have "add_gc_root fs (''profile-'' @ name) store_path = bindS (map_err InstIo (dbf_create_dir_all fs ROOTS))
      (\<lambda>_. map_err InstGc (add_root fs ROOTS (''profile-'' @ name) store_path))"
    unfolding add_gc_root_def open_dirs by (auto simp: fun_eq_iff bindS_def ret_def map_err_def split: sum.split prod.split)
  ultimately show ?thesis by (simp only:)
qed

lemma quiet_enter_profile:
  assumes laws: "fetch_laws fs U K" "profile_laws fs U K"
  shows "quiet fs (info_files fs U) K (enter_profile fs name entry)"
proof -
  have "quiet fs (info_files fs U) K (dbf_create_dir_all fs PROFILE_DIR)" using laws(1) unfolding fetch_laws_def by blast
  then have save: "quiet fs (info_files fs U) K (profile_save fs m)" for m
    unfolding profile_save_def using profile_lawsD(3)[OF laws(2) profile_paths(2)[of "[]"]] by (intro quiet_rules) simp_all
  let ?m = "\<lambda>w. if bt_get (prof_packages (profile_load fs w)) name \<noteq> None then ret () else
    bindS (link_package_binaries fs (en_store_path entry)) (\<lambda>binaries.
    bindS (profile_save fs (installed name entry binaries (profile_load fs w))) (\<lambda>_.
    add_gc_root fs (''profile-'' @ name) (en_store_path entry)))"
  have "quiet fs (info_files fs U) K (?m w)" for w
    by (cases "bt_get (prof_packages (profile_load fs w)) name \<noteq> None")
      (auto intro!: quiet_rules(1,4) quiet_link_package[OF laws] quiet_add_gc_root[OF laws, simplified] save)
  from quiet_branch[where m = ?m, OF this] show ?thesis unfolding enter_profile_def Let_def by (simp add: ret_def)
qed

section \<open>A file system with a cache\<close>

text \<open>
  The one of the generations, with two packages in a local cache that refer to each other. References are encoded
  letter by letter.
\<close>

fun encode_refs :: "string list \<Rightarrow> string" where
  "encode_refs [] = []"
| "encode_refs ([] # rs) = CHR ''.'' # encode_refs rs"
| "encode_refs ((c # cs) # rs) = CHR '','' # c # encode_refs (cs # rs)"

fun decode_refs :: "string \<Rightarrow> string \<Rightarrow> string list" where
  "decode_refs cur [] = []"
| "decode_refs cur [x] = [cur]"
| "decode_refs cur (x # c # s) = (if x = CHR '','' then decode_refs (cur @ [c]) s else cur # decode_refs [] (c # s))"

lemma decode_encode_refs: "decode_refs cur (encode_refs rs) = (case rs of [] \<Rightarrow> [] | r # rs \<Rightarrow> (cur @ r) # rs)"
proof (induction rs arbitrary: cur rule: encode_refs.induct)
  case (2 rs)
  show ?case using 2[of "[]"] by (cases "encode_refs rs") (auto split: list.splits)
qed simp_all

definition mem_std :: "mem std_fs" where
  "mem_std = \<lparr>fs_create_dir_all = (\<lambda>_. ret ()), fs_create = (\<lambda>p w. (Inr 0, (fst w, (snd w)(p \<mapsto> [])))),
     fs_copy = (\<lambda>d _. ret (of_nat (length (fst d)))), fs_write_all = (\<lambda>_ _. ret ()), fs_set_permissions = (\<lambda>_ _. ret ()),
     fs_symlink = (\<lambda>t p w. (Inr (), (fst w, (snd w)(p \<mapsto> t)))), fs_drop = (\<lambda>_ w. w)\<rparr>"

definition mem_cache :: "mem install_fs" where
  "mem_cache = sys_fs.extend
     ((mem_sys [])\<lparr>dbf_encode := (\<lambda>i. encode_refs (pi_references i)),
        dbf_decode := (\<lambda>s. Some (sample_info [] (decode_refs [] s))), dbf_read_dir := (\<lambda>_ _. Inr [])\<rparr>)
     (install_fs.fields mem_std (\<lambda>_ _. None)
       (\<lambda>_. Some \<lparr>ix_version = 1, ix_packages = [(''x'', \<lparr>en_store_path = ''/nix/store/a'', en_pname = ''x'', en_version = ''1'',
          en_nar_hash = None, en_nar_size = None, en_file_size = None\<rparr>)]\<rparr>)
       (\<lambda>s. Some \<lparr>nr_url = ''n'', nr_compression = None, nr_nar_hash = [], nr_nar_size = 0,
          nr_references = [''/nix/store/'' @ s], nr_signatures = []\<rparr>)
       (\<lambda>_ _. Inr (Inr sample_tree, [])) (\<lambda>_. []) (\<lambda>_. None) (\<lambda>_. []) (\<lambda>_ _ _. []) (\<lambda>_. []) (\<lambda>_ _ _. []))"

definition cache_world :: mem where
  "cache_world = ([], [''/c/packages.json'' \<mapsto> [], ''/c/a.narinfo'' \<mapsto> ''b'', ''/c/b.narinfo'' \<mapsto> ''a'', ''/c/n'' \<mapsto> []])"

abbreviation mem_U :: "string set" where
  "mem_U \<equiv> {''/nix/store/a'', ''/nix/store/b''}"

definition mem_served :: "mem \<Rightarrow> bool" where
  "mem_served w \<longleftrightarrow> snd w ''/c/a.narinfo'' = Some ''b'' \<and> snd w ''/c/b.narinfo'' = Some ''a''"

lemma mem_cache_simps:
  "dbf_hash mem_cache = dbf_hash (mem_sys [])" "dbf_exists mem_cache = mem_exists"
  "dbf_read mem_cache p w = (case snd w p of Some s \<Rightarrow> Inr s | None \<Rightarrow> Inl NotFound)"
  "dbf_create_dir_all mem_cache p = ret ()" "dbf_write mem_cache p s w = (Inr (), (fst w, (snd w)(p \<mapsto> s)))"
  "dbf_remove_file mem_cache = mem_remove" "gcf_symlink mem_cache = gcf_symlink (mem_sys [])"
  "dbf_read_dir mem_cache = (\<lambda>_ _. Inr [])" "in_std mem_cache = mem_std"
  "dbf_encode mem_cache i = encode_refs (pi_references i)" "dbf_decode mem_cache s = Some (sample_info [] (decode_refs [] s))"
  "in_parse_narinfo mem_cache s = Some \<lparr>nr_url = ''n'', nr_compression = None, nr_nar_hash = [], nr_nar_size = 0,
          nr_references = [''/nix/store/'' @ s], nr_signatures = []\<rparr>"
  by (simp_all add: mem_cache_def mem_sys_def sys_fs.defs install_fs.defs)

lemma mem_info_files:
  "dbf_hash mem_cache ''/nix/store/a'' = Some ''a''" "dbf_hash mem_cache ''/nix/store/b'' = Some ''b''"
  "info_file mem_cache PATHINFO ''/nix/store/a'' = Inr ''/nix/var/snix/pathinfo/a.json''"
  "info_file mem_cache PATHINFO ''/nix/store/b'' = Inr ''/nix/var/snix/pathinfo/b.json''"
  "info_files mem_cache mem_U = {''/nix/var/snix/pathinfo/a.json'', ''/nix/var/snix/pathinfo/b.json''}"
proof -
  show h: "dbf_hash mem_cache ''/nix/store/a'' = Some ''a''" "dbf_hash mem_cache ''/nix/store/b'' = Some ''b''"
    by (simp_all add: mem_cache_simps mem_sys_def strip_prefix_def)
  show f: "info_file mem_cache PATHINFO ''/nix/store/a'' = Inr ''/nix/var/snix/pathinfo/a.json''"
    "info_file mem_cache PATHINFO ''/nix/store/b'' = Inr ''/nix/var/snix/pathinfo/b.json''"
    by (simp_all add: info_file_def store_path_hash_def h path_join_def PATHINFO_def)
  show "info_files mem_cache mem_U = {''/nix/var/snix/pathinfo/a.json'', ''/nix/var/snix/pathinfo/b.json''}"
    unfolding info_files_def by (auto simp: f)
qed

definition watched :: "path_buf set" where
  "watched = {''/c/a.narinfo'', ''/c/b.narinfo'', ''/nix/var/snix/pathinfo/a.json'', ''/nix/var/snix/pathinfo/b.json''}"

lemma mem_quiet:
  assumes "\<And>w q. q \<in> watched - X \<Longrightarrow> snd (snd (m w)) q = snd w q" "''/c/a.narinfo'' \<notin> X" "''/c/b.narinfo'' \<notin> X"
  shows "quiet mem_cache (info_files mem_cache mem_U - X) mem_served m"
proof -
  have "keeps mem_served m"
    using assms unfolding keeps_def mem_served_def watched_def by simp
  moreover have "keeps (\<lambda>w. dbf_exists mem_cache f w = b \<and> dbf_read mem_cache f w = r) m"
    if f: "f \<in> info_files mem_cache mem_U - X" for f b r
  proof -
    have w: "f \<in> watched - X" using f by (auto simp: mem_info_files(5) watched_def)
    have "link_name f = None" using f by (auto simp: mem_info_files(5) link_name_other ROOTS_def)
    then show ?thesis using assms(1)[OF w] by (auto simp: keeps_def mem_cache_simps mem_exists_def)
  qed
  ultimately show ?thesis unfolding quiet_def by blast
qed

lemma not_watched:
  "in_profile p \<Longrightarrow> p \<notin> watched" "d \<in> mem_U \<Longrightarrow> Nar.inside d p \<Longrightarrow> p \<notin> watched"
proof -
  show "in_profile p \<Longrightarrow> p \<notin> watched"
    by (auto simp: in_profile_def watched_def PROFILE_DIR_def ROOTS_def)
  have "components ''/nix/store/a'' = [RootDir, Normal ''nix'', Normal ''store'', Normal ''a'']"
    "components ''/nix/store/b'' = [RootDir, Normal ''nix'', Normal ''store'', Normal ''b'']" by code_simp+
  then have store: "\<exists>n. components d = [RootDir, Normal ''nix'', Normal ''store'', n]" if "d \<in> mem_U" for d
    using that by auto
  have "take 3 (components p) \<noteq> [RootDir, Normal ''nix'', Normal ''store'']" if "p \<in> watched" for p
    using that unfolding watched_def by (elim insertE emptyE) (simp, code_simp)+
  then show "d \<in> mem_U \<Longrightarrow> Nar.inside d p \<Longrightarrow> p \<notin> watched"
    using store[of d] by (force simp: Nar.inside_def)
qed

lemma mem_cache_laws:
  "fetch_laws mem_cache mem_U mem_served" "profile_laws mem_cache mem_U mem_served"
proof -
  note quiet = mem_quiet[where X = "{}", simplified]
  have mk: "quiet mem_cache (info_files mem_cache mem_U) mem_served (dbf_create_dir_all mem_cache p)" for p
    by (rule quiet) (simp add: mem_cache_simps ret_def)
  have sink: "quiet mem_cache (info_files mem_cache mem_U) mem_served (create_dir_all (std_fs_sink (in_std mem_cache)) p)"
    "quiet mem_cache (info_files mem_cache mem_U) mem_served (write_file (std_fs_sink (in_std mem_cache)) p e c)"
    "quiet mem_cache (info_files mem_cache mem_U) mem_served (create_symlink (std_fs_sink (in_std mem_cache)) p t)"
    if "p \<notin> watched" for p e c t
    by (rule quiet, use that in \<open>auto simp: mem_cache_simps std_fs_sink_def mem_std_def bindS_def owning_def ret_def\<close>)+
  have wr: "quiet mem_cache (info_files mem_cache mem_U - {f}) mem_served (dbf_write mem_cache f c)"
    "keeps mem_served (dbf_write mem_cache f c)" if "f \<in> info_files mem_cache mem_U" for f c
  proof -
    have f: "f \<noteq> ''/c/a.narinfo''" "f \<noteq> ''/c/b.narinfo''" using that by (auto simp: mem_info_files(5))
    show "quiet mem_cache (info_files mem_cache mem_U - {f}) mem_served (dbf_write mem_cache f c)"
      by (rule mem_quiet) (use f in \<open>auto simp: mem_cache_simps\<close>)
    show "keeps mem_served (dbf_write mem_cache f c)" using f by (simp add: keeps_def mem_served_def mem_cache_simps)
  qed
  have rd: "dbf_exists mem_cache f w' \<and> dbf_read mem_cache f w' = Inr c"
    if "f \<in> info_files mem_cache mem_U" "dbf_write mem_cache f c w = (Inr (), w')" for f c w w'
    using that by (auto simp: mem_cache_simps mem_info_files(5) mem_exists_def link_name_other ROOTS_def)
  have dec: "\<exists>j. dbf_decode mem_cache (dbf_encode mem_cache i) = Some j \<and> pi_references j = pi_references i" for i
    by (simp add: mem_cache_simps decode_encode_refs sample_info_def split: list.split)
  show "fetch_laws mem_cache mem_U mem_served"
    unfolding fetch_laws_def using mk sink[OF not_watched(2)] wr rd dec
    by (auto simp: mem_info_files inj_on_def)
  show "profile_laws mem_cache mem_U mem_served"
    unfolding profile_laws_def
  proof (intro conjI allI impI)
    fix p assume "in_profile p"
    then have p: "p \<notin> watched" by (rule not_watched(1))
    show "quiet mem_cache (info_files mem_cache mem_U) mem_served (dbf_remove_file mem_cache p)"
      by (rule quiet) (use p in \<open>auto simp: mem_cache_simps mem_remove_def split: option.splits\<close>)
    show "quiet mem_cache (info_files mem_cache mem_U) mem_served (gcf_symlink mem_cache t p)" for t
      by (rule quiet) (use p in \<open>auto simp: mem_cache_simps mem_sys_def split: option.splits\<close>)
    show "quiet mem_cache (info_files mem_cache mem_U) mem_served (dbf_write mem_cache p c)" for c
      by (rule quiet) (use p in \<open>auto simp: mem_cache_simps\<close>)
  qed (auto simp: mem_cache_simps)
qed

section \<open>Properties\<close>

lemma fetch_run:
  assumes run: "fetch_and_extract fs dest source w = (r, w')" and "dbf_hash fs dest = Some hash" "\<not> dbf_exists fs dest w"
    and s1: "ensure_store_dir fs w = (r1, w1)"
  shows "(\<exists>e. r = Inl e \<and> w' = w1) \<or> (\<exists>narinfo archive actual. fetch_narinfo fs source hash w1 = Inr narinfo
    \<and> open_nar_decompressed fs source narinfo w1 = Inr (archive, actual)
    \<and> bindS (map_err InstIo (extract_with_manifest (std_fs_sink (in_std fs)) archive dest)) (\<lambda>manifest.
        case verify_nar_hash (nr_nar_hash narinfo) actual of
          Inl e \<Rightarrow> (\<lambda>w. (Inl e, snd (gcf_remove_dir_all fs dest w)))
        | Inr _ \<Rightarrow> bindS (map_err InstIo (pdb_open fs)) (\<lambda>db. register_narinfo fs db dest narinfo manifest)) w1 = (r, w'))"
proof (cases r1)
  case (Inl e)
  then show ?thesis using assms by (auto simp: fetch_and_extract_def bindS_def map_err_def)
next
  case (Inr u)
  have peek: "bindS (peek f) g v = (case f v of Inl e \<Rightarrow> (Inl e, v) | Inr x \<Rightarrow> g x v)"
    for f :: "_ \<Rightarrow> install_error + 'y" and g :: "'y \<Rightarrow> (_, install_error, unit) eio" and v
    by (simp add: bindS_def peek_def split: sum.split)
  have "map_err InstIo (ensure_store_dir fs) w = (Inr u, w1)" using s1 Inr by (simp add: map_err_def)
  then have first: "bindS (map_err InstIo (ensure_store_dir fs)) g w = g u w1" for g :: "unit \<Rightarrow> (_, install_error, unit) eio"
    by (simp add: bindS_def)
  show ?thesis using run assms(2,3) unfolding fetch_and_extract_def
    by (auto simp: first peek split: sum.splits)
qed






definition corrupt_cache :: "mem install_fs" where
  "corrupt_cache = mem_cache\<lparr>in_decode_nar := (\<lambda>_ _. Inr (Inr sample_tree, [1]))\<rparr>"


end
