(* ===== verification/Rebuild.thy ===== *)
theory Rebuild
  imports Install_Safety
begin

text \<open>
  Rebuilding a system from its configuration (\<^verbatim>\<open>snix-redox/src/rebuild.rs\<close>): from a binary cache, from a
  system source that is built natively, or from package sources. Evaluation and builds
  (\<^verbatim>\<open>eval.rs\<close>, \<^verbatim>\<open>local_build.rs\<close>: layers over the upstream evaluator) are parameters, and so
  is the rebuild through the host bridge. \<^const>\<open>None\<close> means that an operation never returns. What the commands
  print is left out.
\<close>

section \<open>Evaluating the configuration\<close>

datatype file_kind = DirKind | FileKind | OtherKind

text \<open>
  \<open>rb_eval\<close> prints the value of an expression, if there is one without errors; \<open>rb_evaluate\<close> and
  \<open>rb_evaluate_for_build\<close> also return the derivations they have seen, of type \<open>'s\<close>, and \<open>rb_build_needed\<close>
  builds one of them and gives its outputs. \<open>rb_unquote\<close> decodes a JSON string, \<open>rb_canonicalize\<close> resolves links
  and gives the path as text.
\<close>

record ('w, 's) rebuild_fs = "'w install_fs" +
  rb_decode_config :: "string \<Rightarrow> rebuild_config option"
  rb_encode_config :: "rebuild_config \<Rightarrow> string"
  rb_encode_manifest :: "sys_manifest \<Rightarrow> string"
  rb_unquote :: "string \<Rightarrow> string option"
  rb_eval :: "string \<Rightarrow> 'w \<Rightarrow> string option"
  rb_evaluate :: "string \<Rightarrow> ('w, unit, string \<times> 's) eio"
  rb_evaluate_for_build :: "string \<Rightarrow> path_buf \<Rightarrow> ('w, unit, string \<times> 's) eio"
  rb_build_needed :: "string \<Rightarrow> 's \<Rightarrow> path_buf \<Rightarrow> ('w, unit, (string, string) btree) eio"
  rb_canonicalize :: "path_buf \<Rightarrow> 'w \<Rightarrow> io_kind + string"
  rb_pid :: string
  rb_read_dir :: "path_buf \<Rightarrow> 'w \<Rightarrow> io_kind + (io_kind + string \<times> (io_kind + file_kind)) list"
  rb_mode :: "path_buf \<Rightarrow> 'w \<Rightarrow> io_kind + u32"

definition DEFAULT_CONFIG_PATH :: string where "DEFAULT_CONFIG_PATH = ''/etc/redox-system/configuration.nix''"
definition DEFAULT_MANIFEST_PATH :: string where "DEFAULT_MANIFEST_PATH = ''/etc/redox-system/manifest.json''"
definition DEFAULT_CACHE_INDEX :: string where "DEFAULT_CACHE_INDEX = ''/nix/cache/packages.json''"

abbreviation or_default :: "'a option \<Rightarrow> 'a \<Rightarrow> 'a" where
  "or_default x d \<equiv> (case x of Some v \<Rightarrow> v | None \<Rightarrow> d)"

abbreviation rb_io :: "io_kind + 'a \<Rightarrow> rebuild_error + 'a" where
  "rb_io r \<equiv> map_sum (\<lambda>e. RebuildSys (SysIo e)) id r"

definition decode_eval_json_string :: "('w, 's, 'x) rebuild_fs_scheme \<Rightarrow> string \<Rightarrow> rebuild_error + string" where
  "decode_eval_json_string fs repr =
     (if prefix [CHR 0x22] repr \<and> suffix [CHR 0x22] repr
      then (case rb_unquote fs repr of Some s \<Rightarrow> Inr s | None \<Rightarrow> Inl ConfigInvalid)
      else Inr repr)"

definition evaluate_config :: "('w, 's, 'x) rebuild_fs_scheme \<Rightarrow> string \<Rightarrow> 'w \<Rightarrow> rebuild_error + rebuild_config" where
  "evaluate_config fs path w =
     (if suffix ''.json'' path then
        (case rb_io (dbf_read fs path w) of Inl e \<Rightarrow> Inl e | Inr content \<Rightarrow> parse_config_json (rb_decode_config fs) content)
      else if \<not> dbf_exists fs path w then Inl (ConfigMissing path)
      else
        (case rb_eval fs (''builtins.toJSON (import '' @ path @ '')'') w of
           None \<Rightarrow> Inl (EvalFailed path)
         | Some repr \<Rightarrow>
             (case decode_eval_json_string fs repr of
                Inl e \<Rightarrow> Inl e
              | Inr json_str \<Rightarrow> parse_config_json (rb_decode_config fs) json_str)))"

section \<open>Switching to the result\<close>

text \<open>The configuration file is read before the switch, which may replace it by a link, and written back after it.\<close>

definition read_active_config :: "('w, 's, 'x) rebuild_fs_scheme \<Rightarrow> string \<Rightarrow> 'w \<Rightarrow> rebuild_error + string option" where
  "read_active_config fs cfg_path w =
     (if cfg_path = DEFAULT_CONFIG_PATH then map_sum id Some (rb_io (dbf_read fs cfg_path w)) else Inr None)"

definition preserve_active_config :: "('w, 's, 'x) rebuild_fs_scheme \<Rightarrow> string \<Rightarrow> string \<Rightarrow> ('w, rebuild_error, unit) eio" where
  "preserve_active_config fs path content =
     map_err (\<lambda>e. RebuildSys (SysIo e)) (
       bindS (case path_parent path of Some parent \<Rightarrow> dbf_create_dir_all fs parent | None \<Rightarrow> ret ()) (\<lambda>_.
       bindS (\<lambda>w.
         if gcf_lexists fs path w then
           (case dbf_remove_file fs path w of
              (Inr _, w') \<Rightarrow> (Inr (), w')
            | (Inl _, w') \<Rightarrow> gcf_remove_dir_all fs path w')
         else (Inr (), w)) (\<lambda>_.
       dbf_write fs path content)))"

definition switch_to ::
  "('w, 's, 'x) rebuild_fs_scheme \<Rightarrow> string \<Rightarrow> string \<Rightarrow> sys_manifest \<Rightarrow> string option \<Rightarrow> string option \<Rightarrow> ('w, rebuild_error, unit) epio" where
  "switch_to fs tmp_path description merged gen_dir manifest_path =
     bindP (now (map_err (\<lambda>e. RebuildSys (SysIo e)) (dbf_write fs tmp_path (sf_encode fs merged)))) (\<lambda>_ w.
       case switch fs tmp_path (Some description) False gen_dir manifest_path w of
         None \<Rightarrow> None
       | Some (result, w') \<Rightarrow> Some (map_sum RebuildSys id result, snd (dbf_remove_file fs tmp_path w')))"

definition restore_config :: "('w, 's, 'x) rebuild_fs_scheme \<Rightarrow> string option \<Rightarrow> ('w, rebuild_error, unit) epio" where
  "restore_config fs preserved =
     now (case preserved of Some content \<Rightarrow> preserve_active_config fs DEFAULT_CONFIG_PATH content | None \<Rightarrow> ret ())"

definition look_sys :: "('w \<Rightarrow> sys_error + 'a) \<Rightarrow> ('w, rebuild_error, 'a) epio" where
  "look_sys f = look (\<lambda>w. map_sum RebuildSys id (f w))"

section \<open>A system built natively\<close>

definition root_file :: "('w, 's, 'x) rebuild_fs_scheme \<Rightarrow> path_buf \<Rightarrow> path_buf \<Rightarrow> 'w \<Rightarrow> rebuild_error + string \<times> file_info" where
  "root_file fs root path w =
     (case path_strip_prefix path root of
        None \<Rightarrow> Inl (BadManagedPath path)
      | Some relative \<Rightarrow>
          (case validate_managed_file_path relative of
             Inl e \<Rightarrow> Inl e
           | Inr relative \<Rightarrow>
               (case dbf_read fs path w of
                  Inl e \<Rightarrow> Inl (RebuildSys (SysIo e))
                | Inr text \<Rightarrow>
                    (case rb_mode fs path w of
                       Inl e \<Rightarrow> Inl (RebuildSys (SysIo e))
                     | Inr mode \<Rightarrow>
                         Inr (relative, \<lparr>fi_blake3 = sf_hash fs text, fi_size = of_nat (length text),
                           fi_mode = octal4 (unat (or (and mode 0xFFF) 0x80)), fi_text = Some text\<rparr>)))))"

text \<open>The directories being read, innermost first, each with the entries that are left.\<close>

type_synonym root_frame = "path_buf \<times> (io_kind + string \<times> (io_kind + file_kind)) list"

partial_function (option) root_files_loop ::
  "('w, 's, 'x) rebuild_fs_scheme \<Rightarrow> path_buf \<Rightarrow> 'w \<Rightarrow> root_frame list \<Rightarrow> (string, file_info) btree
   \<Rightarrow> (rebuild_error + (string, file_info) btree) option" where
  "root_files_loop fs root w frames files =
     (case frames of
        [] \<Rightarrow> Some (Inr files)
      | (d, []) # rest \<Rightarrow> root_files_loop fs root w rest files
      | (d, Inl e # es) # rest \<Rightarrow> Some (Inl (RebuildSys (SysIo e)))
      | (d, Inr (name, kind) # es) # rest \<Rightarrow>
          (case kind of
             Inl e \<Rightarrow> Some (Inl (RebuildSys (SysIo e)))
           | Inr DirKind \<Rightarrow>
               (case rb_read_dir fs (path_join d name) w of
                  Inl e \<Rightarrow> Some (Inl (RebuildSys (SysIo e)))
                | Inr sub \<Rightarrow> root_files_loop fs root w ((path_join d name, sub) # (d, es) # rest) files)
           | Inr FileKind \<Rightarrow>
               (case root_file fs root (path_join d name) w of
                  Inl e \<Rightarrow> Some (Inl e)
                | Inr (relative, info) \<Rightarrow> root_files_loop fs root w ((d, es) # rest) (bt_insert relative info files))
           | Inr OtherKind \<Rightarrow> Some (Inl (NotRegularFile (path_join d name)))))"

definition collect_native_root_files ::
  "('w, 's, 'x) rebuild_fs_scheme \<Rightarrow> path_buf \<Rightarrow> path_buf \<Rightarrow> (string, file_info) btree \<Rightarrow> 'w
   \<Rightarrow> (rebuild_error + (string, file_info) btree) option" where
  "collect_native_root_files fs root directory files w =
     (case rb_read_dir fs directory w of
        Inl e \<Rightarrow> Some (Inl (RebuildSys (SysIo e)))
      | Inr es \<Rightarrow> root_files_loop fs root w [(directory, es)] files)"

fun check_boot_artifacts ::
  "('w, 's, 'x) rebuild_fs_scheme \<Rightarrow> 'w \<Rightarrow> (string \<times> string option) list \<Rightarrow> rebuild_error + unit" where
  "check_boot_artifacts fs w [] = Inr ()"
| "check_boot_artifacts fs w ((name, None) # rest) = Inl (BootArtifactMissing name)"
| "check_boot_artifacts fs w ((name, Some path) # rest) =
     (if \<not> gcf_is_file fs path w then Inl (BootArtifactMissing name) else check_boot_artifacts fs w rest)"

definition load_native_system_manifest ::
  "('w, 's, 'x) rebuild_fs_scheme \<Rightarrow> rebuild_config \<Rightarrow> string \<Rightarrow> sys_manifest \<Rightarrow> 'w \<Rightarrow> (rebuild_error + sys_manifest) option" where
  "load_native_system_manifest fs config output current w =
     (case load_manifest_from fs (path_join output ''manifest.json'') w of
        Inl e \<Rightarrow> Some (Inl (RebuildSys e))
      | Inr manifest \<Rightarrow>
          if si_target (sm_system manifest) \<noteq> si_target (sm_system current)
          then Some (Inl (TargetMismatch (si_target (sm_system manifest)) (si_target (sm_system current))))
          else (case sm_boot manifest of
            None \<Rightarrow> Some (Inl NoBootArtifacts)
          | Some boot \<Rightarrow>
              (case check_boot_artifacts fs w
                  [(''kernel'', bo_kernel boot), (''initfs'', bo_initfs boot), (''bootloader'', bo_bootloader boot)] of
                 Inl e \<Rightarrow> Some (Inl e)
               | Inr _ \<Rightarrow>
                   (case (case sm_etc_source manifest of
                            Some p \<Rightarrow> Inr p
                          | None \<Rightarrow> map_sum (\<lambda>_. NoEtcSource) trim_ws (dbf_read fs (path_join output ''etc-source-path'') w)) of
                      Inl e \<Rightarrow> Some (Inl e)
                    | Inr etc_source \<Rightarrow>
                        if \<not> gcf_is_dir fs (path_join etc_source ''etc'') w then Some (Inl NoEtcSource)
                        else (case merge_config (sf_hash fs)
                            (manifest\<lparr>sm_etc_source := Some etc_source, sm_toplevel := Some output\<rparr>) config [] of
                          Inl e \<Rightarrow> Some (Inl e)
                        | Inr manifest \<Rightarrow>
                            let root_files = path_join output ''root-files'' in
                            if gcf_is_dir fs root_files w then
                              map_option (map_sum id (\<lambda>files. manifest\<lparr>sm_files := files\<rparr>))
                                (collect_native_root_files fs root_files root_files
                                  (filter (\<lambda>(path, _). \<not> prefix ''usr/lib/init.d/'' path) (sm_files manifest)) w)
                            else Some (Inr manifest))))))"

definition native_source :: "('w, 's, 'x) rebuild_fs_scheme \<Rightarrow> string \<Rightarrow> rebuild_config \<Rightarrow> 'w \<Rightarrow> rebuild_error + string" where
  "native_source fs cfg_path config w =
     (case rc_system_source config of
        None \<Rightarrow> Inl NoSystemSource
      | Some source \<Rightarrow>
          let source = (if prefix [slash] source then source
            else path_join (case path_parent cfg_path of Some d \<Rightarrow> d | None \<Rightarrow> ''.'') source) in
          map_sum (\<lambda>e. RebuildSys (SysIo e)) (\<lambda>s. case strip_prefix s ''file:'' of Some r \<Rightarrow> r | None \<Rightarrow> s)
            (rb_canonicalize fs source w))"

definition native_expression :: "('w, 's, 'x) rebuild_fs_scheme \<Rightarrow> string \<Rightarrow> rebuild_config \<Rightarrow> sys_manifest \<Rightarrow> string" where
  "native_expression fs source config current =
     ''((import (builtins.toPath '' @ nix_string_literal source @ '')) { config = builtins.fromJSON '' @
     nix_string_literal (rb_encode_config fs config) @ ''; currentManifest = builtins.fromJSON '' @
     nix_string_literal (rb_encode_manifest fs current) @ ''; }).drvPath''"

definition native_evaluation ::
  "('w, 's, 'x) rebuild_fs_scheme \<Rightarrow> string \<Rightarrow> path_buf option \<Rightarrow> string \<Rightarrow> ('w, rebuild_error, string \<times> 's) eio" where
  "native_evaluation fs source db expression =
     map_err (\<lambda>_. EvalFailed source)
       (case db of Some db \<Rightarrow> rb_evaluate_for_build fs expression db | None \<Rightarrow> rb_evaluate fs expression)"

definition rebuild_native_system ::
  "('w, 's, 'x) rebuild_fs_scheme \<Rightarrow> string \<Rightarrow> rebuild_config \<Rightarrow> bool \<Rightarrow> string \<Rightarrow> string option \<Rightarrow> ('w, rebuild_error, unit) epio" where
  "rebuild_native_system fs cfg_path config dry_run manifest_path gen_dir =
     bindP (look (native_source fs cfg_path config)) (\<lambda>source.
     bindP (look_sys (load_manifest_from fs manifest_path)) (\<lambda>current.
     bindP (look (read_active_config fs cfg_path)) (\<lambda>preserved.
     bindP (now (if dry_run then ret None
         else bindS (map_err (\<lambda>e. RebuildSys (SysIo e)) (pdb_open fs)) (\<lambda>db. ret (Some db)))) (\<lambda>db.
     bindP (now (native_evaluation fs source db (native_expression fs source config current))) (\<lambda>(drv_path, state).
     bindP (look (\<lambda>_. decode_eval_json_string fs drv_path)) (\<lambda>drv_path.
     if dbf_hash fs drv_path = None then now (fail (NotADerivation drv_path))
     else (case db of
       None \<Rightarrow> now (ret ())
     | Some db \<Rightarrow>
         bindP (now (map_err (\<lambda>_. BuildFailed drv_path) (rb_build_needed fs drv_path state db))) (\<lambda>outputs.
         case bt_get outputs ''out'' of
           None \<Rightarrow> now (fail (NoOutput drv_path))
         | Some output \<Rightarrow>
             bindP (\<lambda>w. map_option (\<lambda>r. (r, w)) (load_native_system_manifest fs config output current w)) (\<lambda>manifest.
             bindP (switch_to fs (''/tmp/snix-native-rebuild-'' @ rb_pid fs @ ''.json'') ''native system rebuild'' manifest
               gen_dir (Some manifest_path)) (\<lambda>_.
             restore_config fs preserved))))))))))"

section \<open>A rebuild from the binary cache\<close>

text \<open>A package that cannot be fetched is only reported.\<close>

fun fetch_resolved :: "('w, 's, 'x) rebuild_fs_scheme \<Rightarrow> resolved_package list \<Rightarrow> 'w \<Rightarrow> 'w" where
  "fetch_resolved fs [] w = w"
| "fetch_resolved fs (resolved # rs) w =
     (let store_path = pk_store_path (rp_package resolved) in
      fetch_resolved fs rs
        (if store_path = [] \<or> dbf_exists fs store_path w then w
         else (case rp_source resolved of
           Some source \<Rightarrow> snd (fetch_and_extract fs store_path source w)
         | None \<Rightarrow> w)))"

definition resolve_now ::
  "('w, 's, 'x) rebuild_fs_scheme \<Rightarrow> rebuild_config \<Rightarrow> string option \<Rightarrow> string option \<Rightarrow> 'w \<Rightarrow> rebuild_error + resolved_package list" where
  "resolve_now fs config cache_index_path cache_url w =
     (let cache_path = or_default cache_index_path DEFAULT_CACHE_INDEX;
          primary_cache = cache_source_for_rebuild cache_path cache_url;
          fallback_cache = (if is_remote primary_cache then Some (local_cache_source_for_rebuild cache_path) else None) in
      resolve_packages_with_fallback (\<lambda>source. case read_index fs source w of Inr index \<Rightarrow> Some index | Inl _ \<Rightarrow> None)
        (rc_packages config) primary_cache fallback_cache)"

definition rebuild ::
  "('w, 's, 'x) rebuild_fs_scheme \<Rightarrow> string option \<Rightarrow> bool \<Rightarrow> string option \<Rightarrow> string option \<Rightarrow> string option \<Rightarrow> string option
   \<Rightarrow> ('w, rebuild_error, unit) epio" where
  "rebuild fs config_path dry_run manifest_path gen_dir cache_index_path cache_url =
     (let cfg_path = or_default config_path DEFAULT_CONFIG_PATH; mpath = or_default manifest_path DEFAULT_MANIFEST_PATH in
      bindP (look (evaluate_config fs cfg_path)) (\<lambda>config.
      if rc_system_source config \<noteq> None then rebuild_native_system fs cfg_path config dry_run mpath gen_dir
      else
        bindP (look (read_active_config fs cfg_path)) (\<lambda>preserved.
        bindP (look_sys (load_manifest_from fs mpath)) (\<lambda>current.
        bindP (look (resolve_now fs config cache_index_path cache_url)) (\<lambda>resolved_packages.
        bindP (look (\<lambda>_. merge_config (sf_hash fs) current config (map rp_package resolved_packages))) (\<lambda>merged w.
        if dry_run \<or> \<not> has_manifest_changes current merged then Some (Inr (), w)
        else
          bindP (switch_to fs (''/tmp/snix-rebuild-'' @ rb_pid fs @ ''.json'') ''rebuild from configuration.nix'' merged
            gen_dir manifest_path) (\<lambda>_.
          restore_config fs preserved) (fetch_resolved fs resolved_packages w)))))))"

section \<open>A rebuild from package sources\<close>

definition attr_names :: "string \<Rightarrow> rebuild_error + string list" where
  "attr_names names_str =
     (let s = trim_ws names_str in
      if \<not> prefix ''['' s \<or> \<not> suffix '']'' s then Inl (EvalFailed s)
      else Inr (filter (\<lambda>n. n \<noteq> []) (map (trim_matches CHR 0x22) (split_ws [] (trim_ws (butlast (tl s)))))))"

fun evaluate_drv_paths :: "('w, 's, 'x) rebuild_fs_scheme \<Rightarrow> string \<Rightarrow> string list \<Rightarrow> ('w, rebuild_error, (string \<times> string) list) eio" where
  "evaluate_drv_paths fs sources_path [] = ret []"
| "evaluate_drv_paths fs sources_path (name # names) =
     bindS (map_err (\<lambda>_. EvalFailed name) (rb_evaluate fs (''(import '' @ sources_path @ '').'' @ name @ ''.drvPath''))) (\<lambda>(drv_path, _).
     bindS (evaluate_drv_paths fs sources_path names) (\<lambda>rest.
     ret ((name, trim_matches CHR 0x22 drv_path) # rest)))"

definition evaluate_package_sources :: "('w, 's, 'x) rebuild_fs_scheme \<Rightarrow> string \<Rightarrow> ('w, rebuild_error, (string \<times> string) list) eio" where
  "evaluate_package_sources fs sources_path =
     bindS (map_err (\<lambda>_. EvalFailed sources_path) (rb_evaluate fs (''builtins.attrNames (import '' @ sources_path @ '')''))) (\<lambda>(names_str, _).
     bindS (peek (\<lambda>_. attr_names names_str)) (\<lambda>names.
     evaluate_drv_paths fs sources_path names))"

fun build_each :: "('w, 's, 'x) rebuild_fs_scheme \<Rightarrow> path_buf \<Rightarrow> string \<Rightarrow> (string \<times> string) list \<Rightarrow> ('w, rebuild_error, (string \<times> string) list) eio" where
  "build_each fs db sources_path [] = ret []"
| "build_each fs db sources_path ((name, _) # packages) =
     bindS (map_err (\<lambda>_. EvalFailed name)
         (rb_evaluate_for_build fs (''(import '' @ sources_path @ '').'' @ name @ ''.drvPath'') db)) (\<lambda>(drv_path, state).
       let drv_path = trim_matches CHR 0x22 drv_path in
       if dbf_hash fs drv_path = None then fail (NotADerivation drv_path)
       else
         bindS (map_err (\<lambda>_. BuildFailed name) (rb_build_needed fs drv_path state db)) (\<lambda>outputs.
         case bt_get outputs ''out'' of
           None \<Rightarrow> fail (NoOutput name)
         | Some out \<Rightarrow> bindS (build_each fs db sources_path packages) (\<lambda>rest. ret ((name, out) # rest))))"

definition build_source_packages ::
  "('w, 's, 'x) rebuild_fs_scheme \<Rightarrow> (string \<times> string) list \<Rightarrow> string \<Rightarrow> ('w, rebuild_error, (string \<times> string) list) eio" where
  "build_source_packages fs packages sources_path =
     bindS (map_err (\<lambda>e. RebuildSys (SysIo e)) (pdb_open fs)) (\<lambda>db. build_each fs db sources_path packages)"

fun replace_or_push :: "sys_package \<Rightarrow> sys_package list \<Rightarrow> sys_package list" where
  "replace_or_push pkg [] = [pkg]"
| "replace_or_push pkg (p # ps) = (if pk_name p = pk_name pkg then pkg # ps else p # replace_or_push pkg ps)"

definition add_built :: "string \<times> string \<Rightarrow> sys_package list \<Rightarrow> sys_package list" where
  "add_built b packages =
     replace_or_push \<lparr>pk_name = fst b, pk_version = ''source'', pk_store_path = snd b\<rparr> packages"

definition essential_match :: "string \<Rightarrow> sys_package \<Rightarrow> bool" where
  "essential_match essential p \<longleftrightarrow> pk_name p = essential \<or> suffix essential (pk_name p)"

definition keep_essential :: "sys_package list \<Rightarrow> string \<Rightarrow> sys_package list \<Rightarrow> sys_package list" where
  "keep_essential current essential packages =
     (if list_ex (essential_match essential) packages then packages
      else (case find (essential_match essential) current of Some pkg \<Rightarrow> packages @ [pkg] | None \<Rightarrow> packages))"

definition merge_source_packages :: "sys_package list \<Rightarrow> (string \<times> string) list \<Rightarrow> sys_package list \<Rightarrow> sys_package list" where
  "merge_source_packages current built packages =
     fold (keep_essential current) BOOT_ESSENTIAL (fold add_built built packages)"

definition rebuild_from_source ::
  "('w, 's, 'x) rebuild_fs_scheme \<Rightarrow> string option \<Rightarrow> bool \<Rightarrow> string option \<Rightarrow> string option \<Rightarrow> string option \<Rightarrow> string option
   \<Rightarrow> ('w, rebuild_error, unit) epio" where
  "rebuild_from_source fs config_path dry_run manifest_path gen_dir cache_index_path cache_url =
     (let cfg_path = or_default config_path DEFAULT_CONFIG_PATH; mpath = or_default manifest_path DEFAULT_MANIFEST_PATH in
      bindP (look (evaluate_config fs cfg_path)) (\<lambda>config.
      if rc_system_source config \<noteq> None then rebuild_native_system fs cfg_path config dry_run mpath gen_dir
      else (case rc_package_sources config of
        None \<Rightarrow> now (fail NoPackageSources)
      | Some sources_path \<Rightarrow>
          bindP (look (\<lambda>w. if dbf_exists fs sources_path w then Inr () else Inl (SourcesMissing sources_path))) (\<lambda>_.
          bindP (now (evaluate_package_sources fs sources_path)) (\<lambda>source_packages.
          if source_packages = [] \<or> dry_run then now (ret ())
          else
            bindP (now (build_source_packages fs source_packages sources_path)) (\<lambda>built_packages.
            bindP (look_sys (load_manifest_from fs mpath)) (\<lambda>current w.
            let cache_packages = (if has_package_changes config
                then (case resolve_now fs config cache_index_path cache_url w of Inr ps \<Rightarrow> ps | Inl _ \<Rightarrow> []) else []) in
            bindP (look (\<lambda>_. merge_config (sf_hash fs) current config (map rp_package cache_packages))) (\<lambda>merged.
            switch_to fs (''/tmp/snix-source-rebuild-'' @ rb_pid fs @ ''.json'')
              (''source rebuild ('' @ decimal (length built_packages) @ '' packages from '' @ sources_path @ '')'')
              (merged\<lparr>sm_packages := merge_source_packages (sm_packages current) built_packages (sm_packages merged)\<rparr>)
              gen_dir manifest_path) (fetch_resolved fs cache_packages w))))))))"

section \<open>Choosing the way\<close>

definition auto_rebuild ::
  "('w, 's, 'x) rebuild_fs_scheme \<Rightarrow>
   (string option \<Rightarrow> bool \<Rightarrow> string option \<Rightarrow> u64 option \<Rightarrow> string option \<Rightarrow> string option \<Rightarrow> ('w, rebuild_error, unit) epio) \<Rightarrow>
   string option \<Rightarrow> bool \<Rightarrow> string option \<Rightarrow> string option \<Rightarrow> string option \<Rightarrow> string option \<Rightarrow> string option \<Rightarrow> u64 option
   \<Rightarrow> ('w, rebuild_error, unit) epio" where
  "auto_rebuild fs rebuild_via_bridge config_path dry_run manifest_path gen_dir cache_index_path cache_url shared_dir timeout =
     (let cfg_path = or_default config_path DEFAULT_CONFIG_PATH; mpath = or_default manifest_path DEFAULT_MANIFEST_PATH in
      bindP (look (evaluate_config fs cfg_path)) (\<lambda>config.
      bindP (look (\<lambda>w. select_auto_rebuild_route config
          (case load_manifest_from fs mpath w of Inr m \<Rightarrow> Some m | Inl _ \<Rightarrow> None) (bridge_available fs shared_dir w))) (\<lambda>route.
      case route of
        NativeRoute \<Rightarrow> rebuild_native_system fs cfg_path config dry_run mpath gen_dir
      | BridgeRoute \<Rightarrow> rebuild_via_bridge config_path dry_run shared_dir timeout manifest_path gen_dir
      | LocalRoute \<Rightarrow> rebuild fs config_path dry_run manifest_path gen_dir cache_index_path cache_url)))"

section \<open>Lemmas\<close>

lemma replace_or_push_set:
  "pkg \<in> set (replace_or_push pkg ps)" "p \<in> set ps \<Longrightarrow> pk_name p \<noteq> pk_name pkg \<Longrightarrow> p \<in> set (replace_or_push pkg ps)"
  "pk_name ` set (replace_or_push pkg ps) = insert (pk_name pkg) (pk_name ` set ps)"
  by (induction ps) auto

lemma fold_built:
  "pk_name ` set ps \<subseteq> pk_name ` set (fold add_built built ps)"
  "p \<in> set ps \<Longrightarrow> pk_name p \<notin> fst ` set built \<Longrightarrow> p \<in> set (fold add_built built ps)"
proof (induction built arbitrary: ps)
  case (Cons b built)
  {
    case 1
    show ?case using Cons.IH(1)[of "add_built b ps"] by (auto simp: add_built_def replace_or_push_set(3))
  next
    case 2
    then have "p \<in> set (add_built b ps)" by (auto simp: add_built_def intro: replace_or_push_set(2))
    then show ?case using Cons.IH(2) 2 by simp
  }
qed simp_all

lemma built_present:
  assumes "distinct (map fst built)" "b \<in> set built"
  shows "\<lparr>pk_name = fst b, pk_version = ''source'', pk_store_path = snd b\<rparr> \<in> set (fold add_built built ps)"
  using assms
proof (induction built arbitrary: ps)
  case (Cons c built)
  show ?case
  proof (cases "b = c")
    case True
    have "\<lparr>pk_name = fst b, pk_version = ''source'', pk_store_path = snd b\<rparr> \<in> set (add_built c ps)"
      unfolding add_built_def True by (rule replace_or_push_set(1))
    then show ?thesis using fold_built(2) Cons.prems(1) True by auto
  qed (use Cons in auto)
qed simp

lemma keep_essentials_sub: "set ps \<subseteq> set (fold (keep_essential current) es ps)"
proof (induction es arbitrary: ps)
  case (Cons e es)
  have "set ps \<subseteq> set (keep_essential current e ps)" by (auto simp: keep_essential_def split: option.split)
  then show ?case using Cons[of "keep_essential current e ps"] by auto
qed simp

lemma merge_keeps_essentials:
  assumes "merge_config hash current config resolved = Inr m" "p \<in> set (sm_packages current)" "is_boot_essential (pk_name p)"
  shows "pk_name p \<in> pk_name ` set (sm_packages m)"
proof (rule merge_config_cases[OF assms(1)])
  fix files
  assume m: "m = (merge_users config (current\<lparr>sm_system := merge_system config (sm_system current),
            sm_configuration := merge_settings config (sm_configuration current)\<rparr>))
        \<lparr>sm_files := files, sm_packages := (if rc_packages config \<noteq> None \<and> resolved \<noteq> []
           then merge_packages (sm_packages current) resolved else sm_packages current)\<rparr>"
  have "pk_name p \<in> pk_name ` set (unseen {} (filter (\<lambda>p. is_boot_essential (pk_name p)) (sm_packages current)))"
    using assms(2,3) by (simp add: unseen_names)
  then show ?thesis using assms(2) by (auto simp: m merge_packages_eq Let_def)
qed

section \<open>Native manifests\<close>

lemma check_boot_ok:
  "check_boot_artifacts fs w arts = Inr () \<longleftrightarrow> (\<forall>a\<in>set arts. \<exists>p. snd a = Some p \<and> gcf_is_file fs p w)"
  by (induction fs w arts rule: check_boot_artifacts.induct) auto

lemmas root_files_simps = root_files_loop.simps[where frames = "[]"] root_files_loop.simps[where frames = "f # fs" for f fs]

text \<open>
  The walk over a tree of directories whose height is bounded returns, and every file that it adds is one of the tree.
\<close>

lemma root_files_returns:
  assumes h: "\<And>d es name. rb_read_dir fs d w = Inr es \<Longrightarrow> Inr (name, Inr DirKind) \<in> set es \<Longrightarrow> h (path_join d name) < (h d :: nat)"
    and rest: "\<And>files. root_files_loop fs root w rest files \<noteq> None"
    and es: "\<And>name. Inr (name, Inr DirKind) \<in> set es \<Longrightarrow> h (path_join d name) < n"
  shows "root_files_loop fs root w ((d, es) # rest) files \<noteq> None"
  using rest es
proof (induction n arbitrary: d es rest files rule: less_induct)
  case (less n)
  show ?case
    using less.prems
  proof (induction es arbitrary: files)
    case (Cons e es)
    have tail: "root_files_loop fs root w ((d, es) # rest) files' \<noteq> None" for files'
      using Cons.prems by (intro Cons.IH) auto
    show ?case
    proof (cases "\<exists>name sub. e = Inr (name, Inr DirKind) \<and> rb_read_dir fs (path_join d name) w = Inr sub")
      case True
      then obtain name sub where e: "e = Inr (name, Inr DirKind)" "rb_read_dir fs (path_join d name) w = Inr sub" by blast
      have "root_files_loop fs root w ((path_join d name, sub) # (d, es) # rest) files \<noteq> None"
        by (rule less.IH[of "h (path_join d name)"]) (use Cons.prems(2) e h tail in auto)
      then show ?thesis using e by (simp add: root_files_simps)
    next
      case False
      then show ?thesis using tail
        by (cases e) (auto simp: root_files_simps split: sum.splits file_kind.splits prod.splits)
    qed
  qed (simp add: root_files_simps)
qed

lemma root_files_sound:
  assumes "root_files_loop fs root w frames files = Some r"
  shows "\<forall>files' k info. r = Inr files' \<longrightarrow> bt_get files' k = Some info \<longrightarrow>
    bt_get files k = Some info \<or> (\<exists>p. root_file fs root p w = Inr (k, info))" (is "?P fs root w frames files r")
proof (rule root_files_loop.raw_induct[where P = ?P, OF _ assms])
  fix f :: "('a, 'b, 'c) rebuild_fs_scheme \<Rightarrow> path_buf \<Rightarrow> 'a \<Rightarrow> root_frame list \<Rightarrow> (string, file_info) btree
      \<Rightarrow> (rebuild_error + (string, file_info) btree) option"
    and fs :: "('a, 'b, 'c) rebuild_fs_scheme" and root w frames files r
  assume IH: "\<And>fs root w frames files r. f fs root w frames files = Some r \<Longrightarrow> ?P fs root w frames files r"
  assume "(case frames of
        [] \<Rightarrow> Some (Inr files)
      | (d, []) # rest \<Rightarrow> f fs root w rest files
      | (d, Inl e # es) # rest \<Rightarrow> Some (Inl (RebuildSys (SysIo e)))
      | (d, Inr (name, kind) # es) # rest \<Rightarrow>
          (case kind of
             Inl e \<Rightarrow> Some (Inl (RebuildSys (SysIo e)))
           | Inr DirKind \<Rightarrow>
               (case rb_read_dir fs (path_join d name) w of
                  Inl e \<Rightarrow> Some (Inl (RebuildSys (SysIo e)))
                | Inr sub \<Rightarrow> f fs root w ((path_join d name, sub) # (d, es) # rest) files)
           | Inr FileKind \<Rightarrow>
               (case root_file fs root (path_join d name) w of
                  Inl e \<Rightarrow> Some (Inl e)
                | Inr (relative, info) \<Rightarrow> f fs root w ((d, es) # rest) (bt_insert relative info files))
           | Inr OtherKind \<Rightarrow> Some (Inl (NotRegularFile (path_join d name))))) = Some r"
  then show "?P fs root w frames files r"
    by (auto simp: bt_get_insert dest!: IH split: list.splits sum.splits file_kind.splits prod.splits if_splits) metis+
qed

lemma merge_config_keeps:
  assumes "merge_config hash current config resolved = Inr m"
  shows "sm_boot m = sm_boot current" "si_target (sm_system m) = si_target (sm_system current)"
    "sm_toplevel m = sm_toplevel current" "sm_etc_source m = sm_etc_source current"
  by (rule merge_config_cases[OF assms]; simp add: merge_users_def merge_system_def split: option.split)+

text \<open>A manifest that is fit to be activated: built for the same target, with its boot files and its configuration tree there.\<close>

definition native_ok :: "('w, 's, 'x) rebuild_fs_scheme \<Rightarrow> string \<Rightarrow> sys_manifest \<Rightarrow> 'w \<Rightarrow> sys_manifest \<Rightarrow> bool" where
  "native_ok fs output current w m \<longleftrightarrow>
     si_target (sm_system m) = si_target (sm_system current) \<and> sm_toplevel m = Some output
   \<and> (\<exists>boot kernel initfs bootloader. sm_boot m = Some boot \<and> bo_kernel boot = Some kernel \<and> bo_initfs boot = Some initfs
       \<and> bo_bootloader boot = Some bootloader \<and> gcf_is_file fs kernel w \<and> gcf_is_file fs initfs w \<and> gcf_is_file fs bootloader w)
   \<and> (\<exists>etc. sm_etc_source m = Some etc \<and> gcf_is_dir fs (path_join etc ''etc'') w)"

lemma native_ok_files: "native_ok fs output current w (m\<lparr>sm_files := files\<rparr>) = native_ok fs output current w m"
  by (simp add: native_ok_def)

lemma native_manifest_steps:
  assumes "load_native_system_manifest fs config output current w = Some (Inr m)"
  obtains base where "native_ok fs output current w base"
    "if gcf_is_dir fs (path_join output ''root-files'') w
     then \<exists>files. collect_native_root_files fs (path_join output ''root-files'') (path_join output ''root-files'')
            (filter (\<lambda>(path, _). \<not> prefix ''usr/lib/init.d/'' path) (sm_files base)) w = Some (Inr files) \<and> m = base\<lparr>sm_files := files\<rparr>
     else m = base"
proof -
  obtain m0 where m0: "load_manifest_from fs (path_join output ''manifest.json'') w = Inr m0"
    "si_target (sm_system m0) = si_target (sm_system current)"
    using assms by (auto simp: load_native_system_manifest_def split: sum.splits if_splits)
  obtain boot where boot: "sm_boot m0 = Some boot" "check_boot_artifacts fs w
      [(''kernel'', bo_kernel boot), (''initfs'', bo_initfs boot), (''bootloader'', bo_bootloader boot)] = Inr ()"
    using assms m0 by (auto simp: load_native_system_manifest_def split: option.splits sum.splits)
  obtain etc where etc: "(case sm_etc_source m0 of Some p \<Rightarrow> Inr p
      | None \<Rightarrow> map_sum (\<lambda>_. NoEtcSource) trim_ws (dbf_read fs (path_join output ''etc-source-path'') w)) = Inr etc"
    "gcf_is_dir fs (path_join etc ''etc'') w"
    using assms m0 boot by (auto simp: load_native_system_manifest_def split: sum.splits if_splits)
  let ?m1 = "m0\<lparr>sm_etc_source := Some etc, sm_toplevel := Some output\<rparr>"
  obtain base where base: "merge_config (sf_hash fs) ?m1 config [] = Inr base"
    using assms m0 boot etc by (auto simp: load_native_system_manifest_def split: sum.splits)
  have ok: "native_ok fs output current w base"
    using merge_config_keeps[OF base] m0(2) boot etc(2) unfolding native_ok_def check_boot_ok by auto
  show ?thesis
    by (rule that[OF ok]) (use assms m0 boot etc base in \<open>auto simp: load_native_system_manifest_def Let_def map_sum_Inr_iff split: sum.splits\<close>)
qed

lemma native_manifest_returns:
  assumes "\<And>d es name. rb_read_dir fs d w = Inr es \<Longrightarrow> Inr (name, Inr DirKind) \<in> set es \<Longrightarrow> h (path_join d name) < (h d :: nat)"
  shows "load_native_system_manifest fs config output current w \<noteq> None"
proof -
  have "collect_native_root_files fs root d files w \<noteq> None" for root d files
  proof (cases "rb_read_dir fs d w")
    case (Inr es)
    have "root_files_loop fs root w [(d, es)] files \<noteq> None"
      by (rule root_files_returns[where h = h and n = "h d", OF assms]) (use assms Inr in \<open>auto simp: root_files_simps\<close>)
    then show ?thesis using Inr by (simp add: collect_native_root_files_def)
  qed (simp add: collect_native_root_files_def)
  then show ?thesis
    by (auto simp: load_native_system_manifest_def Let_def split: sum.split option.split)
qed

lemma collected_units:
  assumes "collect_native_root_files fs root d (filter (\<lambda>(path, _). \<not> prefix unit_dir path) files) w = Some (Inr files')"
    and "prefix unit_dir unit" "bt_get files' unit = Some info"
  shows "\<exists>p. root_file fs root p w = Inr (unit, info)"
proof -
  obtain es where "root_files_loop fs root w [(d, es)] (filter (\<lambda>(path, _). \<not> prefix unit_dir path) files) = Some (Inr files')"
    using assms(1) by (auto simp: collect_native_root_files_def split: sum.splits)
  from root_files_sound[OF this] assms(3)
  have "bt_get (filter (\<lambda>(path, _). \<not> prefix unit_dir path) files) unit = Some info \<or> (\<exists>p. root_file fs root p w = Inr (unit, info))"
    by blast
  then show ?thesis using assms(2) by (auto simp: bt_get_def dest: map_of_SomeD)
qed

section \<open>An instance\<close>

definition box_config :: rebuild_config where
  "box_config = no_config\<lparr>rc_hostname := Some ''box''\<rparr>"

definition box_system :: sys_manifest where
  "box_system = empty_system\<lparr>sm_system := (sm_system empty_system)\<lparr>si_hostname := ''box''\<rparr>, sm_etc_source := Some ''/e'',
     sm_boot := Some \<lparr>bo_kernel = Some ''/k'', bo_initfs = Some ''/k'', bo_bootloader = Some ''/k''\<rparr>\<rparr>"

text \<open>Every manifest file decodes to that system; the root files are one empty directory.\<close>

definition box_fs :: "(mem, unit) rebuild_fs" where
  "box_fs = install_fs.extend
     (mem_cache\<lparr>sf_decode := (\<lambda>_. Some box_system), gcf_is_dir := (\<lambda>p _. p = ''/e/etc'' \<or> p = ''/o/root-files''),
        gcf_is_file := (\<lambda>p _. p = ''/k'')\<rparr>)
     (rebuild_fs.fields (\<lambda>_. Some box_config) (\<lambda>_. []) (\<lambda>_. []) (\<lambda>_. None) (\<lambda>_ _. None) (\<lambda>_. fail ()) (\<lambda>_ _. fail ())
       (\<lambda>_ _ _. fail ()) (\<lambda>p _. Inr p) ''1''
       (\<lambda>d _. Inr (if d = ''/o/root-files'' then [Inr (''u'', Inr DirKind)] else [])) (\<lambda>_ _. Inr 420))"

definition box_world :: mem where
  "box_world = ([], [''/c.json'' \<mapsto> [], ''/etc/redox-system/configuration.nix'' \<mapsto> [], ''/m.json'' \<mapsto> [], ''/o/manifest.json'' \<mapsto> []])"

lemmas box_simps = box_fs_def mem_cache_def mem_sys_def sys_fs.defs install_fs.defs rebuild_fs.defs

lemma box_parts:
  "sm_boot box_system = Some \<lparr>bo_kernel = Some ''/k'', bo_initfs = Some ''/k'', bo_bootloader = Some ''/k''\<rparr>"
  "sm_etc_source box_system = Some ''/e''" "sm_files box_system = []"
  "box_system\<lparr>sm_etc_source := Some ''/e'', sm_toplevel := t, sm_files := []\<rparr> = box_system\<lparr>sm_etc_source := Some ''/e'', sm_toplevel := t\<rparr>"
  by (simp_all add: box_system_def empty_system_def)

lemma box_merge: "merge_config h box_system box_config [] = Inr box_system"
  by (simp add: merge_config_def box_config_def no_config_def empty_system_def box_system_def merge_system_def merge_settings_def
      merge_networking_def merge_graphics_def merge_security_def merge_logging_def merge_power_def merge_users_def or_keep_def)

lemma box_loads: "p \<in> {''/m.json'', ''/o/manifest.json''} \<Longrightarrow> load_manifest_from box_fs p box_world = Inr box_system"
  by (auto simp: load_manifest_from_def box_simps mem_exists_def link_name_other ROOTS_def box_world_def)

section \<open>Properties\<close>



text \<open>
  A rebuild from source keeps the system bootable and installs what it built: whatever the configuration and the
  package sources are, every boot-essential package of the current system is still there by name, and every package that
  was built is there with the path of its output.
\<close>

theorem source_rebuild_packages:
  assumes "merge_config hash current config resolved = Inr merged"
  shows "(\<forall>p\<in>set (sm_packages current). is_boot_essential (pk_name p) \<longrightarrow>
      pk_name p \<in> pk_name ` set (merge_source_packages (sm_packages current) built (sm_packages merged)))
    \<and> (distinct (map fst built) \<longrightarrow> (\<forall>(name, out)\<in>set built.
      \<lparr>pk_name = name, pk_version = ''source'', pk_store_path = out\<rparr> \<in> set (merge_source_packages (sm_packages current) built (sm_packages merged))))"
proof -
  have sub: "set (fold add_built built (sm_packages merged)) \<subseteq> set (merge_source_packages (sm_packages current) built (sm_packages merged))"
    unfolding merge_source_packages_def by (rule keep_essentials_sub)
  have "pk_name p \<in> pk_name ` set (fold add_built built (sm_packages merged))"
    if "p \<in> set (sm_packages current)" "is_boot_essential (pk_name p)" for p
    using fold_built(1) merge_keeps_essentials[OF assms that] by blast
  then show ?thesis using sub built_present[of built] by fastforce
qed

theorem source_rebuild_packages_witness:
  "''ion'' \<in> pk_name ` set (merge_source_packages [ion] [(''rg'', ''/nix/store/built'')] (sm_packages motd_system))
    \<and> \<lparr>pk_name = ''rg'', pk_version = ''source'', pk_store_path = ''/nix/store/built''\<rparr>
      \<in> set (merge_source_packages [ion] [(''rg'', ''/nix/store/built'')] (sm_packages motd_system))"
proof -
  have "is_boot_essential (pk_name ion)" "pk_name ion = ''ion''" by (simp_all add: ion_def is_boot_essential_def BOOT_ESSENTIAL_def)
  then show ?thesis using source_rebuild_packages[OF motd_merge, of "[(''rg'', ''/nix/store/built'')]"] by auto
qed

lemma merge_config_generation:
  "merge_config hash (m\<lparr>sm_generation := g\<rparr>) config resolved = map_sum id (\<lambda>m. m\<lparr>sm_generation := g\<rparr>) (merge_config hash m config resolved)"
proof (cases "rc_files config")
  case None
  then show ?thesis by (simp add: merge_config_def Let_def merge_users_def split: option.split)
next
  case (Some files)
  then show ?thesis
    by (cases "merge_files hash files (filter (\<lambda>(_, info). fi_text info = None) (sm_files m))")
      (simp_all add: merge_config_def Let_def merge_users_def split: option.split)
qed



end
