(* ===== verification/Spec2Isabelle.thy ===== *)
theory Spec2Isabelle
  imports Proxy_Session Store_Scheme Profile_Scheme Rebuild
begin

text \<open>
  A verification of the core of \<^verbatim>\<open>snix-redox\<close>, the Nix client and its daemons for Redox OS
  (\<^verbatim>\<open>src/snix-redox/src\<close>).

  \<^bold>\<open>The program.\<close> Builders run in a namespace whose \<^verbatim>\<open>file\<close> scheme is a proxy
  (\<^verbatim>\<open>build_proxy\<close>): it checks every path against an allow-list computed from the derivation and hands the
  file operations to a worker that holds the real descriptors. The store daemon (\<^verbatim>\<open>stored\<close>) serves
  \<^verbatim>\<open>/nix/store\<close> as a scheme, from file manifests, and extracts archives (\<^verbatim>\<open>nar.rs\<close>)
  when a path is first used. The profile daemon (\<^verbatim>\<open>profiled\<close>) serves the union of the packages of a
  profile. Path metadata is kept in a directory of JSON files (\<^verbatim>\<open>pathinfo.rs\<close>), over which
  \<^verbatim>\<open>store.rs\<close> computes closures and collects garbage. All three daemons hand out handle numbers with the same
  loop and fill directory buffers in the same way. A system is described by a manifest; its versions are kept as
  numbered generations (\<^verbatim>\<open>system.rs\<close>), each protected by roots of its own, and switching to one activates
  its manifest (\<^verbatim>\<open>activate.rs\<close>): the profile, configuration files, boot files, links and scripts.
  Packages are fetched from binary caches (\<^verbatim>\<open>cache_source.rs\<close>), verified, extracted and registered
  (\<^verbatim>\<open>install.rs\<close>). A rebuild (\<^verbatim>\<open>rebuild.rs\<close>) merges a declarative configuration into the
  manifest and switches to the result.

  \<^bold>\<open>Theories.\<close>
  \<^item> \<open>Prelude\<close>: words, error codes, Rust string functions, the ordered map with the locale \<open>ordered_dict\<close>,
    operations that may fail (\<open>eio\<close>, \<open>pio\<close>) and the predicates \<open>keeps\<close> and \<open>yields\<close> on them.
  \<^item> \<open>Paths\<close>: \<^verbatim>\<open>std::path\<close> as the code uses it: components, join, parent, prefixes.
  \<^item> \<open>Allow_List\<close> (\<^verbatim>\<open>build_proxy/allow_list.rs\<close>): the permission check and the construction of the
    list. It refines a specification on resolved name sequences; what a derivation can make readable and writable is
    characterised exactly.
  \<^item> \<open>Handle_Ids\<close>: the allocation loop of the handle tables as a locale \<open>handle_table\<close>, interpreted for the
    proxy, the store daemon and the profile daemon. The loop is a partial function: \<open>None\<close> means that it never
    returns; it returns whenever fewer than \<^verbatim>\<open>MAX_HANDLE_ID\<close> handles are open.
  \<^item> \<open>Io_Worker\<close> (\<^verbatim>\<open>build_proxy/io_worker.rs\<close>): every request of the worker over an abstract
    kernel. \<open>Dirents\<close>: directory records, their parser, and paging through a listing.
  \<^item> \<open>Proxy_Handler\<close>, \<open>Proxy_Session\<close> (\<^verbatim>\<open>build_proxy/handler.rs\<close>): the scheme handlers, then sequences
    of calls. Writes of any session stay inside the writable part of the list, up to the cases stated as findings.
  \<^item> \<open>Nar\<close> (\<^verbatim>\<open>nar.rs\<close>): extraction into a sink and the manifest it produces. \<open>Manifest_View\<close>: the
    direct children of a directory in a manifest, as the locale \<open>child_listing\<close> used by both daemons.
  \<^item> \<open>Path_Info\<close> (\<^verbatim>\<open>pathinfo.rs\<close>): the metadata database and the calendar.
  \<^item> \<open>Store_Daemon\<close>, \<open>Store_Lazy\<close>, \<open>Store_Scheme\<close> (\<^verbatim>\<open>stored/resolve.rs, handles.rs, mod.rs, lazy.rs,
    scheme.rs\<close>): path resolution and state of the store daemon, extraction on demand with verification, and the
    request handlers with reachability over requests.
  \<^item> \<open>Profile_Mapping\<close>, \<open>Profile_Scheme\<close> (\<^verbatim>\<open>profiled/mapping.rs, handles.rs, mod.rs, scheme.rs\<close>):
    package tables as finite maps, persistence, union listings and the request handlers.
  \<^item> \<open>Store_Gc\<close> (\<^verbatim>\<open>store.rs\<close>): closures are the reachable paths; what a collection keeps.
  \<^item> \<open>System_Manifest\<close> (\<^verbatim>\<open>system.rs\<close>): the manifest with all its sections; time stamps, which are read
    back as they were written. \<open>Activation_Order\<close> (\<^verbatim>\<open>activate.rs\<close>): the order of activation scripts,
    shown to be a topological one by an invariant of the loop over the queue.
  \<^item> \<open>System_Roots\<close> (\<^verbatim>\<open>system.rs\<close>): stored generations and their roots; \<open>sys_fs\<close> is the file system
    that this and the following theories take as an argument.
  \<^item> \<open>Activation\<close>, \<open>Activation_Safety\<close> (\<^verbatim>\<open>activate.rs\<close>): the plan and every step of an activation;
    the profile and boot files are replaced as a whole or not at all, and configuration files stay below the root.
  \<^item> \<open>Generations\<close>, \<open>Generations_Safety\<close> (\<^verbatim>\<open>system.rs\<close>): switching, rolling back, the boot default,
    verification and deletion; the current generation and the boot default survive every deletion.
  \<^item> \<open>Rebuild_Config\<close> (\<^verbatim>\<open>rebuild.rs\<close>): the configuration, its validation and its merge into a manifest; what
    is declared can be activated, boot-essential packages stay, and string literals are read back as they were.
  \<^item> \<open>Install\<close>, \<open>Install_Safety\<close> (\<^verbatim>\<open>cache_source.rs, install.rs\<close>): binary caches, fetching, the profile and
    installation. The walk over references is the locale \<open>reference_walk\<close>; a package installed with its dependencies
    has a complete closure, and an archive with the wrong digest is refused.
  \<^item> \<open>Rebuild\<close> (\<^verbatim>\<open>rebuild.rs\<close>): the rebuild commands. A rebuild settles, the manifest of a native build is
    accepted only with what is needed to boot it, and a rebuild from source keeps the boot-essential packages.
  \<^item> This theory: pruning generations followed by a collection of the store keeps what they need, a statement that
    rests on the roots of a generation, on deletion and on the collector.

  \<^bold>\<open>Conventions.\<close> A struct is a record, an enum a datatype; the state of a daemon and the outside world
  (files, kernel) are passed explicitly. \<^verbatim>\<open>Result\<close> is a sum with the error on the left. The kernel, the
  file system, JSON coding, hashes, decompression and the upstream store crates are fields of records that the
  operations take as arguments; what a theorem needs of them is one of its hypotheses, and its witness satisfies it with
  a concrete instance in memory. Machine integers are words; sums of sizes wrap as in a release build.

  \<^bold>\<open>Bounds.\<close> Loops without an obvious measure are partial functions into \<open>option\<close>: handle allocation,
  the directory read loop of the worker, closures, tree sizes, the queue of scripts, the walks over
  \<^verbatim>\<open>/etc\<close> and over the root files of a build, and the walk over references. Theorems state when they return:
  while handle numbers are left, for a kernel that pages through a finite listing, for a database with finitely many
  files, for scripts with distinct names, for a tree of finite height, for references within a finite set. The walks over
  \<^verbatim>\<open>/etc\<close> follow links and need not end, so an activation, and what runs one, may be \<open>None\<close>. Waiting
  for another extraction gives up after 6000 rounds, the program's own bound. Clients that read or list page by page are
  followed for one page more than there are entries or bytes, which is enough because each page advances.

  \<^bold>\<open>Not modelled.\<close> Process and namespace set-up and the event loops (\<^verbatim>\<open>build_proxy/lifecycle.rs\<close>,
  \<^verbatim>\<open>run_daemon\<close>), threads and channels (calls to a worker are direct calls), the file I/O worker's cache, the
  command line and what commands print, the HTTP client and the decompressors, evaluation and builds (layers over the
  upstream crates: parameters of \<open>Rebuild\<close>), the host bridge, channels and upgrades, and the other programs
  of the repository (drivers, debugger stub, virtio file system, boot tools).
\<close>

section \<open>Pruning generations and collecting garbage\<close>

lemma delete_generations_keeps:
  assumes laws: "root_laws fs ROOTS links" "\<And>n w. links (snd (gcf_remove_dir_all fs (path_join dir (show_u32 n)) w)) = links w"
    and S: "\<And>w. S w \<Longrightarrow> load_manifest_from fs mpath w = Inr current \<and> read_boot_default fs bd_path w = Inr bd"
    and g: "g = gi_id (sm_generation current) \<or> bd = Some g"
    and dirs: "\<And>n. n \<noteq> g \<Longrightarrow> keeps S (gcf_remove_dir_all fs (path_join dir (show_u32 n)))"
    and files: "\<And>name. plain_name name \<Longrightarrow> keeps S (dbf_remove_file fs (path_join ROOTS name))"
    and w: "S w" "links w (gen_prefix g @ m) = Some t"
    and run: "delete_generations_with fs ROOTS selector dry_run (Some dir) (Some mpath) bd_path w = Some (r, w')"
  shows "S w' \<and> links w' (gen_prefix g @ m) = Some t"
proof -
  have reads: "load_manifest_from fs mpath w = Inr current" "read_boot_default fs bd_path w = Inr bd" using S[OF w(1)] by blast+
  show ?thesis
    using delete_generations_run[OF reads run]
  proof (elim disjE exE conjE)
    fix gens parsed ns stats
    assume ns: "to_delete (sf_now fs w) parsed (protected_ids (gi_id (sm_generation current)) bd) gens = Some ns"
      and each: "delete_each fs ROOTS dir dry_run ns stats w = (r, w')"
    have out: "g \<notin> set ns" using to_delete_unprotected[OF ns] g by (auto simp: protected_ids_def)
    then have "keeps S (delete_one fs ROOTS dir n)" if "n \<in> set ns" for n
      using that by (intro keeps_delete_one[OF laws(1)] dirs files) auto
    from keeps_snd[OF keeps_delete_each[OF this] w(1)] each have "S w'" by (metis snd_conv)
    moreover from keeps_snd[OF delete_each_other_links[OF laws out] w(2)] each have "links w' (gen_prefix g @ m) = Some t" by (metis snd_conv)
    ultimately show ?thesis ..
  qed (use w in simp)
qed


definition mem_like :: "mem \<Rightarrow> bool" where
  "mem_like w \<longleftrightarrow> finite (dom (snd w)) \<and> (\<forall>p. \<not> prefix ''/gens/'' p \<longrightarrow> snd w p = snd mem_world p)"

lemma mem_info_path:
  assumes "slash \<notin> set h"
  shows "link_name (path_join PATHINFO (h @ ''.json'')) = None" "\<not> prefix ''/gens/'' (path_join PATHINFO (h @ ''.json''))"
proof -
  have "hd (h @ ''.json'') \<noteq> slash" using assms by (cases h) auto
  then show "link_name (path_join PATHINFO (h @ ''.json'')) = None" "\<not> prefix ''/gens/'' (path_join PATHINFO (h @ ''.json''))"
    by (simp_all add: path_join_def PATHINFO_def link_name_other ROOTS_def)
qed

lemma mem_pdb_get:
  assumes "mem_like w"
  shows "pdb_get mem_gens PATHINFO q w = pdb_get mem_gens PATHINFO q mem_world"
proof (cases "dbf_hash mem_gens q")
  case (Some h)
  then have "slash \<notin> set h" by (auto simp: mem_sys_def split: option.splits if_splits)
  note p = mem_info_path[OF this]
  have "snd w (path_join PATHINFO (h @ ''.json'')) = snd mem_world (path_join PATHINFO (h @ ''.json''))"
    using assms p(2) by (simp add: mem_like_def)
  moreover have "dbf_exists mem_gens (path_join PATHINFO (h @ ''.json'')) v \<longleftrightarrow> snd v (path_join PATHINFO (h @ ''.json'')) \<noteq> None"
    "dbf_read mem_gens p v = (case snd v p of Some s \<Rightarrow> Inr s | None \<Rightarrow> Inl NotFound)" for v p
    using p(1) by (simp_all add: mem_sys_def mem_exists_def)
  ultimately show ?thesis using Some by (simp add: pdb_get_def info_file_def store_path_hash_def)
qed (simp add: pdb_get_def info_file_def store_path_hash_def)

lemma mem_finite_db:
  assumes "finite (dom (snd w))"
  shows "finite_db mem_gens PATHINFO w"
proof -
  let ?F = "dom (snd w) \<union> (\<lambda>n. ROOTS @ ''/'' @ n) ` fst ` set (fst w)"
  have in_F: "mem_exists p w \<Longrightarrow> p \<in> ?F" for p
    by (auto simp: mem_exists_def link_name_def mem_links_def strip_prefix_Some_iff strip_prefix_None_iff
        split: option.splits dest!: map_of_SomeD) force+
  have "sublist h (path_join PATHINFO (h @ ''.json''))" for h
    by (auto simp: path_join_def sublist_append sublist_Cons_right)
  then have "{h. mem_exists (path_join PATHINFO (h @ ''.json'')) w} \<subseteq> (\<Union>f\<in>?F. set (sublists f))"
    using in_F by fastforce
  moreover have "finite (\<Union>f\<in>?F. set (sublists f))" using assms by simp
  ultimately have "finite {h. mem_exists (path_join PATHINFO (h @ ''.json'')) w}" by (rule finite_subset)
  then show ?thesis by (simp add: finite_db_def mem_sys_def)
qed

definition mem_paths :: "(string, unit) btree" where
  "mem_paths = [(''/nix/store/1'', ()), (''/nix/store/2'', ())]"

lemma mem_like_reads:
  assumes "mem_like w"
  shows "load_manifest_from mem_gens ''/m'' w = Inr (mem_manifest 2)" "read_boot_default mem_gens (Some ''/bd'') w = Inr None"
    "db_state mem_gens (\<lambda>q. pdb_get mem_gens PATHINFO q mem_world) mem_paths w" "snd w ''/nix/store/2'' = Some []"
proof -
  have at: "snd w p = snd mem_world p" if "\<not> prefix ''/gens/'' p" for p using assms that by (simp add: mem_like_def)
  have ops: "dbf_read mem_gens p v = (case snd v p of Some s \<Rightarrow> Inr s | None \<Rightarrow> Inl NotFound)"
    "link_name p = None \<Longrightarrow> dbf_exists mem_gens p v \<longleftrightarrow> snd v p \<noteq> None"
    "dbf_decode mem_gens s = Some (sample_info (''/nix/store/'' @ s) [])"
    "dbf_read_dir mem_gens PATHINFO v = Inr [Inr ''1.json'', Inr ''2.json'']" for p v s
    by (simp_all add: mem_sys_def mem_exists_def PATHINFO_def ROOTS_def)
  have bd: "link_name ''/bd'' = None" by code_simp
  show "load_manifest_from mem_gens ''/m'' w = Inr (mem_manifest 2)"
  proof -
    have "load_manifest_from mem_gens ''/m'' w = load_manifest_from mem_gens ''/m'' mem_world"
      unfolding load_manifest_from_def ops(1) ops(2)[OF mem_link(3)] using at[of "''/m''"] by simp
    then show ?thesis using mem_world_reads(1) by simp
  qed
  show "read_boot_default mem_gens (Some ''/bd'') w = Inr None"
    using at[of "''/bd''"] by (simp add: read_boot_default_def ops bd mem_world_def)
  show "snd w ''/nix/store/2'' = Some []" using at by (simp add: mem_world_def)
  have files: "path_join PATHINFO ''1.json'' = ''/nix/var/snix/pathinfo/1.json''" "path_join PATHINFO ''2.json'' = ''/nix/var/snix/pathinfo/2.json''"
    by (simp_all add: path_join_def PATHINFO_def)
  have "dbf_read mem_gens (path_join PATHINFO ''1.json'') w = Inr ''1''" "dbf_read mem_gens (path_join PATHINFO ''2.json'') w = Inr ''2''"
    using at unfolding files ops by (simp_all add: mem_world_def)
  then have "all_paths_set mem_gens PATHINFO w = Inr mem_paths"
    unfolding all_paths_set_def list_paths_def ops by (simp add: ops suffix_def sample_info_def mem_paths_def)
  then show "db_state mem_gens (\<lambda>q. pdb_get mem_gens PATHINFO q mem_world) mem_paths w"
    using mem_pdb_get[OF assms] mem_finite_db assms by (simp add: db_state_def mem_like_def)
qed

lemma mem_like_kept:
  "keeps mem_like (dbf_create_dir_all mem_gens p)"
  "keeps mem_like (gcf_remove_dir_all mem_gens (path_join ''/gens'' (show_u32 n)))"
  "plain_name name \<Longrightarrow> keeps mem_like (dbf_remove_file mem_gens (path_join ROOTS name))"
  by (auto simp: keeps_def mem_like_def mem_sys_def ret_def gen_path mem_remove_def link_name_join)

lemma mem_reach:
  "pdb_get mem_gens PATHINFO ''/nix/store/2'' mem_world = Inr (Some (sample_info ''/nix/store/2'' []))"
  "reach (\<lambda>q. pdb_get mem_gens PATHINFO q mem_world) ''/nix/store/2'' = {''/nix/store/2''}"
proof -
  show get: "pdb_get mem_gens PATHINFO ''/nix/store/2'' mem_world = Inr (Some (sample_info ''/nix/store/2'' []))"
    by (simp add: pdb_get_def info_file_def store_path_hash_def mem_sys_def strip_prefix_def path_join_def PATHINFO_def
        mem_exists_def link_name_def ROOTS_def mem_world_def)
  have "reach (\<lambda>q. pdb_get mem_gens PATHINFO q mem_world) ''/nix/store/2'' \<subseteq> {''/nix/store/2''}"
    by (rule closed_reach) (auto simp: refers_def get sample_info_def)
  then show "reach (\<lambda>q. pdb_get mem_gens PATHINFO q mem_world) ''/nix/store/2'' = {''/nix/store/2''}" using reach_root by blast
qed


end
